(* ===== verification/Prelude.thy ===== *)
theory Prelude
  imports Main "HOL-Library.Word"
begin

section \<open>Shared vocabulary of the development\<close>

text \<open>
  This theory holds what every component shares: the names of the machine integers, Rust's
  \<open>Result\<close> as a sum type, \<open>saturating_add\<close> on \<open>u64\<close>, and the state-and-error monad in which
  effectful Rust code is written.

  A Rust \<open>Result<T, E>\<close> is \<open>'e + 'a\<close> with \<open>Err = Inl\<close> and \<open>Ok = Inr\<close>. A Rust function that talks to
  the outside world through \<open>&mut\<close> trait objects is a function on a world \<open>'w\<close>; a call returns a
  result together with the next world, also when it fails, because a failed call may already have
  changed the world. The \<open>?\<close> operator of Rust is \<open>bindE\<close>.

  Proofs about effectful code use the weakest-precondition transformer \<open>wpE\<close>: the collection
  \<open>wpE_simps\<close> rewrites \<open>wpE\<close> of a composed program into \<open>wpE\<close> of its calls.
\<close>

type_synonym u8 = "8 word"
type_synonym u16 = "16 word"
type_synonym u32 = "32 word"
type_synonym u64 = "64 word"

type_synonym bytes = "char list"

abbreviation Err :: "'e \<Rightarrow> 'e + 'a" where "Err \<equiv> Inl"
abbreviation Ok :: "'a \<Rightarrow> 'e + 'a" where "Ok \<equiv> Inr"

named_theorems wpE_simps \<open>rewrite rules of the weakest-precondition transformer\<close>
named_theorems result_simps \<open>unfolding rules of the result combinators\<close>

subsection \<open>Results\<close>

definition is_Err :: "'e + 'a \<Rightarrow> bool" where
  "is_Err r = (case r of Err _ \<Rightarrow> True | Ok _ \<Rightarrow> False)"

definition bindR :: "'e + 'a \<Rightarrow> ('a \<Rightarrow> 'e + 'b) \<Rightarrow> 'e + 'b" where
  "bindR r k = (case r of Err e \<Rightarrow> Err e | Ok a \<Rightarrow> k a)"

definition map_err :: "('e \<Rightarrow> 'f) \<Rightarrow> 'e + 'a \<Rightarrow> 'f + 'a" where
  "map_err f r = (case r of Err e \<Rightarrow> Err (f e) | Ok a \<Rightarrow> Ok a)"

definition ok_or :: "'e \<Rightarrow> 'a option \<Rightarrow> 'e + 'a" where
  "ok_or e v = (case v of None \<Rightarrow> Err e | Some a \<Rightarrow> Ok a)"

lemma is_Err_simps [simp]: "is_Err (Err e)" "\<not> is_Err (Ok a)"
  by (simp_all add: is_Err_def)

lemma bindR_simps [simp, result_simps]: "bindR (Err e) k = Err e" "bindR (Ok a) k = k a"
  by (simp_all add: bindR_def)

lemma bindR_Ok_iff: "bindR r k = Ok b \<longleftrightarrow> (\<exists>a. r = Ok a \<and> k a = Ok b)"
  by (cases r) simp_all

lemma bindR_Err_iff: "bindR r k = Err e \<longleftrightarrow> r = Err e \<or> (\<exists>a. r = Ok a \<and> k a = Err e)"
  by (cases r) simp_all

lemma map_err_simps [simp, result_simps]: "map_err f (Err e) = Err (f e)" "map_err f (Ok a) = Ok a"
  by (simp_all add: map_err_def)

lemma map_err_Ok_iff [simp]: "map_err f r = Ok a \<longleftrightarrow> r = Ok a"
  by (cases r) simp_all

lemma map_err_Err_iff: "map_err f r = Err e' \<longleftrightarrow> (\<exists>e. r = Err e \<and> e' = f e)"
  by (cases r) auto

lemma ok_or_simps [simp, result_simps]: "ok_or e None = Err e" "ok_or e (Some a) = Ok a"
  by (simp_all add: ok_or_def)

lemma ok_or_Ok_iff [simp]: "ok_or e v = Ok a \<longleftrightarrow> v = Some a"
  by (cases v) simp_all

text \<open>Rust's \<open>Iterator::try_fold\<close>: the fold stops at the first error.\<close>

fun try_fold :: "('s \<Rightarrow> 'a \<Rightarrow> 'e + 's) \<Rightarrow> 's \<Rightarrow> 'a list \<Rightarrow> 'e + 's" where
  "try_fold f s [] = Ok s"
| "try_fold f s (x # xs) = bindR (f s x) (\<lambda>s'. try_fold f s' xs)"

text \<open>A \<open>for\<close> loop whose body is a check with the \<open>?\<close> operator.\<close>

fun check_all :: "('a \<Rightarrow> 'e + unit) \<Rightarrow> 'a list \<Rightarrow> 'e + unit" where
  "check_all f [] = Ok ()"
| "check_all f (x # xs) = bindR (f x) (\<lambda>_. check_all f xs)"

lemma try_fold_invariant:
  assumes "try_fold f s xs = Ok s'" and "P s" and "\<And>s x s'. \<lbrakk>x \<in> set xs; f s x = Ok s'; P s\<rbrakk> \<Longrightarrow> P s'"
  shows "P s'"
  using assms by (induction xs arbitrary: s) (auto simp: bindR_Ok_iff)

lemma check_all_Ok_iff: "check_all f xs = Ok () \<longleftrightarrow> (\<forall>x\<in>set xs. f x = Ok ())"
  by (induction xs) (auto simp: bindR_Ok_iff)

lemma check_all_ErrD: "check_all f xs = Err e \<Longrightarrow> \<exists>x\<in>set xs. f x = Err e"
  by (induction xs) (auto simp: bindR_Err_iff)

lemma unit_result_cases: "(r :: 'e + unit) = Ok () \<or> (\<exists>e. r = Err e)"
  by (cases r) auto

subsection \<open>Saturating and bounded words\<close>

definition saturating_add :: "u64 \<Rightarrow> u64 \<Rightarrow> u64" where
  "saturating_add a b = (if unat a + unat b < 2 ^ 64 then a + b else - 1)"

lemma unat_max_u64: "unat (- 1 :: u64) = 2 ^ 64 - 1"
  by (simp add: unsigned_minus_1_eq_mask mask_eq_exp_minus_1)

lemma unat_saturating_add: "unat (saturating_add a b) = min (unat a + unat b) (2 ^ 64 - 1)"
proof (cases "unat a + unat b < 2 ^ 64")
  case True
  then have "unat (a + b) = unat a + unat b"
    by (simp add: unat_word_ariths)
  with True show ?thesis by (simp add: saturating_add_def)
next
  case False
  then show ?thesis by (simp add: saturating_add_def unat_max_u64)
qed

lemma u64_le_max: "(a :: u64) \<le> - 1"
  by simp

text \<open>A revision bumped by \<open>saturating_add(1)\<close> is newer except at the largest \<open>u64\<close>.\<close>

lemma saturating_add_one_gt: "a < saturating_add a 1 \<longleftrightarrow> a \<noteq> - 1"
proof -
  have lt: "unat a < 2 ^ 64"
    using unsigned_less [of a] by simp
  have max: "a = - 1 \<longleftrightarrow> unat a = 2 ^ 64 - 1"
    using unat_max_u64 by (metis unsigned_word_eqI)
  show ?thesis
    using lt by (auto simp: word_less_nat_alt unat_saturating_add max min_def)
qed

lemma saturating_add_one_nonzero: "saturating_add a 1 \<noteq> 0"
proof -
  have "unat (saturating_add a 1) \<noteq> 0"
    by (simp add: unat_saturating_add)
  then show ?thesis by auto
qed

subsection \<open>Effectful programs\<close>

type_synonym ('w, 'e, 'a) eff = "'w \<Rightarrow> ('e + 'a) \<times> 'w"

definition returnE :: "'a \<Rightarrow> ('w, 'e, 'a) eff" where
  "returnE a = (\<lambda>w. (Ok a, w))"

definition throwE :: "'e \<Rightarrow> ('w, 'e, 'a) eff" where
  "throwE e = (\<lambda>w. (Err e, w))"

definition liftE :: "'e + 'a \<Rightarrow> ('w, 'e, 'a) eff" where
  "liftE r = (\<lambda>w. (r, w))"

definition bindE :: "('w, 'e, 'a) eff \<Rightarrow> ('a \<Rightarrow> ('w, 'e, 'b) eff) \<Rightarrow> ('w, 'e, 'b) eff" where
  "bindE m k = (\<lambda>w. case m w of (Err e, w') \<Rightarrow> (Err e, w') | (Ok a, w') \<Rightarrow> k a w')"

definition map_errE :: "('e \<Rightarrow> 'f) \<Rightarrow> ('w, 'e, 'a) eff \<Rightarrow> ('w, 'f, 'a) eff" where
  "map_errE f m = (\<lambda>w. case m w of (r, w') \<Rightarrow> (map_err f r, w'))"

definition catchE :: "('w, 'e, 'a) eff \<Rightarrow> ('e \<Rightarrow> ('w, 'f, 'a) eff) \<Rightarrow> ('w, 'f, 'a) eff" where
  "catchE m h = (\<lambda>w. case m w of (Err e, w') \<Rightarrow> h e w' | (Ok a, w') \<Rightarrow> (Ok a, w'))"

definition wpE :: "('w, 'e, 'a) eff \<Rightarrow> ('e + 'a \<Rightarrow> 'w \<Rightarrow> bool) \<Rightarrow> 'w \<Rightarrow> bool" where
  "wpE m Q w = (case m w of (r, w') \<Rightarrow> Q r w')"

lemma wpE_returnE [wpE_simps]: "wpE (returnE a) Q w = Q (Ok a) w"
  by (simp add: wpE_def returnE_def)

lemma wpE_throwE [wpE_simps]: "wpE (throwE e) Q w = Q (Err e) w"
  by (simp add: wpE_def throwE_def)

lemma wpE_liftE [wpE_simps]: "wpE (liftE r) Q w = Q r w"
  by (simp add: wpE_def liftE_def)

lemma wpE_bindE [wpE_simps]:
  "wpE (bindE m k) Q w = wpE m (\<lambda>r w'. case r of Err e \<Rightarrow> Q (Err e) w' | Ok a \<Rightarrow> wpE (k a) Q w') w"
  by (simp add: wpE_def bindE_def split: prod.splits sum.splits)

lemma wpE_map_errE [wpE_simps]: "wpE (map_errE f m) Q w = wpE m (\<lambda>r. Q (map_err f r)) w"
  by (simp add: wpE_def map_errE_def split: prod.splits)

lemma wpE_catchE [wpE_simps]:
  "wpE (catchE m h) Q w = wpE m (\<lambda>r w'. case r of Err e \<Rightarrow> wpE (h e) Q w' | Ok a \<Rightarrow> Q (Ok a) w') w"
  by (simp add: wpE_def catchE_def split: prod.splits sum.splits)

lemma wpE_if [wpE_simps]: "wpE (if b then m else n) Q w = (if b then wpE m Q w else wpE n Q w)"
  by simp

lemma wpE_mono: "wpE m Q w \<Longrightarrow> (\<And>r w'. Q r w' \<Longrightarrow> R r w') \<Longrightarrow> wpE m R w"
  by (auto simp: wpE_def)

lemma wpE_I: "(\<And>r w'. m w = (r, w') \<Longrightarrow> Q r w') \<Longrightarrow> wpE m Q w"
  by (auto simp: wpE_def split: prod.splits)

lemma wpE_D: "wpE m Q w \<Longrightarrow> m w = (r, w') \<Longrightarrow> Q r w'"
  by (simp add: wpE_def)

lemma wpE_eq: "wpE m Q w \<longleftrightarrow> Q (fst (m w)) (snd (m w))"
  by (simp add: wpE_def split: prod.splits)

subsection \<open>Triples\<close>

text \<open>
  \<open>hoareE A m B C\<close>: from a world satisfying \<open>A\<close>, a success with \<open>a\<close> ends in a world satisfying \<open>B a\<close>
  and a failure in one satisfying \<open>C\<close>.
\<close>

definition hoareE ::
  "('w \<Rightarrow> bool) \<Rightarrow> ('w, 'e, 'a) eff \<Rightarrow> ('a \<Rightarrow> 'w \<Rightarrow> bool) \<Rightarrow> ('w \<Rightarrow> bool) \<Rightarrow> bool" where
  "hoareE A m B C \<longleftrightarrow>
     (\<forall>w. A w \<longrightarrow> (case m w of (r, w') \<Rightarrow> (case r of Err _ \<Rightarrow> C w' | Ok a \<Rightarrow> B a w')))"

lemma hoareE_returnE: "(\<And>w. A w \<Longrightarrow> B a w) \<Longrightarrow> hoareE A (returnE a) B C"
  by (simp add: hoareE_def returnE_def)

lemma hoareE_throwE: "(\<And>w. A w \<Longrightarrow> C w) \<Longrightarrow> hoareE A (throwE e) B C"
  by (simp add: hoareE_def throwE_def)

lemma hoareE_bindE:
  "hoareE A m B C \<Longrightarrow> (\<And>a. hoareE (B a) (k a) D C) \<Longrightarrow> hoareE A (bindE m k) D C"
  unfolding hoareE_def bindE_def by (fastforce split: prod.splits sum.splits)

lemma hoareE_map_errE: "hoareE A m B C \<Longrightarrow> hoareE A (map_errE f m) B C"
  unfolding hoareE_def map_errE_def by (fastforce split: prod.splits sum.splits)

lemma hoareE_catchE:
  "hoareE A m B D \<Longrightarrow> (\<And>e. hoareE D (h e) B C) \<Longrightarrow> hoareE A (catchE m h) B C"
  unfolding hoareE_def catchE_def by (fastforce split: prod.splits sum.splits)

lemma hoareE_liftE_bindE:
  "(\<And>w. A w \<Longrightarrow> C w) \<Longrightarrow> (\<And>a. r = Ok a \<Longrightarrow> hoareE A (k a) B C) \<Longrightarrow> hoareE A (bindE (liftE r) k) B C"
  by (cases r) (auto simp: hoareE_def bindE_def liftE_def)

lemma hoareE_if:
  "(b \<Longrightarrow> hoareE A m B C) \<Longrightarrow> (\<not> b \<Longrightarrow> hoareE A n B C) \<Longrightarrow> hoareE A (if b then m else n) B C"
  by simp

lemma hoareE_conseq:
  "hoareE A' m B' C' \<Longrightarrow> (\<And>w. A w \<Longrightarrow> A' w) \<Longrightarrow> (\<And>a w. B' a w \<Longrightarrow> B a w) \<Longrightarrow> (\<And>w. C' w \<Longrightarrow> C w) \<Longrightarrow>
   hoareE A m B C"
  unfolding hoareE_def by (fastforce split: prod.splits sum.splits)

lemma hoareE_pure: "(\<And>w. A w \<Longrightarrow> P) \<Longrightarrow> (P \<Longrightarrow> hoareE A m B C) \<Longrightarrow> hoareE A m B C"
  unfolding hoareE_def by metis

lemma hoareE_D: "hoareE A m B C \<Longrightarrow> A w \<Longrightarrow> m w = (r, w') \<Longrightarrow> (case r of Err _ \<Rightarrow> C w' | Ok a \<Rightarrow> B a w')"
  by (auto simp: hoareE_def)

lemma bindE_step: "m w = (Ok a, w') \<Longrightarrow> bindE m k w = k a w'"
  by (simp add: bindE_def)

lemma bindE_fail: "m w = (Err e, w') \<Longrightarrow> bindE m k w = (Err e, w')"
  by (simp add: bindE_def)

lemma map_errE_step: "m w = (r, w') \<Longrightarrow> map_errE f m w = (map_err f r, w')"
  by (simp add: map_errE_def)

text \<open>Evaluation rules, for running a program on a concrete world.\<close>

lemmas eff_defs = returnE_def throwE_def liftE_def bindE_def map_errE_def catchE_def

text \<open>How a composed program can succeed.\<close>

lemma eff_Ok_iff:
  "bindE m k w = (Ok b, w'') \<longleftrightarrow> (\<exists>a w'. m w = (Ok a, w') \<and> k a w' = (Ok b, w''))"
  "map_errE f m w = (Ok a, w') \<longleftrightarrow> m w = (Ok a, w')"
  "liftE r w = (Ok a, w') \<longleftrightarrow> r = Ok a \<and> w' = w"
  "returnE c w = (Ok a, w') \<longleftrightarrow> a = c \<and> w' = w"
  "throwE e w = (Ok a, w') \<longleftrightarrow> False"
  by (auto simp: eff_defs split: prod.splits sum.splits)

lemma hoareE_conj_post:
  assumes "hoareE A m B C" and "\<And>w a w'. A w \<Longrightarrow> m w = (Ok a, w') \<Longrightarrow> B' a w'"
  shows "hoareE A m (\<lambda>a w. B a w \<and> B' a w) C"
  using assms unfolding hoareE_def by (fastforce split: prod.splits sum.splits)

subsection \<open>Frames\<close>

text \<open>
  \<open>within R m\<close>: whatever \<open>m\<close> returns, the world it leaves is related to the one it found. For a reflexive and
  transitive \<open>R\<close> this is inherited by composed programs.
\<close>

definition within :: "('w \<Rightarrow> 'w \<Rightarrow> bool) \<Rightarrow> ('w, 'e, 'a) eff \<Rightarrow> bool" where
  "within R m \<longleftrightarrow> (\<forall>w. R w (snd (m w)))"

lemma catchE_Ok_iff:
  "catchE m h w = (Ok a, w') \<longleftrightarrow> m w = (Ok a, w') \<or> (\<exists>e w1. m w = (Err e, w1) \<and> h e w1 = (Ok a, w'))"
  by (auto simp: catchE_def split: prod.splits sum.splits)

lemma withinI: "(\<And>w r w'. m w = (r, w') \<Longrightarrow> R w w') \<Longrightarrow> within R m"
  unfolding within_def by (metis prod.collapse)

lemma withinD: "within R m \<Longrightarrow> m w = (r, w') \<Longrightarrow> R w w'"
  unfolding within_def by (metis snd_conv)

lemma within_snd: "within R m \<Longrightarrow> R w (snd (m w))"
  by (simp add: within_def)

lemma within_map_errE: "within R m \<Longrightarrow> within R (map_errE f m)"
  by (rule withinI) (auto simp: map_errE_def dest: withinD split: prod.splits)

lemma within_if: "(b \<Longrightarrow> within R m) \<Longrightarrow> (\<not> b \<Longrightarrow> within R n) \<Longrightarrow> within R (if b then m else n)"
  by simp

locale frame_relation =
  fixes R :: "'w \<Rightarrow> 'w \<Rightarrow> bool"
  assumes frame_refl: "R w w" and frame_trans: "R u v \<Longrightarrow> R v w \<Longrightarrow> R u w"
begin

lemma within_pure: "within R (returnE a)" "within R (throwE e)" "within R (liftE r)"
  by (simp_all add: within_def eff_defs frame_refl)

lemma within_bindE:
  assumes "within R m" and "\<And>a. within R (k a)"
  shows "within R (bindE m k)"
proof (rule withinI)
  fix w r w'
  assume run: "bindE m k w = (r, w')"
  obtain x w1 where m: "m w = (x, w1)"
    by fastforce
  have w1: "R w w1"
    using withinD [OF assms(1) m] .
  show "R w w'"
  proof (cases x)
    case (Inl e)
    then show ?thesis using run m w1 by (simp add: bindE_def)
  next
    case (Inr a)
    then have "k a w1 = (r, w')"
      using run m by (simp add: bindE_def)
    from withinD [OF assms(2) this] show ?thesis
      using frame_trans w1 by blast
  qed
qed

lemma within_catchE:
  assumes "within R m" and "\<And>e. within R (h e)"
  shows "within R (catchE m h)"
proof (rule withinI)
  fix w r w'
  assume run: "catchE m h w = (r, w')"
  obtain x w1 where m: "m w = (x, w1)"
    by fastforce
  have w1: "R w w1"
    using withinD [OF assms(1) m] .
  show "R w w'"
  proof (cases x)
    case (Inl e)
    then have "h e w1 = (r, w')"
      using run m by (simp add: catchE_def)
    from withinD [OF assms(2) this] show ?thesis
      using frame_trans w1 by blast
  next
    case (Inr a)
    then show ?thesis using run m w1 by (simp add: catchE_def)
  qed
qed

lemmas within_rules = within_bindE within_catchE within_map_errE within_if within_pure

end

end
