(* ===== verification/Process_Lifecycle.thy ===== *)
theory Process_Lifecycle
  imports Prelude
begin

section \<open>Pure process lifecycle policy (\<open>src/src/process_lifecycle.rs\<close>)\<close>

text \<open>
  The policy decides, for one managed workload, the next lifecycle state and the effect to request.
  \<open>decide\<close> and its seven per-state functions are translated case by case. The policy is then read
  as a labelled transition system: \<open>lifecycle_step\<close> is one accepted decision, \<open>lifecycle_reach\<close> the
  states reachable from \<open>Running\<close>. The lemmas show that every reachable state agrees with the
  configured strategy, that each process effect is requested exactly on its own edges, and that a workload
  with demand can always be brought back to \<open>Running\<close>.
\<close>

datatype SuspendStrategy = Freeze | Hibernate

datatype LifecycleState =
    Running
  | Quiescing SuspendStrategy
  | Freezing
  | Frozen
  | Checkpointing
  | Hibernated
  | Resuming SuspendStrategy

record ActivitySnapshot =
  queue_depth :: u64
  in_flight :: u64
  idle_for_ms :: u64

definition has_demand :: "ActivitySnapshot \<Rightarrow> bool" where
  "has_demand a \<longleftrightarrow> queue_depth a > 0 \<or> in_flight a > 0"

definition is_idle_for :: "ActivitySnapshot \<Rightarrow> u64 \<Rightarrow> bool" where
  "is_idle_for a minimum \<longleftrightarrow> \<not> has_demand a \<and> idle_for_ms a \<ge> minimum"

record LifecyclePolicy =
  policy_strategy :: SuspendStrategy
  minimum_idle_ms :: u64

definition MINIMUM_IDLE_MS :: u64 where
  "MINIMUM_IDLE_MS = 1000"

datatype PolicyError = IdleGraceTooShort u64 u64

definition LifecyclePolicy_new :: "SuspendStrategy \<Rightarrow> u64 \<Rightarrow> PolicyError + LifecyclePolicy" where
  "LifecyclePolicy_new strat minimum =
     (if minimum < MINIMUM_IDLE_MS then Err (IdleGraceTooShort minimum MINIMUM_IDLE_MS)
      else Ok \<lparr>policy_strategy = strat, minimum_idle_ms = minimum\<rparr>)"

datatype LifecycleEvent =
    Observe ActivitySnapshot
  | QuiesceSucceeded
  | FreezeSucceeded
  | CheckpointSucceeded
  | ResumeSucceeded

datatype LifecycleAction =
    NoAction
  | BeginQuiesce
  | CancelQuiesce
  | DoFreeze
  | CheckpointAndTerminate
  | Thaw
  | Restore

record LifecycleDecision =
  next_state :: LifecycleState
  action :: LifecycleAction

definition stay :: "LifecycleState \<Rightarrow> LifecycleDecision" where
  "stay s = \<lparr>next_state = s, action = NoAction\<rparr>"

definition transition :: "LifecycleState \<Rightarrow> LifecycleAction \<Rightarrow> LifecycleDecision" where
  "transition s a = \<lparr>next_state = s, action = a\<rparr>"

datatype InvalidTransition = InvalidTransition LifecycleState LifecycleEvent

type_synonym decision_result = "InvalidTransition + LifecycleDecision"

fun decide_running :: "LifecyclePolicy \<Rightarrow> LifecycleEvent \<Rightarrow> decision_result" where
  "decide_running p (Observe a) =
     (if is_idle_for a (minimum_idle_ms p)
      then Ok (transition (Quiescing (policy_strategy p)) BeginQuiesce)
      else Ok (stay Running))"
| "decide_running p e = Err (InvalidTransition Running e)"

fun decide_quiescing :: "SuspendStrategy \<Rightarrow> LifecycleEvent \<Rightarrow> decision_result" where
  "decide_quiescing st (Observe a) =
     (if has_demand a then Ok (transition Running CancelQuiesce) else Ok (stay (Quiescing st)))"
| "decide_quiescing st QuiesceSucceeded =
     (case st of
        Freeze \<Rightarrow> Ok (transition Freezing DoFreeze)
      | Hibernate \<Rightarrow> Ok (transition Checkpointing CheckpointAndTerminate))"
| "decide_quiescing st e = Err (InvalidTransition (Quiescing st) e)"

fun decide_freezing :: "LifecycleEvent \<Rightarrow> decision_result" where
  "decide_freezing FreezeSucceeded = Ok (stay Frozen)"
| "decide_freezing e = Err (InvalidTransition Freezing e)"

fun decide_frozen :: "LifecycleEvent \<Rightarrow> decision_result" where
  "decide_frozen (Observe a) =
     (if has_demand a then Ok (transition (Resuming Freeze) Thaw) else Ok (stay Frozen))"
| "decide_frozen e = Err (InvalidTransition Frozen e)"

fun decide_checkpointing :: "LifecycleEvent \<Rightarrow> decision_result" where
  "decide_checkpointing CheckpointSucceeded = Ok (stay Hibernated)"
| "decide_checkpointing e = Err (InvalidTransition Checkpointing e)"

fun decide_hibernated :: "LifecycleEvent \<Rightarrow> decision_result" where
  "decide_hibernated (Observe a) =
     (if has_demand a then Ok (transition (Resuming Hibernate) Restore) else Ok (stay Hibernated))"
| "decide_hibernated e = Err (InvalidTransition Hibernated e)"

fun decide_resuming :: "SuspendStrategy \<Rightarrow> LifecycleEvent \<Rightarrow> decision_result" where
  "decide_resuming st ResumeSucceeded = Ok (stay Running)"
| "decide_resuming st e = Err (InvalidTransition (Resuming st) e)"

fun decide :: "LifecycleState \<Rightarrow> LifecyclePolicy \<Rightarrow> LifecycleEvent \<Rightarrow> decision_result" where
  "decide Running p e = decide_running p e"
| "decide (Quiescing st) p e = decide_quiescing st e"
| "decide Freezing p e = decide_freezing e"
| "decide Frozen p e = decide_frozen e"
| "decide Checkpointing p e = decide_checkpointing e"
| "decide Hibernated p e = decide_hibernated e"
| "decide (Resuming st) p e = decide_resuming st e"

lemmas decision_defs = stay_def transition_def

subsection \<open>The policy as a transition system\<close>

inductive lifecycle_step ::
  "LifecyclePolicy \<Rightarrow> LifecycleState \<Rightarrow> LifecycleEvent \<Rightarrow> LifecycleAction \<Rightarrow> LifecycleState \<Rightarrow> bool"
  for p where
  accepted: "decide s p e = Ok d \<Longrightarrow> lifecycle_step p s e (action d) (next_state d)"

inductive_cases lifecycle_stepE [elim]: "lifecycle_step p s e a t"

lemma lifecycle_step_iff:
  "lifecycle_step p s e a t \<longleftrightarrow> decide s p e = Ok (transition t a)"
  by (auto simp: transition_def intro: accepted [where d = "transition t a", unfolded transition_def, simplified])

inductive lifecycle_reach :: "LifecyclePolicy \<Rightarrow> LifecycleState \<Rightarrow> bool" for p where
  reach_start: "lifecycle_reach p Running"
| reach_step: "lifecycle_reach p s \<Longrightarrow> lifecycle_step p s e a t \<Longrightarrow> lifecycle_reach p t"

text \<open>What every reachable state says about the strategy of the workload.\<close>

fun state_strategy_ok :: "SuspendStrategy \<Rightarrow> LifecycleState \<Rightarrow> bool" where
  "state_strategy_ok st Running = True"
| "state_strategy_ok st (Quiescing st') = (st' = st)"
| "state_strategy_ok st Freezing = (st = Freeze)"
| "state_strategy_ok st Frozen = (st = Freeze)"
| "state_strategy_ok st Checkpointing = (st = Hibernate)"
| "state_strategy_ok st Hibernated = (st = Hibernate)"
| "state_strategy_ok st (Resuming st') = (st' = st)"

lemma decide_strategy_ok:
  assumes "decide s p e = Ok d" and "state_strategy_ok (policy_strategy p) s"
  shows "state_strategy_ok (policy_strategy p) (next_state d)"
  using assms
  by (cases s; cases e) (auto simp: decision_defs split: if_splits SuspendStrategy.splits)

lemma reach_strategy_ok: "lifecycle_reach p s \<Longrightarrow> state_strategy_ok (policy_strategy p) s"
proof (induction rule: lifecycle_reach.induct)
  case reach_start
  show ?case by simp
next
  case (reach_step s e a t)
  then show ?case by (auto dest: decide_strategy_ok)
qed

text \<open>
  The edges of the policy, by the action that belongs to each: with which event a state is left for which other one
  when the action is requested, and where nothing is requested.
\<close>

fun effect_edge :: "LifecyclePolicy \<Rightarrow> LifecycleState \<Rightarrow> LifecycleEvent \<Rightarrow> LifecycleAction \<Rightarrow> LifecycleState \<Rightarrow> bool" where
  "effect_edge p s e BeginQuiesce t \<longleftrightarrow>
     s = Running \<and> t = Quiescing (policy_strategy p) \<and> (\<exists>x. e = Observe x \<and> is_idle_for x (minimum_idle_ms p))"
| "effect_edge p s e CancelQuiesce t \<longleftrightarrow> t = Running \<and> (\<exists>x st. e = Observe x \<and> has_demand x \<and> s = Quiescing st)"
| "effect_edge p s e DoFreeze t \<longleftrightarrow> s = Quiescing Freeze \<and> e = QuiesceSucceeded \<and> t = Freezing"
| "effect_edge p s e CheckpointAndTerminate t \<longleftrightarrow> s = Quiescing Hibernate \<and> e = QuiesceSucceeded \<and> t = Checkpointing"
| "effect_edge p s e Thaw t \<longleftrightarrow> s = Frozen \<and> t = Resuming Freeze \<and> (\<exists>x. e = Observe x \<and> has_demand x)"
| "effect_edge p s e Restore t \<longleftrightarrow> s = Hibernated \<and> t = Resuming Hibernate \<and> (\<exists>x. e = Observe x \<and> has_demand x)"
| "effect_edge p s e NoAction t \<longleftrightarrow>
     (s, e, t) \<in> {(Freezing, FreezeSucceeded, Frozen), (Checkpointing, CheckpointSucceeded, Hibernated),
       (Resuming Freeze, ResumeSucceeded, Running), (Resuming Hibernate, ResumeSucceeded, Running)}
     \<or> t = s \<and> (\<exists>x. e = Observe x
          \<and> (s = Running \<and> \<not> is_idle_for x (minimum_idle_ms p)
              \<or> s \<in> {Quiescing Freeze, Quiescing Hibernate, Frozen, Hibernated} \<and> \<not> has_demand x))"

lemma decide_effect_edge: "decide s p e = Ok d \<Longrightarrow> effect_edge p s e (action d) (next_state d)"
proof (cases s)
  case (Quiescing st)
  then show "decide s p e = Ok d \<Longrightarrow> effect_edge p s e (action d) (next_state d)"
    by (cases st; cases e) (auto simp: decision_defs split: if_splits)
next
  case (Resuming st)
  then show "decide s p e = Ok d \<Longrightarrow> effect_edge p s e (action d) (next_state d)"
    by (cases st; cases e) (auto simp: decision_defs)
qed (cases e; auto simp: decision_defs split: if_splits)+

lemma effect_edge_decide: "effect_edge p s e a t \<Longrightarrow> decide s p e = Ok (transition t a)"
  by (cases a) (auto simp: decision_defs)

text \<open>An action is requested on its own edges, on all of them, and with the state that the edge leads to.\<close>

lemma decide_iff_edge: "decide s p e = Ok \<lparr>next_state = t, action = a\<rparr> \<longleftrightarrow> effect_edge p s e a t"
  using decide_effect_edge [of s p e "\<lparr>next_state = t, action = a\<rparr>"] effect_edge_decide [of p s e a t]
  by (auto simp: transition_def)

text \<open>
  The acknowledgement that brings a transitional state to rest, and the events that bring any
  state back to \<open>Running\<close> once there is demand.
\<close>

fun wake_script :: "ActivitySnapshot \<Rightarrow> LifecycleState \<Rightarrow> LifecycleEvent list" where
  "wake_script a Running = []"
| "wake_script a (Quiescing st) = [Observe a]"
| "wake_script a Freezing = [FreezeSucceeded, Observe a, ResumeSucceeded]"
| "wake_script a Frozen = [Observe a, ResumeSucceeded]"
| "wake_script a Checkpointing = [CheckpointSucceeded, Observe a, ResumeSucceeded]"
| "wake_script a Hibernated = [Observe a, ResumeSucceeded]"
| "wake_script a (Resuming st) = [ResumeSucceeded]"

text \<open>Feeding a list of events to the policy; an invalid one stops the run.\<close>

fun run_events :: "LifecyclePolicy \<Rightarrow> LifecycleState \<Rightarrow> LifecycleEvent list \<Rightarrow> InvalidTransition + LifecycleState" where
  "run_events p s [] = Ok s"
| "run_events p s (e # es) = bindR (decide s p e) (\<lambda>d. run_events p (next_state d) es)"

lemma wake_script_reaches_running:
  assumes "has_demand a"
  shows "run_events p s (wake_script a s) = Ok Running"
  using assms by (cases s) (auto simp: decision_defs)

lemma wake_script_short: "length (wake_script a s) \<le> 3"
  by (cases s) auto

lemma run_events_reach:
  "lifecycle_reach p s \<Longrightarrow> run_events p s es = Ok t \<Longrightarrow> lifecycle_reach p t"
proof (induction es arbitrary: s)
  case (Cons e es)
  then obtain d where d: "decide s p e = Ok d" and t: "run_events p (next_state d) es = Ok t"
    by (auto simp: bindR_Ok_iff)
  from Cons.prems(1) accepted [OF d] have "lifecycle_reach p (next_state d)"
    by (rule reach_step)
  then show ?case using t by (rule Cons.IH)
qed simp

lemma LifecyclePolicy_new_Ok_iff:
  "LifecyclePolicy_new st m = Ok p \<longleftrightarrow>
     MINIMUM_IDLE_MS \<le> m \<and> p = \<lparr>policy_strategy = st, minimum_idle_ms = m\<rparr>"
  by (auto simp: LifecyclePolicy_new_def not_less)

subsection \<open>Properties\<close>

text \<open>
  C27: the reachable states of the policy agree with the configured strategy, and effects are requested exactly on
  their edges. In a run that starts in \<open>Running\<close> under a policy, a freeze-strategy workload is never
  checkpointing, hibernated or resuming by restore, and a hibernate-strategy workload is never freezing or frozen; a
  pending quiesce or resume carries the configured strategy. In the state that is reached, an event is answered by a
  next state and an action exactly when \<open>effect_edge\<close> has that edge: quiesce is begun by an observation that is idle
  for the configured time, canceled by demand, freezing or checkpointing follows the finished quiesce of its strategy,
  demand thaws a frozen and restores a hibernated workload, and the acknowledgements request nothing.
\<close>

theorem policy_run_respects_strategy:
  assumes "run_events p Running es = Ok s"
  shows "state_strategy_ok (policy_strategy p) s
    \<and> (decide s p e = Ok \<lparr>next_state = t, action = a\<rparr> \<longleftrightarrow> effect_edge p s e a t)
    \<and> (effect_edge p s e a t \<longrightarrow> state_strategy_ok (policy_strategy p) t)"
proof -
  have ok: "state_strategy_ok (policy_strategy p) s"
    using run_events_reach [OF reach_start assms] by (rule reach_strategy_ok)
  moreover have "state_strategy_ok (policy_strategy p) t" if "effect_edge p s e a t"
    using decide_strategy_ok [OF effect_edge_decide [OF that] ok] by (simp add: transition_def)
  ultimately show ?thesis
    using decide_iff_edge by blast
qed

theorem policy_run_respects_strategy_witness:
  "let p = \<lparr>policy_strategy = Freeze, minimum_idle_ms = 1000\<rparr>;
       idle = \<lparr>queue_depth = 0, in_flight = 0, idle_for_ms = 5000\<rparr>
   in run_events p Running [Observe idle, QuiesceSucceeded, FreezeSucceeded] = Ok Frozen
      \<and> state_strategy_ok (policy_strategy p) Frozen
      \<and> effect_edge p Frozen (Observe \<lparr>queue_depth = 1, in_flight = 0, idle_for_ms = 0\<rparr>) Thaw (Resuming Freeze)"
proof -
  define p where "p = \<lparr>policy_strategy = Freeze, minimum_idle_ms = (1000 :: u64)\<rparr>"
  define idle where "idle = \<lparr>queue_depth = (0 :: u64), in_flight = 0, idle_for_ms = 5000\<rparr>"
  have run: "run_events p Running [Observe idle, QuiesceSucceeded, FreezeSucceeded] = Ok Frozen"
    by (simp add: p_def idle_def decision_defs is_idle_for_def has_demand_def)
  have edge: "effect_edge p Frozen (Observe \<lparr>queue_depth = 1, in_flight = 0, idle_for_ms = 0\<rparr>) Thaw (Resuming Freeze)"
    by (simp add: has_demand_def)
  from run edge policy_run_respects_strategy [OF run] show ?thesis
    by (simp add: p_def idle_def)
qed

text \<open>
  liveness of the policy. Whatever state a workload is in, once there is demand at most three
  events (the acknowledgement of a pending effect, an observation of the demand, the
  acknowledgement of the resume) bring it back to \<open>Running\<close>; no state is a trap.
\<close>

theorem demand_brings_back_running:
  assumes "has_demand a"
  shows "\<exists>es. length es \<le> 3 \<and> run_events p s es = Ok Running"
  using wake_script_reaches_running [OF assms] wake_script_short by blast

theorem demand_brings_back_running_witness:
  "has_demand \<lparr>queue_depth = 1, in_flight = 0, idle_for_ms = 0\<rparr>
   \<and> (\<exists>es. length es \<le> 3 \<and>
        run_events \<lparr>policy_strategy = Hibernate, minimum_idle_ms = 1000\<rparr> Checkpointing es = Ok Running)"
proof -
  have h: "has_demand \<lparr>queue_depth = 1, in_flight = 0, idle_for_ms = 0\<rparr>"
    by (simp add: has_demand_def)
  from h demand_brings_back_running [OF h] show ?thesis by blast
qed

end
