(* ===== verification/Rust_Str.thy ===== *)
theory Rust_Str
  imports Prelude "HOL-Library.Sublist"
begin

section \<open>Rust strings and bytes\<close>

text \<open>
  A Rust \<open>String\<close> or \<open>&str\<close> is its UTF-8 byte sequence, an Isabelle \<open>string\<close>: \<open>len()\<close> is \<open>length\<close>, and
  \<open>bytes()\<close> is the list itself. This theory defines the operations of the standard library that
  the sidecar uses, on bytes. Operations that Rust defines on code points (\<open>trim\<close>,
  \<open>split_whitespace\<close>, \<open>char::is_control\<close>) are stated through the UTF-8 encodings of the code points
  concerned; such an encoding starts with a lead byte, so on well-formed UTF-8 a match at a byte
  position is a match of the whole character.
\<close>

subsection \<open>Byte classes\<close>

definition byte_in :: "nat \<Rightarrow> nat \<Rightarrow> char \<Rightarrow> bool" where
  "byte_in lo hi c \<longleftrightarrow> lo \<le> of_char c \<and> of_char c \<le> hi"

definition is_ascii_digit :: "char \<Rightarrow> bool" where
  "is_ascii_digit = byte_in 48 57"

definition is_ascii_uppercase :: "char \<Rightarrow> bool" where
  "is_ascii_uppercase = byte_in 65 90"

definition is_ascii_lowercase :: "char \<Rightarrow> bool" where
  "is_ascii_lowercase = byte_in 97 122"

definition is_ascii_alphanumeric :: "char \<Rightarrow> bool" where
  "is_ascii_alphanumeric c \<longleftrightarrow> is_ascii_digit c \<or> is_ascii_uppercase c \<or> is_ascii_lowercase c"

definition is_ascii_hexdigit :: "char \<Rightarrow> bool" where
  "is_ascii_hexdigit c \<longleftrightarrow> is_ascii_digit c \<or> byte_in 65 70 c \<or> byte_in 97 102 c"

definition is_ascii_graphic :: "char \<Rightarrow> bool" where
  "is_ascii_graphic = byte_in 33 126"

text \<open>\<open>u8::is_ascii_whitespace\<close>: space, tab, line feed, form feed, carriage return.\<close>

definition is_ascii_whitespace :: "char \<Rightarrow> bool" where
  "is_ascii_whitespace c \<longleftrightarrow> c \<in> {CHR 0x20, CHR 0x09, CHR 0x0A, CHR 0x0C, CHR 0x0D}"

definition to_ascii_lowercase :: "string \<Rightarrow> string" where
  "to_ascii_lowercase = map (\<lambda>c. if is_ascii_uppercase c then char_of (of_char c + 32 :: nat) else c)"

text \<open>
  \<open>s.chars().any(char::is_control)\<close>: U+0000--U+001F and U+007F are one byte, U+0080--U+009F are encoded
  as the byte \<open>0xC2\<close> followed by a byte in \<open>0x80..0x9F\<close>.
\<close>

fun any_control :: "string \<Rightarrow> bool" where
  "any_control [] = False"
| "any_control (c # cs) =
     (byte_in 0 31 c \<or> c = CHR 0x7F
      \<or> (c = CHR 0xC2 \<and> (case cs of [] \<Rightarrow> False | d # _ \<Rightarrow> byte_in 128 159 d))
      \<or> any_control cs)"

subsection \<open>Well-formed UTF-8\<close>

text \<open>
  \<open>std::str::from_utf8(..).is_ok()\<close>. The lead byte of a character determines the ranges of the bytes
  that follow it; the first argument of \<open>utf8_from\<close> holds the ranges still expected.
\<close>

definition utf8_lead :: "char \<Rightarrow> (nat \<times> nat) list option" where
  "utf8_lead c =
     (let n = of_char c :: nat; cont = (0x80, 0xBF) in
      if n < 0x80 then Some []
      else if 0xC2 \<le> n \<and> n \<le> 0xDF then Some [cont]
      else if n = 0xE0 then Some [(0xA0, 0xBF), cont]
      else if n = 0xED then Some [(0x80, 0x9F), cont]
      else if 0xE1 \<le> n \<and> n \<le> 0xEF then Some [cont, cont]
      else if n = 0xF0 then Some [(0x90, 0xBF), cont, cont]
      else if 0xF1 \<le> n \<and> n \<le> 0xF3 then Some [cont, cont, cont]
      else if n = 0xF4 then Some [(0x80, 0x8F), cont, cont]
      else None)"

fun utf8_from :: "(nat \<times> nat) list \<Rightarrow> string \<Rightarrow> bool" where
  "utf8_from [] [] = True"
| "utf8_from (r # rs) [] = False"
| "utf8_from ((lo, hi) # rs) (c # cs) = (byte_in lo hi c \<and> utf8_from rs cs)"
| "utf8_from [] (c # cs) = (case utf8_lead c of None \<Rightarrow> False | Some rs \<Rightarrow> utf8_from rs cs)"

definition valid_utf8 :: "string \<Rightarrow> bool" where
  "valid_utf8 = utf8_from []"

lemma valid_utf8_ascii: "\<forall>c\<in>set s. (of_char c :: nat) < 128 \<Longrightarrow> valid_utf8 s"
  unfolding valid_utf8_def by (induction s) (auto simp: utf8_lead_def Let_def)

subsection \<open>Prefixes, suffixes, substrings\<close>

definition starts_with :: "string \<Rightarrow> string \<Rightarrow> bool" where
  "starts_with p s \<longleftrightarrow> take (length p) s = p"

definition ends_with :: "string \<Rightarrow> string \<Rightarrow> bool" where
  "ends_with p s \<longleftrightarrow> length p \<le> length s \<and> drop (length s - length p) s = p"

definition strip_prefix :: "string \<Rightarrow> string \<Rightarrow> string option" where
  "strip_prefix p s = (if starts_with p s then Some (drop (length p) s) else None)"

fun contains_str :: "string \<Rightarrow> string \<Rightarrow> bool" where
  "contains_str p [] = (p = [])"
| "contains_str p (c # cs) = (starts_with p (c # cs) \<or> contains_str p cs)"

lemma starts_with_append [simp]: "starts_with p (p @ s)"
  by (simp add: starts_with_def)

lemma starts_with_iff: "starts_with p s \<longleftrightarrow> (\<exists>r. s = p @ r)"
  by (metis append_take_drop_id starts_with_append starts_with_def)

lemma ends_with_append [simp]: "ends_with p (s @ p)"
  by (simp add: ends_with_def)

lemma ends_with_iff: "ends_with p s \<longleftrightarrow> (\<exists>r. s = r @ p)"
  by (metis append_take_drop_id ends_with_append ends_with_def)

lemma strip_prefix_Some_iff: "strip_prefix p s = Some r \<longleftrightarrow> s = p @ r"
  by (auto simp: strip_prefix_def starts_with_iff)

subsection \<open>Trimming\<close>

text \<open>The UTF-8 encodings of the code points with the Unicode property \<open>White_Space\<close>.\<close>

definition white_space :: "string list" where
  "white_space =
     [[CHR 0x09], [CHR 0x0A], [CHR 0x0B], [CHR 0x0C], [CHR 0x0D], [CHR 0x20],
      [CHR 0xC2, CHR 0x85], [CHR 0xC2, CHR 0xA0],
      [CHR 0xE1, CHR 0x9A, CHR 0x80],
      [CHR 0xE2, CHR 0x80, CHR 0x80], [CHR 0xE2, CHR 0x80, CHR 0x81], [CHR 0xE2, CHR 0x80, CHR 0x82],
      [CHR 0xE2, CHR 0x80, CHR 0x83], [CHR 0xE2, CHR 0x80, CHR 0x84], [CHR 0xE2, CHR 0x80, CHR 0x85],
      [CHR 0xE2, CHR 0x80, CHR 0x86], [CHR 0xE2, CHR 0x80, CHR 0x87], [CHR 0xE2, CHR 0x80, CHR 0x88],
      [CHR 0xE2, CHR 0x80, CHR 0x89], [CHR 0xE2, CHR 0x80, CHR 0x8A], [CHR 0xE2, CHR 0x80, CHR 0xA8],
      [CHR 0xE2, CHR 0x80, CHR 0xA9], [CHR 0xE2, CHR 0x80, CHR 0xAF],
      [CHR 0xE2, CHR 0x81, CHR 0x9F], [CHR 0xE3, CHR 0x80, CHR 0x80]]"

definition lead_match :: "string list \<Rightarrow> string \<Rightarrow> nat" where
  "lead_match ws s = (case find (\<lambda>w. starts_with w s) ws of None \<Rightarrow> 0 | Some w \<Rightarrow> length w)"

function drop_leading :: "string list \<Rightarrow> string \<Rightarrow> string" where
  "drop_leading ws s =
     (if s = [] \<or> lead_match ws s = 0 then s else drop_leading ws (drop (lead_match ws s) s))"
  by pat_completeness auto
termination
  by (relation "measure (\<lambda>(ws, s). length s)") auto

declare drop_leading.simps [simp del]

definition trim_start :: "string \<Rightarrow> string" where
  "trim_start = drop_leading white_space"

definition trim_end :: "string \<Rightarrow> string" where
  "trim_end s = rev (drop_leading (map rev white_space) (rev s))"

definition trim :: "string \<Rightarrow> string" where
  "trim s = trim_end (trim_start s)"

text \<open>\<open>s.trim_end_matches(set)\<close> for a set of single bytes.\<close>

definition trim_end_matches :: "(char \<Rightarrow> bool) \<Rightarrow> string \<Rightarrow> string" where
  "trim_end_matches p s = rev (dropWhile p (rev s))"

lemma drop_leading_suffix: "\<exists>pre. s = pre @ drop_leading ws s"
proof (induction ws s rule: drop_leading.induct)
  case (1 ws s)
  show ?case
  proof (cases "s = [] \<or> lead_match ws s = 0")
    case True
    then show ?thesis by (simp add: drop_leading.simps [of ws s])
  next
    case False
    with 1 obtain pre where "drop (lead_match ws s) s = pre @ drop_leading ws (drop (lead_match ws s) s)"
      by blast
    then have "s = (take (lead_match ws s) s @ pre) @ drop_leading ws (drop (lead_match ws s) s)"
      by (metis append.assoc append_take_drop_id)
    with False show ?thesis
      by (metis drop_leading.simps)
  qed
qed

lemma drop_leading_stops: "s' = drop_leading ws s \<Longrightarrow> s' = [] \<or> lead_match ws s' = 0"
proof (induction ws s rule: drop_leading.induct)
  case (1 ws s)
  then show ?case
    using drop_leading.simps [of ws s] by (cases "s = [] \<or> lead_match ws s = 0") auto
qed

lemma drop_leading_idem: "drop_leading ws (drop_leading ws s) = drop_leading ws s"
proof -
  have "drop_leading ws s = [] \<or> lead_match ws (drop_leading ws s) = 0"
    using drop_leading_stops [OF refl] by simp
  then show ?thesis
    using drop_leading.simps [of ws "drop_leading ws s"] by auto
qed

lemma length_drop_leading: "length (drop_leading ws s) \<le> length s"
  using drop_leading_suffix [of s ws] by (metis length_append le_add2)

lemma length_trim: "length (trim s) \<le> length s"
  by (metis length_drop_leading length_rev order_trans trim_def trim_end_def trim_start_def)

lemma set_trim: "set (trim s) \<subseteq> set s"
proof -
  have sub: "set (drop_leading ws t) \<subseteq> set t" for ws t
    using drop_leading_suffix [of t ws] by (metis Un_upper2 set_append)
  show ?thesis
    using sub [of "map rev white_space" "rev (trim_start s)"] sub [of white_space s]
    by (auto simp: trim_def trim_end_def trim_start_def)
qed

subsection \<open>Splitting\<close>

text \<open>\<open>s.split(c)\<close> for a one-byte separator: always at least one part.\<close>

fun split_byte :: "char \<Rightarrow> string \<Rightarrow> string list" where
  "split_byte d [] = [[]]"
| "split_byte d (c # cs) =
     (if c = d then [] # split_byte d cs
      else (case split_byte d cs of [] \<Rightarrow> [[c]] | p # ps \<Rightarrow> (c # p) # ps))"

text \<open>\<open>s.split_once(c)\<close>.\<close>

fun split_once :: "char \<Rightarrow> string \<Rightarrow> (string \<times> string) option" where
  "split_once d [] = None"
| "split_once d (c # cs) =
     (if c = d then Some ([], cs)
      else map_option (\<lambda>(a, b). (c # a, b)) (split_once d cs))"

text \<open>\<open>s.lines()\<close>: pieces ended by a line feed lose it and a carriage return before it; a last piece
  without a line feed is kept as it is, and an empty one is no line.\<close>

definition strip_cr :: "string \<Rightarrow> string" where
  "strip_cr l = (if l \<noteq> [] \<and> last l = CHR 0x0D then butlast l else l)"

fun lines_from :: "string \<Rightarrow> string \<Rightarrow> string list" where
  "lines_from acc [] = (if acc = [] then [] else [rev acc])"
| "lines_from acc (c # cs) =
     (if c = CHR 0x0A then strip_cr (rev acc) # lines_from [] cs else lines_from (c # acc) cs)"

definition lines :: "string \<Rightarrow> string list" where
  "lines s = lines_from [] s"

text \<open>\<open>s.split_ascii_whitespace()\<close> and \<open>s.split_whitespace()\<close>: the non-empty pieces between separators.\<close>

fun words_from :: "(char \<Rightarrow> bool) \<Rightarrow> string \<Rightarrow> string \<Rightarrow> string list" where
  "words_from p acc [] = (if acc = [] then [] else [rev acc])"
| "words_from p acc (c # cs) =
     (if p c then (if acc = [] then words_from p [] cs else rev acc # words_from p [] cs)
      else words_from p (c # acc) cs)"

definition split_ascii_whitespace :: "string \<Rightarrow> string list" where
  "split_ascii_whitespace s = words_from is_ascii_whitespace [] s"

function uwords_from :: "string \<Rightarrow> string \<Rightarrow> string list" where
  "uwords_from acc s =
     (if s = [] then (if acc = [] then [] else [rev acc])
      else if lead_match white_space s = 0 then uwords_from (hd s # acc) (tl s)
      else if acc = [] then uwords_from [] (drop (lead_match white_space s) s)
      else rev acc # uwords_from [] (drop (lead_match white_space s) s))"
  by pat_completeness auto
termination
  by (relation "measure (\<lambda>(acc, s). length s)") auto

declare uwords_from.simps [simp del]

definition split_whitespace :: "string \<Rightarrow> string list" where
  "split_whitespace s = uwords_from [] s"

lemma split_byte_nonempty [simp]: "split_byte d s \<noteq> []"
  by (induction s) (auto split: list.splits)

lemma split_byte_no_sep: "p \<in> set (split_byte d s) \<Longrightarrow> d \<notin> set p"
  by (induction s arbitrary: p) (auto split: list.splits if_splits)

text \<open>Joining the parts with the separator gives the string back.\<close>

fun join_byte :: "char \<Rightarrow> string list \<Rightarrow> string" where
  "join_byte d [] = []"
| "join_byte d [p] = p"
| "join_byte d (p # q # ps) = p @ d # join_byte d (q # ps)"

lemma join_split_byte: "join_byte d (split_byte d s) = s"
proof (induction s)
  case (Cons c cs)
  obtain p ps where "split_byte d cs = p # ps"
    by (metis split_byte_nonempty neq_Nil_conv)
  with Cons show ?case by (cases ps) auto
qed simp

lemma split_byte_append_sep: "d \<notin> set p \<Longrightarrow> split_byte d (p @ d # s) = p # split_byte d s"
  by (induction p) auto

lemma split_byte_no_occurrence: "d \<notin> set p \<Longrightarrow> split_byte d p = [p]"
  by (induction p) auto

lemma split_join_byte: "ps \<noteq> [] \<Longrightarrow> (\<And>p. p \<in> set ps \<Longrightarrow> d \<notin> set p) \<Longrightarrow> split_byte d (join_byte d ps) = ps"
  by (induction d ps rule: join_byte.induct) (auto simp: split_byte_append_sep split_byte_no_occurrence)

lemma split_once_Some_iff: "split_once d s = Some (a, b) \<longleftrightarrow> s = a @ d # b \<and> d \<notin> set a"
  by (induction s arbitrary: a b) (auto simp: Cons_eq_append_conv)

lemma split_once_None_iff: "split_once d s = None \<longleftrightarrow> d \<notin> set s"
  by (induction s) auto

subsection \<open>Words of graphic ASCII\<close>

lemma is_ascii_digit_graphic: "is_ascii_digit c \<Longrightarrow> is_ascii_graphic c"
  by (auto simp: is_ascii_digit_def is_ascii_graphic_def byte_in_def)

lemma graphic_no_white_space:
  assumes "is_ascii_graphic c"
  shows "lead_match white_space (c # s) = 0" "lead_match (map rev white_space) (c # s) = 0"
proof -
  have ne: "c \<noteq> CHR 0x09" "c \<noteq> CHR 0x0A" "c \<noteq> CHR 0x0B" "c \<noteq> CHR 0x0C" "c \<noteq> CHR 0x0D" "c \<noteq> CHR 0x20"
    "c \<noteq> CHR 0xC2" "c \<noteq> CHR 0xE1" "c \<noteq> CHR 0xE2" "c \<noteq> CHR 0xE3" "\<not> (of_char c :: nat) \<ge> 128"
    using assms by (auto simp: is_ascii_graphic_def byte_in_def)
  show "lead_match white_space (c # s) = 0"
    using ne by (simp add: lead_match_def white_space_def starts_with_def)
  have "w \<in> set (map rev white_space) \<Longrightarrow> \<not> starts_with w (c # s)" for w
    using ne by (auto simp: white_space_def starts_with_def)
  then have "find (\<lambda>w. starts_with w (c # s)) (map rev white_space) = None"
    by (auto simp: find_None_iff)
  then show "lead_match (map rev white_space) (c # s) = 0"
    by (simp add: lead_match_def)
qed

lemma space_lead_match [simp]:
  "lead_match white_space (CHR 0x20 # s) = 1" "lead_match (map rev white_space) (CHR 0x20 # s) = 1"
  "lead_match white_space (CHR 0x0A # s) = 1"
  by (simp_all add: lead_match_def white_space_def starts_with_def)

lemma uwords_from_graphic:
  "list_all is_ascii_graphic v \<Longrightarrow> uwords_from acc (v @ s) = uwords_from (rev v @ acc) s"
proof (induction v arbitrary: acc)
  case (Cons c v)
  then show ?case
    using graphic_no_white_space(1) [of c "v @ s"] by (subst uwords_from.simps) simp
qed simp

lemma split_whitespace_words:
  assumes "\<And>v. v \<in> set ws \<Longrightarrow> v \<noteq> [] \<and> list_all is_ascii_graphic v"
  shows "split_whitespace (concat (map ((#) (CHR 0x20)) ws) @ [CHR 0x0A]) = ws"
proof -
  have nl: "uwords_from acc [CHR 0x0A] = (if acc = [] then [] else [rev acc])" for acc
    by (simp add: uwords_from.simps [of acc "[CHR 0x0A]"] uwords_from.simps [of "[]" "[]"])
  have "uwords_from acc (concat (map ((#) (CHR 0x20)) ws) @ [CHR 0x0A]) = (if acc = [] then ws else rev acc # ws)" for acc
    using assms
  proof (induction ws arbitrary: acc)
    case Nil
    then show ?case using nl by simp
  next
    case (Cons v ws)
    have v: "v \<noteq> []" "list_all is_ascii_graphic v"
      using Cons.prems by auto
    have "uwords_from [] (v @ concat (map ((#) (CHR 0x20)) ws) @ [CHR 0x0A]) = v # ws"
      using uwords_from_graphic [OF v(2), of "[]"] Cons.IH [of "rev v"] Cons.prems v(1) by auto
    then show ?case
      by (subst uwords_from.simps) simp
  qed
  then show ?thesis
    by (simp add: split_whitespace_def)
qed

lemma trim_word_space:
  assumes "v \<noteq> []" and "list_all is_ascii_graphic v"
  shows "trim (v @ [CHR 0x20]) = v"
proof -
  obtain c v' where c: "v = c # v'" "is_ascii_graphic c"
    using assms by (cases v) auto
  obtain d u where d: "rev v = d # u" "is_ascii_graphic d"
  proof -
    have "rev v \<noteq> []" "list_all is_ascii_graphic (rev v)"
      using assms by (auto simp: list_all_iff)
    then show ?thesis
      using that by (cases "rev v") auto
  qed
  have "trim_start (v @ [CHR 0x20]) = v @ [CHR 0x20]"
    using c graphic_no_white_space(1) [OF c(2)] by (simp add: trim_start_def drop_leading.simps)
  moreover have "trim_end (v @ [CHR 0x20]) = v"
  proof -
    have "drop_leading (map rev white_space) (CHR 0x20 # rev v) = drop_leading (map rev white_space) (rev v)"
      by (subst drop_leading.simps) simp
    also have "\<dots> = rev v"
      using d graphic_no_white_space(2) [OF d(2)] by (simp add: drop_leading.simps)
    finally show ?thesis
      by (simp add: trim_end_def)
  qed
  ultimately show ?thesis
    by (simp add: trim_def)
qed

lemma trim_word:
  assumes "list_all is_ascii_graphic v"
  shows "trim v = v"
proof (cases v)
  case Nil
  then show ?thesis by (simp add: trim_def trim_start_def trim_end_def drop_leading.simps)
next
  case (Cons c v')
  have "v \<noteq> []"
    using Cons by simp
  then obtain d u where d: "rev v = d # u" "is_ascii_graphic d"
    using assms by (cases v rule: rev_cases) auto
  have "trim_start v = v"
    using Cons assms graphic_no_white_space(1) [of c] by (simp add: trim_start_def drop_leading.simps)
  moreover have "drop_leading (map rev white_space) (rev v) = rev v"
    using d graphic_no_white_space(2) [OF d(2)] by (simp add: drop_leading.simps)
  then have "trim_end v = v"
    by (simp add: trim_end_def)
  ultimately show ?thesis
    by (simp add: trim_def)
qed

lemma lead_match_prefix: "lead_match ws s = 0 \<or> (\<exists>w\<in>set ws. take (lead_match ws s) s = w)"
  by (auto simp: lead_match_def starts_with_def find_Some_iff split: option.splits)

lemma drop_leading_keeps:
  assumes "c \<in> set s" and "\<And>w. w \<in> set ws \<Longrightarrow> c \<notin> set w"
  shows "c \<in> set (drop_leading ws s)"
  using assms
proof (induction ws s rule: drop_leading.induct)
  case (1 ws s)
  show ?case
  proof (cases "s = [] \<or> lead_match ws s = 0")
    case False
    then have "c \<notin> set (take (lead_match ws s) s)"
      using lead_match_prefix[of ws s] 1(3) by auto
    then have "c \<in> set (drop (lead_match ws s) s)"
      using 1(2) by (metis append_take_drop_id set_append UnE)
    then show ?thesis
      using 1(1)[OF False _ 1(3)] False by (simp add: drop_leading.simps[of ws s])
  qed (use 1(2) drop_leading.simps[of ws s] in auto)
qed

lemma trim_nonempty:
  assumes "c \<in> set s" and "is_ascii_graphic c"
  shows "trim s \<noteq> []"
proof -
  have "c \<notin> set w" if "w \<in> set white_space" for w
    using that assms(2) by (auto simp: white_space_def is_ascii_graphic_def byte_in_def)
  then have "c \<in> set (trim s)"
    using assms(1) by (auto simp: trim_def trim_start_def trim_end_def intro!: drop_leading_keeps)
  then show ?thesis
    by auto
qed
subsection \<open>Decimal numbers\<close>

definition digit_value :: "char \<Rightarrow> nat" where
  "digit_value c = of_char c - 48"

definition digits_value :: "string \<Rightarrow> nat" where
  "digits_value s = foldl (\<lambda>n c. 10 * n + digit_value c) 0 s"

text \<open>
  \<open>str::parse\<close> for an unsigned integer type with \<open>bound\<close> values: an optional plus sign, then at least
  one digit and nothing else, and no overflow.
\<close>

definition parse_unsigned :: "nat \<Rightarrow> string \<Rightarrow> nat option" where
  "parse_unsigned bound s =
     (let ds = (if s \<noteq> [] \<and> hd s = CHR ''+'' then tl s else s) in
      if ds \<noteq> [] \<and> list_all is_ascii_digit ds \<and> digits_value ds < bound
      then Some (digits_value ds) else None)"

definition parse_u64 :: "string \<Rightarrow> u64 option" where
  "parse_u64 s = map_option of_nat (parse_unsigned (2 ^ 64) s)"

definition parse_u32 :: "string \<Rightarrow> u32 option" where
  "parse_u32 s = map_option of_nat (parse_unsigned (2 ^ 32) s)"

definition parse_u16 :: "string \<Rightarrow> u16 option" where
  "parse_u16 s = map_option of_nat (parse_unsigned (2 ^ 16) s)"

text \<open>\<open>to_string\<close> of an unsigned integer.\<close>

definition digit_char :: "nat \<Rightarrow> char" where
  "digit_char d = char_of (48 + d)"

fun show_nat :: "nat \<Rightarrow> string" where
  "show_nat n = (if n < 10 then [digit_char n] else show_nat (n div 10) @ [digit_char (n mod 10)])"

declare show_nat.simps [simp del]

lemma of_char_digit_char: "d < 10 \<Longrightarrow> of_char (digit_char d) = 48 + d"
  by (simp add: digit_char_def)

lemma digit_char_is_digit: "d < 10 \<Longrightarrow> is_ascii_digit (digit_char d)"
  by (simp add: is_ascii_digit_def byte_in_def of_char_digit_char)

lemma digit_value_digit_char: "d < 10 \<Longrightarrow> digit_value (digit_char d) = d"
  by (simp add: digit_value_def of_char_digit_char)

lemma digits_value_snoc: "digits_value (s @ [c]) = 10 * digits_value s + digit_value c"
  by (simp add: digits_value_def)

lemma show_nat_nonempty [simp]: "show_nat n \<noteq> []"
  by (subst show_nat.simps) simp

lemma show_nat_digits: "list_all is_ascii_digit (show_nat n)"
proof (induction n rule: show_nat.induct)
  case (1 n)
  then show ?case
    using show_nat.simps [of n] by (cases "n < 10") (auto simp: digit_char_is_digit)
qed

lemma digits_value_show_nat: "digits_value (show_nat n) = n"
proof (induction n rule: show_nat.induct)
  case (1 n)
  show ?case
  proof (cases "n < 10")
    case True
    then show ?thesis
      using show_nat.simps [of n] by (simp add: digits_value_def digit_value_digit_char)
  next
    case False
    with 1 show ?thesis
      using show_nat.simps [of n] by (simp add: digits_value_snoc digit_value_digit_char)
  qed
qed

lemma digit_not_plus: "is_ascii_digit c \<Longrightarrow> c \<noteq> CHR ''+''"
  by (auto simp: is_ascii_digit_def byte_in_def)

theorem parse_show_nat: "n < bound \<Longrightarrow> parse_unsigned bound (show_nat n) = Some n"
proof -
  assume n: "n < bound"
  have "is_ascii_digit (hd (show_nat n))"
    using show_nat_digits [of n] by (cases "show_nat n") auto
  then have "hd (show_nat n) \<noteq> CHR ''+''"
    by (rule digit_not_plus)
  then show ?thesis
    using n show_nat_digits [of n] by (simp add: parse_unsigned_def digits_value_show_nat)
qed

lemma show_nat_inject [simp]: "show_nat m = show_nat n \<longleftrightarrow> m = n"
  by (metis digits_value_show_nat)

lemma parse_u64_show: "parse_u64 (show_nat (unat n)) = Some n"
proof -
  have "unat n < 2 ^ 64"
    using unsigned_less [of n] by simp
  then show ?thesis by (simp add: parse_u64_def parse_show_nat)
qed

lemma parse_u32_show: "parse_u32 (show_nat (unat n)) = Some n"
proof -
  have "unat n < 2 ^ 32"
    using unsigned_less [of n] by simp
  then show ?thesis by (simp add: parse_u32_def parse_show_nat)
qed

lemma parse_unsigned_bound: "parse_unsigned bound s = Some n \<Longrightarrow> n < bound"
  by (auto simp: parse_unsigned_def Let_def split: if_splits)

end
