(* ===== verification/Lifecycle_Record.thy ===== *)
theory Lifecycle_Record
  imports Rust_Str
begin

section \<open>Durable lifecycle records (\<open>src/src/process_lifecycle_record.rs\<close>)\<close>

text \<open>
  The persisted record of one workload, its well-formedness check \<open>validate\<close>, the admission check
  \<open>validate_record_update\<close> of a compare-and-set replacement, and \<open>authorizes_controller\<close>. Both checks
  return the first error in the order of the source. The lemmas characterise the accepted records
  and updates (\<open>valid_record\<close>, \<open>update_ok\<close>) and lift the one-step monotonicity to whole histories
  (\<open>record_history\<close>): fences and epochs never go back, revisions strictly grow, and a runtime
  incarnation that was replaced is never authorised again.
\<close>

datatype PersistedLifecycleState =
    PRunning | PQuiescing | PFreezing | PFrozen | PCheckpointing | PHibernated | PThawing | PRestoring

datatype PersistedSuspendStrategy = PFreeze | PHibernate

record LifecycleCheckpoint =
  artifact_ref :: string
  digest :: string
  ckpt_format :: string

record LifecycleRecord =
  workload_id :: string
  assigned_node :: string
  placement_epoch :: u64
  runtime_epoch :: u64
  fencing_token :: u64
  revision :: u64
  state :: PersistedLifecycleState
  strategy :: PersistedSuspendStrategy
  checkpoint :: "LifecycleCheckpoint option"

datatype LifecycleRecordError =
    EmptyWorkloadId
  | EmptyAssignedNode
  | InvalidWorkloadId
  | InvalidAssignedNode
  | InvalidCheckpoint
  | InvalidCheckpointDigest
  | StateStrategyMismatch
  | ZeroPlacementEpoch
  | ZeroRuntimeEpoch
  | ZeroFencingToken
  | ZeroRevision
  | WorkloadChanged
  | StaleFencingToken
  | RevisionDidNotAdvance
  | PlacementEpochRegressed
  | PlacementChangedWithoutEpochAdvance
  | PlacementChangedWithoutRuntimeAdvance
  | RuntimeEpochRegressed
  | RuntimeChangedWithoutFenceAdvance
  | RuntimeChangedOutsideRunning
  | CheckpointRequired
  | CheckpointNotAllowed

definition MAX_CHECKPOINT_ARTIFACT_REF_BYTES :: nat where
  "MAX_CHECKPOINT_ARTIFACT_REF_BYTES = 2048"

definition MAX_CHECKPOINT_FORMAT_BYTES :: nat where
  "MAX_CHECKPOINT_FORMAT_BYTES = 128"

definition MAX_IDENTITY_BYTES :: nat where
  "MAX_IDENTITY_BYTES = 96"

lemmas record_limits =
  MAX_CHECKPOINT_ARTIFACT_REF_BYTES_def MAX_CHECKPOINT_FORMAT_BYTES_def MAX_IDENTITY_BYTES_def

definition identity_byte :: "char \<Rightarrow> bool" where
  "identity_byte c \<longleftrightarrow> is_ascii_alphanumeric c \<or> c \<in> {CHR ''-'', CHR ''_'', CHR ''.'', CHR '':''}"

definition valid_identity_segment :: "string \<Rightarrow> bool" where
  "valid_identity_segment v \<longleftrightarrow>
     v \<noteq> [] \<and> length v \<le> MAX_IDENTITY_BYTES \<and> list_all identity_byte v"

definition lower_hex_byte :: "char \<Rightarrow> bool" where
  "lower_hex_byte c \<longleftrightarrow> is_ascii_hexdigit c \<and> \<not> is_ascii_uppercase c"

definition valid_checkpoint_digest :: "string \<Rightarrow> bool" where
  "valid_checkpoint_digest v =
     (case strip_prefix ''sha256:'' v of
        None \<Rightarrow> False
      | Some raw \<Rightarrow> length raw = 64 \<and> list_all lower_hex_byte raw)"

definition validate_checkpoint :: "LifecycleCheckpoint \<Rightarrow> LifecycleRecordError + unit" where
  "validate_checkpoint c =
     (if artifact_ref c = []
         \<or> length (artifact_ref c) > MAX_CHECKPOINT_ARTIFACT_REF_BYTES
         \<or> any_control (artifact_ref c)
         \<or> ckpt_format c = []
         \<or> length (ckpt_format c) > MAX_CHECKPOINT_FORMAT_BYTES
         \<or> any_control (ckpt_format c)
      then Err InvalidCheckpoint
      else if \<not> valid_checkpoint_digest (digest c) then Err InvalidCheckpointDigest
      else Ok ())"

fun validate_state_shape ::
  "PersistedLifecycleState \<Rightarrow> PersistedSuspendStrategy \<Rightarrow> bool \<Rightarrow> LifecycleRecordError + unit" where
  "validate_state_shape PHibernated st has =
     (if st \<noteq> PHibernate then Err StateStrategyMismatch else if \<not> has then Err CheckpointRequired else Ok ())"
| "validate_state_shape PRestoring st has =
     (if st \<noteq> PHibernate then Err StateStrategyMismatch else if \<not> has then Err CheckpointRequired else Ok ())"
| "validate_state_shape PCheckpointing st has =
     (if st \<noteq> PHibernate then Err StateStrategyMismatch else if has then Err CheckpointNotAllowed else Ok ())"
| "validate_state_shape PFreezing st has =
     (if st \<noteq> PFreeze then Err StateStrategyMismatch else if has then Err CheckpointNotAllowed else Ok ())"
| "validate_state_shape PFrozen st has =
     (if st \<noteq> PFreeze then Err StateStrategyMismatch else if has then Err CheckpointNotAllowed else Ok ())"
| "validate_state_shape PThawing st has =
     (if st \<noteq> PFreeze then Err StateStrategyMismatch else if has then Err CheckpointNotAllowed else Ok ())"
| "validate_state_shape PRunning st has = (if has then Err CheckpointNotAllowed else Ok ())"
| "validate_state_shape PQuiescing st has = (if has then Err CheckpointNotAllowed else Ok ())"

definition validate :: "LifecycleRecord \<Rightarrow> LifecycleRecordError + unit" where
  "validate r =
     (if workload_id r = [] then Err EmptyWorkloadId
      else if \<not> valid_identity_segment (workload_id r) then Err InvalidWorkloadId
      else if assigned_node r = [] then Err EmptyAssignedNode
      else if \<not> valid_identity_segment (assigned_node r) then Err InvalidAssignedNode
      else if placement_epoch r = 0 then Err ZeroPlacementEpoch
      else if runtime_epoch r = 0 then Err ZeroRuntimeEpoch
      else if fencing_token r = 0 then Err ZeroFencingToken
      else if revision r = 0 then Err ZeroRevision
      else bindR (case checkpoint r of None \<Rightarrow> Ok () | Some c \<Rightarrow> validate_checkpoint c)
        (\<lambda>_. validate_state_shape (state r) (strategy r) (checkpoint r \<noteq> None)))"

definition authorizes_controller :: "LifecycleRecord \<Rightarrow> string \<Rightarrow> u64 \<Rightarrow> u64 \<Rightarrow> u64 \<Rightarrow> bool" where
  "authorizes_controller r node pe re ft \<longleftrightarrow>
     assigned_node r = node \<and> placement_epoch r = pe \<and> runtime_epoch r = re \<and> fencing_token r = ft"

definition validate_record_update ::
  "LifecycleRecord \<Rightarrow> LifecycleRecord \<Rightarrow> LifecycleRecordError + unit" where
  "validate_record_update current nxt =
     bindR (validate current) (\<lambda>_. bindR (validate nxt) (\<lambda>_.
       if workload_id nxt \<noteq> workload_id current then Err WorkloadChanged
       else if fencing_token nxt < fencing_token current then Err StaleFencingToken
       else if revision nxt \<le> revision current then Err RevisionDidNotAdvance
       else if placement_epoch nxt < placement_epoch current then Err PlacementEpochRegressed
       else if assigned_node nxt \<noteq> assigned_node current
               \<and> placement_epoch nxt \<le> placement_epoch current
            then Err PlacementChangedWithoutEpochAdvance
       else if (assigned_node nxt \<noteq> assigned_node current
                \<or> placement_epoch nxt > placement_epoch current)
               \<and> runtime_epoch nxt \<le> runtime_epoch current
            then Err PlacementChangedWithoutRuntimeAdvance
       else if runtime_epoch nxt < runtime_epoch current then Err RuntimeEpochRegressed
       else if runtime_epoch nxt > runtime_epoch current
               \<and> fencing_token nxt \<le> fencing_token current
            then Err RuntimeChangedWithoutFenceAdvance
       else if runtime_epoch nxt > runtime_epoch current
               \<and> (state nxt \<noteq> PRunning \<or> checkpoint nxt \<noteq> None)
            then Err RuntimeChangedOutsideRunning
       else Ok ()))"

subsection \<open>The accepted records\<close>

definition checkpoint_wf :: "LifecycleCheckpoint \<Rightarrow> bool" where
  "checkpoint_wf c \<longleftrightarrow>
     artifact_ref c \<noteq> [] \<and> length (artifact_ref c) \<le> 2048 \<and> \<not> any_control (artifact_ref c)
     \<and> ckpt_format c \<noteq> [] \<and> length (ckpt_format c) \<le> 128 \<and> \<not> any_control (ckpt_format c)
     \<and> (\<exists>hex. digest c = ''sha256:'' @ hex \<and> length hex = 64 \<and> list_all lower_hex_byte hex)"

text \<open>States that belong to one strategy, and states that carry a checkpoint.\<close>

definition state_shape_wf :: "LifecycleRecord \<Rightarrow> bool" where
  "state_shape_wf r \<longleftrightarrow>
     (state r \<in> {PFreezing, PFrozen, PThawing} \<longrightarrow> strategy r = PFreeze)
     \<and> (state r \<in> {PCheckpointing, PHibernated, PRestoring} \<longrightarrow> strategy r = PHibernate)
     \<and> (checkpoint r \<noteq> None \<longleftrightarrow> state r \<in> {PHibernated, PRestoring})"

definition valid_record :: "LifecycleRecord \<Rightarrow> bool" where
  "valid_record r \<longleftrightarrow>
     valid_identity_segment (workload_id r) \<and> valid_identity_segment (assigned_node r)
     \<and> placement_epoch r \<noteq> 0 \<and> runtime_epoch r \<noteq> 0 \<and> fencing_token r \<noteq> 0 \<and> revision r \<noteq> 0
     \<and> (\<forall>c. checkpoint r = Some c \<longrightarrow> checkpoint_wf c)
     \<and> state_shape_wf r"

lemma valid_checkpoint_digest_iff:
  "valid_checkpoint_digest v \<longleftrightarrow>
     (\<exists>hex. v = ''sha256:'' @ hex \<and> length hex = 64 \<and> list_all lower_hex_byte hex)"
  by (auto simp: valid_checkpoint_digest_def strip_prefix_Some_iff split: option.splits)
    (auto simp: strip_prefix_def starts_with_iff split: if_splits)

lemma validate_checkpoint_iff: "validate_checkpoint c = Ok () \<longleftrightarrow> checkpoint_wf c"
  by (auto simp: validate_checkpoint_def checkpoint_wf_def valid_checkpoint_digest_iff record_limits
      not_less)

lemma validate_state_shape_iff:
  "validate_state_shape (state r) (strategy r) (checkpoint r \<noteq> None) = Ok () \<longleftrightarrow> state_shape_wf r"
  by (cases "state r"; cases "strategy r") (auto simp: state_shape_wf_def)

lemma valid_identity_nonempty: "valid_identity_segment v \<Longrightarrow> v \<noteq> []"
  by (simp add: valid_identity_segment_def)

lemma validate_iff: "validate r = Ok () \<longleftrightarrow> valid_record r"
proof -
  have ck: "(case checkpoint r of None \<Rightarrow> Ok () | Some c \<Rightarrow> validate_checkpoint c) = Ok ()
      \<longleftrightarrow> (\<forall>c. checkpoint r = Some c \<longrightarrow> checkpoint_wf c)"
    by (auto simp: validate_checkpoint_iff split: option.splits)
  show ?thesis
    unfolding validate_def valid_record_def
    using validate_state_shape_iff [of r]
    by (auto simp: bindR_Ok_iff ck dest: valid_identity_nonempty split: if_splits)
qed

subsection \<open>The accepted updates\<close>

text \<open>Where the runtime incarnation is kept, node and placement are kept too.\<close>

definition update_ok :: "LifecycleRecord \<Rightarrow> LifecycleRecord \<Rightarrow> bool" where
  "update_ok c n \<longleftrightarrow>
     valid_record c \<and> valid_record n
     \<and> workload_id n = workload_id c
     \<and> fencing_token c \<le> fencing_token n
     \<and> revision c < revision n
     \<and> ((runtime_epoch n = runtime_epoch c \<and> assigned_node n = assigned_node c
          \<and> placement_epoch n = placement_epoch c)
        \<or> (runtime_epoch c < runtime_epoch n
           \<and> fencing_token c < fencing_token n
           \<and> state n = PRunning \<and> checkpoint n = None
           \<and> placement_epoch c \<le> placement_epoch n
           \<and> (assigned_node n \<noteq> assigned_node c \<longrightarrow> placement_epoch c < placement_epoch n)))"

lemma validate_record_update_iff: "validate_record_update c n = Ok () \<longleftrightarrow> update_ok c n"
proof (cases "validate c = Ok () \<and> validate n = Ok ()")
  case True
  then have "valid_record c" "valid_record n"
    by (simp_all add: validate_iff)
  with True show ?thesis
    unfolding validate_record_update_def update_ok_def
    by (auto simp: not_less not_le split: if_splits)
next
  case False
  then show ?thesis
    by (auto simp: validate_record_update_def update_ok_def bindR_Ok_iff validate_iff)
qed

lemma update_ok_fence: "update_ok c n \<Longrightarrow> fencing_token c \<le> fencing_token n"
  and update_ok_revision: "update_ok c n \<Longrightarrow> revision c < revision n"
  and update_ok_workload: "update_ok c n \<Longrightarrow> workload_id n = workload_id c"
  and update_ok_runtime: "update_ok c n \<Longrightarrow> runtime_epoch c \<le> runtime_epoch n"
  and update_ok_placement: "update_ok c n \<Longrightarrow> placement_epoch c \<le> placement_epoch n"
  and update_ok_valid: "update_ok c n \<Longrightarrow> valid_record n"
  by (auto simp: update_ok_def)

subsection \<open>Histories\<close>

inductive record_history :: "LifecycleRecord \<Rightarrow> LifecycleRecord \<Rightarrow> bool" where
  history_refl: "record_history r r"
| history_step: "record_history r c \<Longrightarrow> validate_record_update c n = Ok () \<Longrightarrow> record_history r n"

lemma record_history_trans:
  "record_history b c \<Longrightarrow> record_history a b \<Longrightarrow> record_history a c"
  by (induction rule: record_history.induct) (auto intro: history_step)

lemma record_history_one: "update_ok c n \<Longrightarrow> record_history c n"
  by (metis history_refl history_step validate_record_update_iff)

text \<open>The facts that hold between a record and any later one of its history.\<close>

definition later_record :: "LifecycleRecord \<Rightarrow> LifecycleRecord \<Rightarrow> bool" where
  "later_record r n \<longleftrightarrow>
     workload_id n = workload_id r
     \<and> fencing_token r \<le> fencing_token n
     \<and> revision r \<le> revision n
     \<and> placement_epoch r \<le> placement_epoch n
     \<and> runtime_epoch r \<le> runtime_epoch n
     \<and> (runtime_epoch n = runtime_epoch r \<longrightarrow>
          assigned_node n = assigned_node r \<and> placement_epoch n = placement_epoch r)
     \<and> (runtime_epoch n \<noteq> runtime_epoch r \<longrightarrow> fencing_token r < fencing_token n)
     \<and> (n \<noteq> r \<longrightarrow> revision r < revision n)"

lemma later_record_refl: "later_record r r"
  by (simp add: later_record_def)

lemma later_record_step: "later_record r c \<Longrightarrow> update_ok c n \<Longrightarrow> later_record r n"
  unfolding later_record_def update_ok_def by auto

lemma history_later: "record_history r n \<Longrightarrow> later_record r n"
proof (induction rule: record_history.induct)
  case (history_refl r)
  show ?case by (rule later_record_refl)
next
  case (history_step r c n)
  then show ?case by (auto simp: validate_record_update_iff intro: later_record_step)
qed

text \<open>Saturated revisions: the largest revision has no successor.\<close>

lemma update_from_max_revision: "revision c = - 1 \<Longrightarrow> \<not> update_ok c n"
  using u64_le_max [of "revision n"] by (auto simp: update_ok_def)

subsection \<open>Properties\<close>

text \<open>
  \<open>validate\<close> accepts exactly the well-formed records: both identity segments are non-empty, at
  most 96 bytes and path-safe; epochs, fence and revision are positive; freezing, frozen and thawing
  need the freeze strategy and checkpointing, hibernated and restoring the hibernate strategy; a
  checkpoint is present exactly in hibernated and restoring records, and then it is bounded, free
  of control characters and carries a canonical lower-case SHA-256 digest.
\<close>

theorem validate_accepts_exactly_valid_records: "validate r = Ok () \<longleftrightarrow> valid_record r"
  by (rule validate_iff)

text \<open>
  C16: \<open>validate_record_update\<close> accepts exactly the updates between well-formed records of one
  workload in which the fence does not go back, the revision strictly grows, and either the runtime
  incarnation, node and placement are all unchanged, or the runtime epoch grows under a strictly
  newer fence into a \<open>running\<close> record without checkpoint, with the placement epoch not going back and
  strictly growing when the node changes.
\<close>

theorem validate_record_update_accepts_exactly:
  "validate_record_update c n = Ok () \<longleftrightarrow> update_ok c n"
  by (rule validate_record_update_iff)

text \<open>
  C21: a controller whose runtime incarnation or placement was replaced is never authorised again. If a
  record authorised a node, placement, runtime epoch and fence, and some later record of its history
  has another runtime epoch, another placement epoch or another node, then no record after that one
  authorises the old tuple, nor any tuple with the old runtime epoch.
\<close>

theorem replaced_runtime_never_authorized_again:
  assumes "record_history r m" and "record_history m n"
    and "runtime_epoch m \<noteq> runtime_epoch r \<or> placement_epoch m \<noteq> placement_epoch r \<or> assigned_node m \<noteq> assigned_node r"
    and "authorizes_controller r node pe re ft"
  shows "\<not> authorizes_controller n node' pe' re ft'"
proof -
  have "runtime_epoch r < runtime_epoch m"
    using history_later [OF assms(1)] assms(3) by (auto simp: later_record_def)
  also have "runtime_epoch m \<le> runtime_epoch n"
    using history_later [OF assms(2)] by (simp add: later_record_def)
  finally show ?thesis
    using assms(4) by (auto simp: authorizes_controller_def)
qed

definition sample_record :: "u64 \<Rightarrow> u64 \<Rightarrow> u64 \<Rightarrow> PersistedLifecycleState \<Rightarrow> LifecycleRecord" where
  "sample_record re ft rv st =
     \<lparr>workload_id = ''tenant-42'', assigned_node = ''node-a'', placement_epoch = 7, runtime_epoch = re,
      fencing_token = ft, revision = rv, state = st, strategy = PFreeze, checkpoint = None\<rparr>"

lemma sample_record_identity:
  "valid_identity_segment ''tenant-42''" "valid_identity_segment ''node-a''"
  by (simp_all add: valid_identity_segment_def MAX_IDENTITY_BYTES_def identity_byte_def
      is_ascii_alphanumeric_def is_ascii_digit_def is_ascii_lowercase_def is_ascii_uppercase_def byte_in_def)

lemma sample_record_valid:
  "re \<noteq> 0 \<Longrightarrow> ft \<noteq> 0 \<Longrightarrow> rv \<noteq> 0 \<Longrightarrow> st \<in> {PRunning, PQuiescing, PFreezing, PFrozen, PThawing}
   \<Longrightarrow> valid_record (sample_record re ft rv st)"
  by (auto simp: valid_record_def sample_record_def sample_record_identity state_shape_wf_def)

theorem replaced_runtime_never_authorized_again_witness:
  "let r = sample_record 13 19 11 PFrozen;
       m = (sample_record 14 20 12 PRunning)\<lparr>assigned_node := ''node-b'', placement_epoch := 8\<rparr>
   in validate_record_update r m = Ok () \<and> authorizes_controller r ''node-a'' 7 13 19
      \<and> \<not> authorizes_controller m ''node-a'' 7 13 20"
proof -
  let ?r = "sample_record 13 19 11 PFrozen"
    and ?m = "(sample_record 14 20 12 PRunning)\<lparr>assigned_node := ''node-b'', placement_epoch := 8\<rparr>"
  have "valid_identity_segment ''node-b''"
    by (simp add: valid_identity_segment_def MAX_IDENTITY_BYTES_def identity_byte_def
        is_ascii_alphanumeric_def is_ascii_digit_def is_ascii_lowercase_def is_ascii_uppercase_def byte_in_def)
  then have "valid_record ?m"
    by (simp add: valid_record_def sample_record_def sample_record_identity state_shape_wf_def)
  then have ok: "validate_record_update ?r ?m = Ok ()"
    by (simp add: validate_record_update_iff update_ok_def sample_record_valid)
       (simp add: sample_record_def)
  have hist: "record_history ?r ?m"
    by (rule history_step [OF history_refl ok])
  have auth: "authorizes_controller ?r ''node-a'' 7 13 19"
    by (simp add: authorizes_controller_def sample_record_def)
  have "runtime_epoch ?m \<noteq> runtime_epoch ?r \<or> placement_epoch ?m \<noteq> placement_epoch ?r
      \<or> assigned_node ?m \<noteq> assigned_node ?r"
    by (simp add: sample_record_def)
  from replaced_runtime_never_authorized_again [OF hist history_refl this auth]
  show ?thesis using ok auth by (simp add: Let_def)
qed

end
