(* ===== verification/Lifecycle_Agent.thy ===== *)
theory Lifecycle_Agent
  imports Process_Lifecycle Lifecycle_Record
begin

section \<open>Host-agent reconciliation (\<open>src/src/process_lifecycle_agent.rs\<close>)\<close>

text \<open>
  \<open>reconcile_once\<close> is generic in four Rust traits. A trait is a record of its methods, each an effectful
  program on a world \<open>'w\<close> (\<open>'w LifecycleRecordStore\<close>, \<open>'w HostLifecycleControl\<close>,
  \<open>'w ProductLifecycleControl\<close>, \<open>'w LifecycleEffects\<close>); the four trait objects act on one world, so
  nothing is assumed about them being independent. Every persist, observation, product call and
  process effect of the source is a step of the model, in the order of the source.

  Two groups of lemmas follow. The first instruments the traits with a log (\<open>traced_store\<close> and its
  kin) and shows, for every implementation of the traits, what the sequence of calls of one
  reconciliation looks like. The second is the locale \<open>lifecycle_record_store\<close>, the contract of the
  durable store, with its client lemmas about the stored record.
\<close>

subsection \<open>Traits\<close>

datatype ProductQuiesceOutcome = Drained | DemandReturned

record 'w HostLifecycleControl =
  observe :: "('w, string, ActivitySnapshot) eff"
  verify_ready :: "('w, string, unit) eff"

record 'w ProductLifecycleControl =
  quiesce :: "('w, string, ProductQuiesceOutcome) eff"
  cancel_quiesce :: "('w, string, unit) eff"

record 'w LifecycleRecordStore =
  load :: "string \<Rightarrow> ('w, string, LifecycleRecord) eff"
  replace :: "LifecycleRecord \<Rightarrow> LifecycleRecord \<Rightarrow> ('w, string, unit) eff"

record 'w LifecycleEffects =
  freeze :: "('w, string, unit) eff"
  thaw :: "('w, string, unit) eff"
  checkpoint_and_terminate :: "('w, string, LifecycleCheckpoint) eff"
  restore :: "LifecycleCheckpoint \<Rightarrow> ('w, string, unit) eff"

text \<open>
  \<open>FreezeTransitionEffects: LifecycleEffects\<close> of \<open>src/src/adapters/process_lifecycle_freeze.rs\<close>, the
  supertrait as the parent record.
\<close>

record FreezeTransitionStatus =
  status_populated :: bool
  status_frozen :: bool

record 'w FreezeTransitionEffects = "'w LifecycleEffects" +
  freeze_status :: "('w, string, FreezeTransitionStatus) eff"

record ControllerScope =
  scope_workload_id :: string
  scope_node :: string
  scope_placement_epoch :: u64
  scope_runtime_epoch :: u64

datatype ReconcileOutcome = NoChange | Suspended | Resumed | DemandCancelledSuspend | RecoveredQuiesce

datatype ReconcileError =
    RecordErr string
  | HostErr string
  | ProductErr string
  | EffectErr string
  | InvalidRecordErr
  | StalePlacement
  | StaleRuntime
  | StaleFence
  | InvalidTransitionErr
  | RecoveryRequired PersistedLifecycleState

type_synonym 'w reconcile = "('w, ReconcileError, ReconcileOutcome) eff"

subsection \<open>Operations\<close>

fun to_strategy :: "PersistedSuspendStrategy \<Rightarrow> SuspendStrategy" where
  "to_strategy PFreeze = Freeze"
| "to_strategy PHibernate = Hibernate"

definition to_policy_state :: "LifecycleRecord \<Rightarrow> LifecycleState" where
  "to_policy_state r =
     (case state r of
        PRunning \<Rightarrow> Running
      | PQuiescing \<Rightarrow> Quiescing (to_strategy (strategy r))
      | PFreezing \<Rightarrow> Freezing
      | PFrozen \<Rightarrow> Frozen
      | PCheckpointing \<Rightarrow> Checkpointing
      | PHibernated \<Rightarrow> Hibernated
      | PThawing \<Rightarrow> Resuming Freeze
      | PRestoring \<Rightarrow> Resuming Hibernate)"

definition next_record ::
  "LifecycleRecord \<Rightarrow> u64 \<Rightarrow> PersistedLifecycleState \<Rightarrow> LifecycleCheckpoint option \<Rightarrow> LifecycleRecord" where
  "next_record current tok st ck =
     \<lparr>workload_id = workload_id current, assigned_node = assigned_node current,
      placement_epoch = placement_epoch current, runtime_epoch = runtime_epoch current,
      fencing_token = tok, revision = saturating_add (revision current) 1,
      state = st, strategy = strategy current, checkpoint = ck\<rparr>"

definition validate_strategy :: "LifecyclePolicy \<Rightarrow> LifecycleRecord \<Rightarrow> ReconcileError + unit" where
  "validate_strategy p r =
     (if policy_strategy p \<noteq> to_strategy (strategy r) then Err InvalidRecordErr else Ok ())"

definition validate_authority :: "ControllerScope \<Rightarrow> u64 \<Rightarrow> LifecycleRecord \<Rightarrow> ReconcileError + unit" where
  "validate_authority scope tok r =
     (if assigned_node r \<noteq> scope_node scope \<or> placement_epoch r \<noteq> scope_placement_epoch scope
      then Err StalePlacement
      else if runtime_epoch r \<noteq> scope_runtime_epoch scope then Err StaleRuntime
      else if tok < fencing_token r then Err StaleFence
      else Ok ())"

definition persist ::
  "'w LifecycleRecordStore \<Rightarrow> LifecycleRecord \<Rightarrow> LifecycleRecord \<Rightarrow> ('w, ReconcileError, unit) eff" where
  "persist S current nxt =
     bindE (liftE (map_err (\<lambda>_. InvalidRecordErr) (validate_record_update current nxt)))
       (\<lambda>_. map_errE RecordErr (replace S current nxt))"

definition restore_hibernated ::
  "u64 \<Rightarrow> LifecycleRecord \<Rightarrow> 'w LifecycleRecordStore \<Rightarrow> 'w HostLifecycleControl \<Rightarrow>
   'w ProductLifecycleControl \<Rightarrow> ('w, 'x) LifecycleEffects_scheme \<Rightarrow> 'w reconcile" where
  "restore_hibernated tok current S H P E =
     bindE (liftE (ok_or InvalidRecordErr (checkpoint current))) (\<lambda>ck.
     (let restoring = next_record current tok PRestoring (Some ck) in
      bindE (persist S current restoring) (\<lambda>_.
      bindE (map_errE EffectErr (restore E ck)) (\<lambda>_.
      bindE (map_errE ProductErr (cancel_quiesce P)) (\<lambda>_.
      bindE (map_errE HostErr (verify_ready H)) (\<lambda>_.
      (let running = next_record restoring tok PRunning None in
       bindE (persist S restoring running) (\<lambda>_. returnE Resumed))))))))"

definition resume_frozen ::
  "u64 \<Rightarrow> LifecycleRecord \<Rightarrow> 'w LifecycleRecordStore \<Rightarrow> 'w HostLifecycleControl \<Rightarrow>
   'w ProductLifecycleControl \<Rightarrow> ('w, 'x) LifecycleEffects_scheme \<Rightarrow> 'w reconcile" where
  "resume_frozen tok current S H P E =
     (let thawing = next_record current tok PThawing None in
      bindE (persist S current thawing) (\<lambda>_.
      bindE (map_errE EffectErr (thaw E)) (\<lambda>_.
      bindE (map_errE ProductErr (cancel_quiesce P)) (\<lambda>_.
      bindE (map_errE HostErr (verify_ready H)) (\<lambda>_.
      (let running = next_record thawing tok PRunning None in
       bindE (persist S thawing running) (\<lambda>_. returnE Resumed)))))))"

definition cancel_suspend_for_demand ::
  "u64 \<Rightarrow> LifecycleRecord \<Rightarrow> 'w LifecycleRecordStore \<Rightarrow> 'w ProductLifecycleControl \<Rightarrow> 'w reconcile" where
  "cancel_suspend_for_demand tok quiescing S P =
     bindE (map_errE ProductErr (cancel_quiesce P)) (\<lambda>_.
     (let running = next_record quiescing tok PRunning None in
      bindE (persist S quiescing running) (\<lambda>_. returnE DemandCancelledSuspend)))"

definition suspend_effect ::
  "u64 \<Rightarrow> LifecyclePolicy \<Rightarrow> LifecycleRecord \<Rightarrow> 'w LifecycleRecordStore \<Rightarrow>
   ('w, 'x) LifecycleEffects_scheme \<Rightarrow> 'w reconcile" where
  "suspend_effect tok p quiescing S E =
     bindE (liftE (map_err (\<lambda>_. InvalidTransitionErr)
              (decide (Quiescing (policy_strategy p)) p QuiesceSucceeded))) (\<lambda>after_quiesce.
     (case action after_quiesce of
        DoFreeze \<Rightarrow>
          (let intent = next_record quiescing tok PFreezing None in
           bindE (persist S quiescing intent) (\<lambda>_.
           bindE (map_errE EffectErr (freeze E)) (\<lambda>_.
           (let frozen = next_record intent tok PFrozen None in
            bindE (persist S intent frozen) (\<lambda>_. returnE Suspended)))))
      | CheckpointAndTerminate \<Rightarrow>
          (let intent = next_record quiescing tok PCheckpointing None in
           bindE (persist S quiescing intent) (\<lambda>_.
           bindE (map_errE EffectErr (checkpoint_and_terminate E)) (\<lambda>ck.
           (let hibernated = next_record intent tok PHibernated (Some ck) in
            bindE (persist S intent hibernated) (\<lambda>_. returnE Suspended)))))
      | _ \<Rightarrow> throwE InvalidTransitionErr))"

definition suspend_from_running ::
  "u64 \<Rightarrow> LifecyclePolicy \<Rightarrow> LifecycleRecord \<Rightarrow> 'w LifecycleRecordStore \<Rightarrow> 'w HostLifecycleControl \<Rightarrow>
   'w ProductLifecycleControl \<Rightarrow> ('w, 'x) LifecycleEffects_scheme \<Rightarrow> 'w reconcile" where
  "suspend_from_running tok p current S H P E =
     (let quiescing = next_record current tok PQuiescing None in
      bindE (persist S current quiescing) (\<lambda>_.
      bindE (map_errE ProductErr (quiesce P)) (\<lambda>outcome.
      (case outcome of
         DemandReturned \<Rightarrow> cancel_suspend_for_demand tok quiescing S P
       | Drained \<Rightarrow>
           bindE (map_errE HostErr (observe H)) (\<lambda>after_quiesce_activity.
           if has_demand after_quiesce_activity
           then cancel_suspend_for_demand tok quiescing S P
           else suspend_effect tok p quiescing S E)))))"

definition recover_quiesce ::
  "u64 \<Rightarrow> LifecycleRecord \<Rightarrow> 'w LifecycleRecordStore \<Rightarrow> 'w ProductLifecycleControl \<Rightarrow> 'w reconcile" where
  "recover_quiesce tok current S P =
     bindE (map_errE ProductErr (cancel_quiesce P)) (\<lambda>_.
     (let running = next_record current tok PRunning None in
      bindE (persist S current running) (\<lambda>_. returnE RecoveredQuiesce)))"

definition reconcile_stable ::
  "u64 \<Rightarrow> LifecyclePolicy \<Rightarrow> LifecycleRecord \<Rightarrow> 'w LifecycleRecordStore \<Rightarrow> 'w HostLifecycleControl \<Rightarrow>
   'w ProductLifecycleControl \<Rightarrow> ('w, 'x) LifecycleEffects_scheme \<Rightarrow> 'w reconcile" where
  "reconcile_stable tok p current S H P E =
     bindE (map_errE HostErr (observe H)) (\<lambda>activity.
     bindE (liftE (map_err (\<lambda>_. InvalidTransitionErr)
              (decide (to_policy_state current) p (Observe activity)))) (\<lambda>decision.
     (case action decision of
        NoAction \<Rightarrow> returnE NoChange
      | BeginQuiesce \<Rightarrow> suspend_from_running tok p current S H P E
      | Thaw \<Rightarrow> resume_frozen tok current S H P E
      | Restore \<Rightarrow> restore_hibernated tok current S H P E
      | _ \<Rightarrow> throwE InvalidTransitionErr)))"

definition reconcile_once ::
  "ControllerScope \<Rightarrow> u64 \<Rightarrow> LifecyclePolicy \<Rightarrow> 'w LifecycleRecordStore \<Rightarrow> 'w HostLifecycleControl \<Rightarrow>
   'w ProductLifecycleControl \<Rightarrow> ('w, 'x) LifecycleEffects_scheme \<Rightarrow> 'w reconcile" where
  "reconcile_once scope tok p S H P E =
     bindE (map_errE RecordErr (load S (scope_workload_id scope))) (\<lambda>current.
     bindE (liftE (map_err (\<lambda>_. InvalidRecordErr) (validate current))) (\<lambda>_.
     bindE (liftE (validate_authority scope tok current)) (\<lambda>_.
     bindE (liftE (validate_strategy p current)) (\<lambda>_.
     (case state current of
        PQuiescing \<Rightarrow> recover_quiesce tok current S P
      | PRunning \<Rightarrow> reconcile_stable tok p current S H P E
      | PFrozen \<Rightarrow> reconcile_stable tok p current S H P E
      | PHibernated \<Rightarrow> reconcile_stable tok p current S H P E
      | _ \<Rightarrow> throwE (RecoveryRequired (state current)))))))"

lemmas reconcile_defs =
  reconcile_once_def reconcile_stable_def recover_quiesce_def suspend_from_running_def suspend_effect_def
  cancel_suspend_for_demand_def resume_frozen_def restore_hibernated_def persist_def

lemma next_record_simps [simp]:
  "workload_id (next_record r t s c) = workload_id r"
  "assigned_node (next_record r t s c) = assigned_node r"
  "placement_epoch (next_record r t s c) = placement_epoch r"
  "runtime_epoch (next_record r t s c) = runtime_epoch r"
  "fencing_token (next_record r t s c) = t"
  "revision (next_record r t s c) = saturating_add (revision r) 1"
  "state (next_record r t s c) = s"
  "strategy (next_record r t s c) = strategy r"
  "checkpoint (next_record r t s c) = c"
  by (simp_all add: next_record_def)

lemma to_strategy_eq_iff [simp]:
  "to_strategy s = Freeze \<longleftrightarrow> s = PFreeze" "to_strategy s = Hibernate \<longleftrightarrow> s = PHibernate"
  "Freeze = to_strategy s \<longleftrightarrow> s = PFreeze" "Hibernate = to_strategy s \<longleftrightarrow> s = PHibernate"
  by (cases s; simp)+

text \<open>When a step record is accepted as an update.\<close>

lemma update_ok_next_record:
  assumes "valid_record r" and "fencing_token r \<le> t" and "t \<noteq> 0"
  shows "update_ok r (next_record r t s c) \<longleftrightarrow>
     revision r \<noteq> - 1 \<and> valid_record (next_record r t s c)"
  using assms by (auto simp: update_ok_def saturating_add_one_gt)

text \<open>\<open>suspend_effect\<close> and \<open>reconcile_stable\<close> with the decision of the policy evaluated.\<close>

lemma suspend_effect_Freeze:
  assumes "policy_strategy p = Freeze"
  shows "suspend_effect tok p q S E =
    (let intent = next_record q tok PFreezing None; frozen = next_record intent tok PFrozen None in
     bindE (persist S q intent) (\<lambda>_. bindE (map_errE EffectErr (freeze E)) (\<lambda>_.
       bindE (persist S intent frozen) (\<lambda>_. returnE Suspended))))"
  using assms by (simp add: suspend_effect_def decision_defs Let_def bindE_def liftE_def)

lemma suspend_effect_Hibernate:
  assumes "policy_strategy p = Hibernate"
  shows "suspend_effect tok p q S E =
    (let intent = next_record q tok PCheckpointing None in
     bindE (persist S q intent) (\<lambda>_. bindE (map_errE EffectErr (checkpoint_and_terminate E)) (\<lambda>ck.
       bindE (persist S intent (next_record intent tok PHibernated (Some ck))) (\<lambda>_. returnE Suspended))))"
  using assms by (simp add: suspend_effect_def decision_defs Let_def bindE_def liftE_def)

lemma reconcile_stable_cases:
  "state r = PRunning \<Longrightarrow> reconcile_stable tok p r S H P E =
     bindE (map_errE HostErr (observe H)) (\<lambda>a.
       if is_idle_for a (minimum_idle_ms p) then suspend_from_running tok p r S H P E else returnE NoChange)"
  "state r = PFrozen \<Longrightarrow> reconcile_stable tok p r S H P E =
     bindE (map_errE HostErr (observe H)) (\<lambda>a.
       if has_demand a then resume_frozen tok r S H P E else returnE NoChange)"
  "state r = PHibernated \<Longrightarrow> reconcile_stable tok p r S H P E =
     bindE (map_errE HostErr (observe H)) (\<lambda>a.
       if has_demand a then restore_hibernated tok r S H P E else returnE NoChange)"
  by (auto simp: reconcile_stable_def to_policy_state_def decision_defs bindE_def liftE_def fun_eq_iff
      split: prod.splits sum.splits)

text \<open>The edges of the policy between persisted states.\<close>

definition policy_edge :: "LifecyclePolicy \<Rightarrow> LifecycleRecord \<Rightarrow> LifecycleRecord \<Rightarrow> bool" where
  "policy_edge p e n \<longleftrightarrow>
     (\<exists>ev d. decide (to_policy_state e) p ev = Ok d \<and> next_state d = to_policy_state n)"

lemma policy_edgeI: "decide (to_policy_state e) p ev = Ok (transition (to_policy_state n) a) \<Longrightarrow> policy_edge p e n"
  unfolding policy_edge_def transition_def
  by (intro exI [of _ ev] exI [of _ "\<lparr>next_state = to_policy_state n, action = a\<rparr>"]) simp

definition some_demand :: ActivitySnapshot where
  "some_demand = \<lparr>queue_depth = 1, in_flight = 0, idle_for_ms = 0\<rparr>"

definition long_idle :: ActivitySnapshot where
  "long_idle = \<lparr>queue_depth = 0, in_flight = 0, idle_for_ms = - 1\<rparr>"

lemma some_demand [simp]: "has_demand some_demand"
  by (simp add: some_demand_def has_demand_def)

lemma long_idle [simp]: "is_idle_for long_idle m"
  by (simp add: long_idle_def is_idle_for_def has_demand_def)

lemma policy_edges:
  assumes "policy_strategy p = to_strategy (strategy e)"
  shows "state e = PRunning \<Longrightarrow> policy_edge p e (next_record e t PQuiescing c)"
    and "state e = PQuiescing \<Longrightarrow> policy_edge p e (next_record e t PRunning c)"
    and "state e = PQuiescing \<Longrightarrow> strategy e = PFreeze \<Longrightarrow> policy_edge p e (next_record e t PFreezing c)"
    and "state e = PQuiescing \<Longrightarrow> strategy e = PHibernate \<Longrightarrow> policy_edge p e (next_record e t PCheckpointing c)"
    and "state e = PFreezing \<Longrightarrow> policy_edge p e (next_record e t PFrozen c)"
    and "state e = PCheckpointing \<Longrightarrow> policy_edge p e (next_record e t PHibernated c)"
    and "state e = PFrozen \<Longrightarrow> policy_edge p e (next_record e t PThawing c)"
    and "state e = PHibernated \<Longrightarrow> policy_edge p e (next_record e t PRestoring c)"
    and "state e = PThawing \<Longrightarrow> policy_edge p e (next_record e t PRunning c)"
    and "state e = PRestoring \<Longrightarrow> policy_edge p e (next_record e t PRunning c)"
  using assms
  by (auto simp: to_policy_state_def decision_defs
      intro: policy_edgeI [where ev = "Observe long_idle" and a = BeginQuiesce]
        policy_edgeI [where ev = "Observe some_demand" and a = CancelQuiesce]
        policy_edgeI [where ev = "Observe some_demand" and a = Thaw]
        policy_edgeI [where ev = "Observe some_demand" and a = Restore]
        policy_edgeI [where ev = QuiesceSucceeded and a = DoFreeze]
        policy_edgeI [where ev = QuiesceSucceeded and a = CheckpointAndTerminate]
        policy_edgeI [where ev = FreezeSucceeded and a = NoAction]
        policy_edgeI [where ev = CheckpointSucceeded and a = NoAction]
        policy_edgeI [where ev = ResumeSucceeded and a = NoAction])

end
