(* ===== verification/Lifecycle_Trace.thy ===== *)
theory Lifecycle_Trace
  imports Lifecycle_Agent
begin

section \<open>The calls of one reconciliation\<close>

text \<open>
  \<open>reconcile_once\<close> is run against traits that log every call with its result. Erasing the log gives
  the run against the original traits (\<open>reconcile_trace_erases\<close>), so a fact about the log is a fact
  about the code for every implementation of the traits, a hostile one included. The monitors below
  are executable functions on logs; each property says that the log of every reconciliation passes
  one of them.
\<close>

datatype call =
    CallLoad string "string + LifecycleRecord"
  | CallReplace LifecycleRecord LifecycleRecord "string + unit"
  | CallObserve "string + ActivitySnapshot"
  | CallVerify "string + unit"
  | CallQuiesce "string + ProductQuiesceOutcome"
  | CallCancel "string + unit"
  | CallFreeze "string + unit"
  | CallThaw "string + unit"
  | CallCheckpoint "string + LifecycleCheckpoint"
  | CallRestore LifecycleCheckpoint "string + unit"
  | CallStatus "string + FreezeTransitionStatus"

type_synonym 'w logged = "'w \<times> call list"

definition traced :: "('r \<Rightarrow> call) \<Rightarrow> ('w \<Rightarrow> 'r \<times> 'w) \<Rightarrow> 'w logged \<Rightarrow> 'r \<times> 'w logged" where
  "traced c m = (\<lambda>(w, tr). case m w of (r, w') \<Rightarrow> (r, (w', tr @ [c r])))"

definition traced_store :: "'w LifecycleRecordStore \<Rightarrow> 'w logged LifecycleRecordStore" where
  "traced_store S =
     \<lparr>load = (\<lambda>i. traced (CallLoad i) (load S i)),
      replace = (\<lambda>e n. traced (CallReplace e n) (replace S e n))\<rparr>"

definition traced_host :: "'w HostLifecycleControl \<Rightarrow> 'w logged HostLifecycleControl" where
  "traced_host H = \<lparr>observe = traced CallObserve (observe H), verify_ready = traced CallVerify (verify_ready H)\<rparr>"

definition traced_product :: "'w ProductLifecycleControl \<Rightarrow> 'w logged ProductLifecycleControl" where
  "traced_product P =
     \<lparr>quiesce = traced CallQuiesce (quiesce P), cancel_quiesce = traced CallCancel (cancel_quiesce P)\<rparr>"

definition traced_effects :: "('w, 'x) LifecycleEffects_scheme \<Rightarrow> 'w logged LifecycleEffects" where
  "traced_effects E =
     \<lparr>freeze = traced CallFreeze (freeze E), thaw = traced CallThaw (thaw E),
      checkpoint_and_terminate = traced CallCheckpoint (checkpoint_and_terminate E),
      restore = (\<lambda>c. traced (CallRestore c) (restore E c))\<rparr>"

lemmas traced_defs = traced_store_def traced_host_def traced_product_def traced_effects_def

lemma wpE_traced [wpE_simps]:
  "wpE (traced c m) Q (w, tr) = wpE m (\<lambda>r w'. Q r (w', tr @ [c r])) w"
  by (simp add: traced_def wpE_def split: prod.splits)

text \<open>A call to an unknown implementation may return anything.\<close>

lemma wpE_any: "(\<And>r w'. Q r w') \<Longrightarrow> wpE m Q w"
  by (simp add: wpE_def split: prod.splits)

lemmas wpE_calls =
  wpE_any [where m = "load S i" for S i] wpE_any [where m = "replace S e n" for S e n]
  wpE_any [where m = "observe H" for H] wpE_any [where m = "verify_ready H" for H]
  wpE_any [where m = "quiesce P" for P] wpE_any [where m = "cancel_quiesce P" for P]
  wpE_any [where m = "freeze E" for E] wpE_any [where m = "thaw E" for E]
  wpE_any [where m = "checkpoint_and_terminate E" for E] wpE_any [where m = "restore E c" for E c]

subsection \<open>The log is transparent\<close>

definition erases :: "('w, 'e, 'a) eff \<Rightarrow> ('w logged, 'e, 'a) eff \<Rightarrow> bool" where
  "erases m m' \<longleftrightarrow> (\<forall>w tr. case m' (w, tr) of (r, (w', tr')) \<Rightarrow> m w = (r, w'))"

lemma erases_traced [intro!]: "erases m (traced c m)"
  by (auto simp: erases_def traced_def split: prod.splits)

lemma erases_returnE [intro!]: "erases (returnE a) (returnE a)"
  and erases_throwE [intro!]: "erases (throwE e) (throwE e)"
  and erases_liftE [intro!]: "erases (liftE r) (liftE r)"
  by (simp_all add: erases_def eff_defs)

lemma erases_bindE [intro!]:
  assumes "erases m m'" and "\<And>a. erases (k a) (k' a)"
  shows "erases (bindE m k) (bindE m' k')"
  unfolding erases_def
proof (intro allI)
  fix w tr
  obtain r w' tr' where m': "m' (w, tr) = (r, (w', tr'))"
    by (metis prod.exhaust)
  have m: "m w = (r, w')"
    using assms(1) [unfolded erases_def, rule_format, of w tr] m' by simp
  show "case bindE m' k' (w, tr) of (r, (w', tr')) \<Rightarrow> bindE m k w = (r, w')"
  proof (cases r)
    case (Inl e)
    with m m' show ?thesis by (simp add: bindE_def)
  next
    case (Inr a)
    with m m' show ?thesis
      using assms(2) [of a, unfolded erases_def, rule_format, of w' tr'] by (simp add: bindE_def)
  qed
qed

lemma erases_map_errE [intro!]: "erases m m' \<Longrightarrow> erases (map_errE f m) (map_errE f m')"
  unfolding erases_def map_errE_def by (fastforce split: prod.splits)

lemma erases_reconcile_once:
  "erases (reconcile_once scope tok p S H P E)
     (reconcile_once scope tok p (traced_store S) (traced_host H) (traced_product P) (traced_effects E))"
  unfolding reconcile_defs Let_def traced_defs
  by (auto split: PersistedLifecycleState.splits LifecycleAction.splits ProductQuiesceOutcome.splits)

text \<open>The log of one reconciliation that starts with an empty log.\<close>

definition reconcile_trace ::
  "ControllerScope \<Rightarrow> u64 \<Rightarrow> LifecyclePolicy \<Rightarrow> 'w LifecycleRecordStore \<Rightarrow> 'w HostLifecycleControl \<Rightarrow>
   'w ProductLifecycleControl \<Rightarrow> ('w, 'x) LifecycleEffects_scheme \<Rightarrow> 'w \<Rightarrow> call list" where
  "reconcile_trace scope tok p S H P E w =
     snd (snd (reconcile_once scope tok p (traced_store S) (traced_host H) (traced_product P)
                (traced_effects E) (w, [])))"

lemma reconcile_trace_wp:
  "Q (reconcile_trace scope tok p S H P E w) \<longleftrightarrow>
   wpE (reconcile_once scope tok p (traced_store S) (traced_host H) (traced_product P) (traced_effects E))
     (\<lambda>_ (w', tr). Q tr) (w, [])"
  by (simp add: reconcile_trace_def wpE_eq case_prod_beta)

lemma reconcile_trace_erases:
  "fst (reconcile_once scope tok p S H P E w) =
   fst (reconcile_once scope tok p (traced_store S) (traced_host H) (traced_product P)
          (traced_effects E) (w, []))"
  using erases_reconcile_once [of scope tok p S H P E, unfolded erases_def, rule_format, of w "[]"]
  by (simp split: prod.splits)

subsection \<open>Monitors\<close>

text \<open>
  A monitor is a partial step function on calls. It accepts a log when it can step through all of
  it: \<open>None\<close> is a violation.
\<close>

definition monitor :: "('m \<Rightarrow> call \<Rightarrow> 'm option) \<Rightarrow> 'm \<Rightarrow> call list \<Rightarrow> 'm option" where
  "monitor step s tr = foldl (\<lambda>o' c. Option.bind o' (\<lambda>s. step s c)) (Some s) tr"

definition accepts :: "('m \<Rightarrow> call \<Rightarrow> 'm option) \<Rightarrow> 'm \<Rightarrow> call list \<Rightarrow> bool" where
  "accepts step s tr \<longleftrightarrow> monitor step s tr \<noteq> None"

lemma monitor_Nil [simp]: "monitor step s [] = Some s"
  by (simp add: monitor_def)

lemma monitor_from_None [simp]: "foldl (\<lambda>o' c. Option.bind o' (\<lambda>s. step s c)) None tr = None"
  by (induction tr) auto

lemma monitor_Cons [simp]: "monitor step s (c # cs) = Option.bind (step s c) (\<lambda>s'. monitor step s' cs)"
  by (cases "step s c") (auto simp: monitor_def)

lemma monitor_append [simp]:
  "monitor step s (tr @ cs) = Option.bind (monitor step s tr) (\<lambda>s'. monitor step s' cs)"
  by (induction tr arbitrary: s) (auto split: bind_splits)

definition published :: "LifecycleRecord option \<Rightarrow> PersistedLifecycleState \<Rightarrow> bool" where
  "published cur st = (case cur of None \<Rightarrow> False | Some n \<Rightarrow> state n = st)"

lemma published_simps [simp]: "published None st = False" "published (Some n) st = (state n = st)"
  by (simp_all add: published_def)

text \<open>Write-ahead intent: a process effect runs only while its intent is the last published record.\<close>

fun intent_first :: "LifecycleRecord option \<Rightarrow> call \<Rightarrow> LifecycleRecord option option" where
  "intent_first cur (CallReplace e n r) = Some (if is_Err r then cur else Some n)"
| "intent_first cur (CallFreeze r) = (if published cur PFreezing then Some cur else None)"
| "intent_first cur (CallThaw r) = (if published cur PThawing then Some cur else None)"
| "intent_first cur (CallCheckpoint r) = (if published cur PCheckpointing then Some cur else None)"
| "intent_first cur (CallRestore c r) =
     (if published cur PRestoring \<and> checkpoint (the cur) = Some c then Some cur else None)"
| "intent_first cur _ = Some cur"

text \<open>
  A freeze or checkpoint runs only after the product reported a completed drain and the trusted host
  was observed, after that, without demand. The stages of that knowledge:
\<close>

datatype drain_stage = Undrained | ProductDrained | HostIdle

fun idle_before_suspend :: "drain_stage \<Rightarrow> call \<Rightarrow> drain_stage option" where
  "idle_before_suspend st (CallQuiesce r) =
     Some (if r = Ok Drained then ProductDrained else Undrained)"
| "idle_before_suspend st (CallObserve r) =
     Some (case r of Err _ \<Rightarrow> Undrained
           | Ok a \<Rightarrow> if st \<noteq> Undrained \<and> \<not> has_demand a then HostIdle else Undrained)"
| "idle_before_suspend st (CallFreeze r) = (if st = HostIdle then Some Undrained else None)"
| "idle_before_suspend st (CallCheckpoint r) = (if st = HostIdle then Some Undrained else None)"
| "idle_before_suspend st _ = Some st"

text \<open>
  \<open>running\<close> is published only for a product that was resumed, and a record leaves \<open>thawing\<close> or \<open>restoring\<close> only
  after the wake effect, the product resume and the host's readiness check succeeded, in this order. A quiesce closes
  the product, and what was confirmed counts for the next publication only.
\<close>

datatype wake_stage = Asleep | Woken | Opened | Reopened | Admitted

fun admitted_before_running :: "wake_stage \<Rightarrow> call \<Rightarrow> wake_stage option" where
  "admitted_before_running st (CallThaw r) = Some (if is_Err r then Asleep else Woken)"
| "admitted_before_running st (CallRestore c r) = Some (if is_Err r then Asleep else Woken)"
| "admitted_before_running st (CallQuiesce r) = Some Asleep"
| "admitted_before_running st (CallCancel r) =
     Some (if is_Err r then Asleep else if st = Woken then Reopened else Opened)"
| "admitted_before_running st (CallVerify r) =
     Some (if \<not> is_Err r \<and> st = Reopened then Admitted else Asleep)"
| "admitted_before_running st (CallReplace e n r) =
     (if state e \<in> {PThawing, PRestoring} \<and> st \<noteq> Admitted
         \<or> state n = PRunning \<and> st \<notin> {Opened, Reopened, Admitted}
      then None else Some Asleep)"
| "admitted_before_running st _ = Some st"

text \<open>
  The records offered to the store form a chain that starts at the loaded record; each link is an
  accepted update of the same incarnation under the caller's fence and a transition of the policy.
\<close>

definition chain_link :: "u64 \<Rightarrow> LifecyclePolicy \<Rightarrow> LifecycleRecord \<Rightarrow> LifecycleRecord \<Rightarrow> bool" where
  "chain_link tok p e n \<longleftrightarrow>
     update_ok e n \<and> fencing_token n = tok \<and> runtime_epoch n = runtime_epoch e
     \<and> strategy n = strategy e \<and> policy_edge p e n"

fun update_chain :: "u64 \<Rightarrow> LifecyclePolicy \<Rightarrow> LifecycleRecord option \<Rightarrow> call \<Rightarrow> LifecycleRecord option option" where
  "update_chain tok p cur (CallLoad i r) = Some (case r of Err _ \<Rightarrow> cur | Ok x \<Rightarrow> Some x)"
| "update_chain tok p cur (CallReplace e n r) =
     (if cur = Some e \<and> chain_link tok p e n then Some (Some n) else None)"
| "update_chain tok p cur _ = Some cur"

text \<open>A failed call is the last call: the monitor's state says whether a call failed.\<close>

fun call_failed :: "call \<Rightarrow> bool" where
  "call_failed (CallLoad i r) = is_Err r"
| "call_failed (CallReplace e n r) = is_Err r"
| "call_failed (CallObserve r) = is_Err r"
| "call_failed (CallVerify r) = is_Err r"
| "call_failed (CallQuiesce r) = is_Err r"
| "call_failed (CallCancel r) = is_Err r"
| "call_failed (CallFreeze r) = is_Err r"
| "call_failed (CallThaw r) = is_Err r"
| "call_failed (CallCheckpoint r) = is_Err r"
| "call_failed (CallRestore c r) = is_Err r"
| "call_failed (CallStatus r) = is_Err r"

definition fail_stop :: "bool \<Rightarrow> call \<Rightarrow> bool option" where
  "fail_stop failed c = (if failed then None else Some (call_failed c))"

subsection \<open>Every log passes the monitors\<close>

text \<open>
  \<open>passes step s0 A m\<close>: run from any log that the monitor accepts so far, in a monitor state
  satisfying \<open>A\<close>, the program leaves a log that the monitor accepts.
\<close>

definition passes ::
  "('m \<Rightarrow> call \<Rightarrow> 'm option) \<Rightarrow> 'm \<Rightarrow> ('m \<Rightarrow> bool) \<Rightarrow> ('w logged, 'e, 'a) eff \<Rightarrow> bool" where
  "passes step s0 A m \<longleftrightarrow>
     (\<forall>w tr s. monitor step s0 tr = Some s \<longrightarrow> A s \<longrightarrow>
        wpE m (\<lambda>_ (w', tr'). accepts step s0 tr') (w, tr))"

lemma passesD:
  "passes step s0 A m \<Longrightarrow> monitor step s0 tr = Some s \<Longrightarrow> A s \<Longrightarrow>
   wpE m (\<lambda>_ (w', tr'). accepts step s0 tr') (w, tr)"
  by (simp add: passes_def)

lemma passes_throwE: "passes step s0 A (throwE e)"
  and passes_returnE: "passes step s0 A (returnE a)"
  by (simp_all add: passes_def wpE_simps accepts_def)

lemma passes_liftE_bindE:
  "(\<And>a. r = Ok a \<Longrightarrow> passes step s0 A (k a)) \<Longrightarrow> passes step s0 A (bindE (liftE r) k)"
  by (cases r) (auto simp: passes_def wpE_simps accepts_def)

lemma passes_traced_bindE:
  assumes "\<And>s r. A s \<Longrightarrow> step s (c r) \<noteq> None"
    and "\<And>a. passes step s0 (\<lambda>s'. \<exists>s. A s \<and> step s (c (Ok a)) = Some s') (k a)"
  shows "passes step s0 A (bindE (map_errE f (traced c m)) k)"
  unfolding passes_def
proof (intro allI impI)
  fix w tr s
  assume tr: "monitor step s0 tr = Some s" and A: "A s"
  show "wpE (bindE (map_errE f (traced c m)) k) (\<lambda>_ (w', tr'). accepts step s0 tr') (w, tr)"
  proof (simp only: wpE_simps, rule wpE_any)
    fix r w'
    obtain s' where s': "step s (c r) = Some s'"
      using assms(1) [OF A, of r] by auto
    then have mon: "monitor step s0 (tr @ [c r]) = Some s'"
      using tr by simp
    show "case map_err f r of Err e \<Rightarrow> (\<lambda>(w', tr'). accepts step s0 tr') (w', tr @ [c r])
      | Ok a \<Rightarrow> wpE (k a) (\<lambda>_ (w', tr'). accepts step s0 tr') (w', tr @ [c r])"
    proof (cases r)
      case (Inl e)
      with mon show ?thesis by (simp add: accepts_def)
    next
      case (Inr a)
      with A s' have "\<exists>s. A s \<and> step s (c (Ok a)) = Some s'" by auto
      with mon Inr show ?thesis by (auto intro: passesD [OF assms(2)])
    qed
  qed
qed

text \<open>Persisting is one logged call when the update is admitted, and none otherwise.\<close>

lemma passes_persist_bindE:
  assumes "\<And>s r. A s \<Longrightarrow> update_ok e n \<Longrightarrow> step s (CallReplace e n r) \<noteq> None"
    and "update_ok e n \<Longrightarrow>
      passes step s0 (\<lambda>s'. \<exists>s. A s \<and> step s (CallReplace e n (Ok ())) = Some s') (k ())"
  shows "passes step s0 A (bindE (persist (traced_store S) e n) k)"
proof (cases "validate_record_update e n")
  case (Inl x)
  then show ?thesis by (simp add: persist_def passes_def wpE_simps accepts_def)
next
  case (Inr u)
  then have ok: "update_ok e n"
    by (simp add: validate_record_update_iff [symmetric])
  have "persist (traced_store S) e n = map_errE RecordErr (traced (CallReplace e n) (replace S e n))"
    using Inr by (simp add: persist_def traced_store_def bindE_def liftE_def)
  then show ?thesis
    using passes_traced_bindE [of A step "CallReplace e n"] assms ok by auto
qed

lemma passes_if: "(b \<Longrightarrow> passes step s0 A m) \<Longrightarrow> (\<not> b \<Longrightarrow> passes step s0 A n) \<Longrightarrow> passes step s0 A (if b then m else n)"
  by simp

lemma passes_weaken: "passes step s0 B m \<Longrightarrow> (\<And>s. A s \<Longrightarrow> B s) \<Longrightarrow> passes step s0 A m"
  by (simp add: passes_def)

lemma passes_outcome:
  "(out = DemandReturned \<Longrightarrow> passes step s0 A m) \<Longrightarrow> (out = Drained \<Longrightarrow> passes step s0 A n) \<Longrightarrow>
   passes step s0 A (case out of DemandReturned \<Rightarrow> m | Drained \<Rightarrow> n)"
  by (cases out) simp_all

lemmas passes_rules =
  passes_persist_bindE passes_traced_bindE passes_liftE_bindE passes_if passes_outcome passes_throwE passes_returnE

lemma traced_sels [simp]:
  "observe (traced_host H) = traced CallObserve (observe H)"
  "verify_ready (traced_host H) = traced CallVerify (verify_ready H)"
  "quiesce (traced_product P) = traced CallQuiesce (quiesce P)"
  "cancel_quiesce (traced_product P) = traced CallCancel (cancel_quiesce P)"
  "freeze (traced_effects E) = traced CallFreeze (freeze E)"
  "thaw (traced_effects E) = traced CallThaw (thaw E)"
  "checkpoint_and_terminate (traced_effects E) = traced CallCheckpoint (checkpoint_and_terminate E)"
  "restore (traced_effects E) c = traced (CallRestore c) (restore E c)"
  "load (traced_store S) i = traced (CallLoad i) (load S i)"
  by (simp_all add: traced_defs)

text \<open>
  The context of the chain monitor: the current record is the last of the chain, it is well formed,
  its fence is not newer than the caller's, and the policy has its strategy.
\<close>

definition at_record :: "u64 \<Rightarrow> LifecyclePolicy \<Rightarrow> LifecycleRecord \<Rightarrow> LifecycleRecord option \<Rightarrow> bool" where
  "at_record tok p r cur \<longleftrightarrow>
     cur = Some r \<and> fencing_token r \<le> tok \<and> policy_strategy p = to_strategy (strategy r)"

lemma chain_link_next:
  "update_ok r (next_record r tok st c) \<Longrightarrow> policy_edge p r (next_record r tok st c) \<Longrightarrow>
   chain_link tok p r (next_record r tok st c)"
  by (simp add: chain_link_def)

lemmas chain_simps = at_record_def chain_link_next policy_edges

lemma suspend_effect_passes:
  "passes intent_first None (\<lambda>_. True) (suspend_effect tok p r (traced_store S) (traced_effects E))"
  "passes idle_before_suspend Undrained (\<lambda>st. st = HostIdle)
     (suspend_effect tok p r (traced_store S) (traced_effects E))"
  "state r = PQuiescing \<Longrightarrow> passes admitted_before_running Asleep (\<lambda>_. True)
     (suspend_effect tok p r (traced_store S) (traced_effects E))"
  "state r = PQuiescing \<Longrightarrow> passes (update_chain tok p) None (at_record tok p r)
     (suspend_effect tok p r (traced_store S) (traced_effects E))"
  "passes fail_stop False (\<lambda>failed. \<not> failed)
     (suspend_effect tok p r (traced_store S) (traced_effects E))"
  by (cases "policy_strategy p";
      simp add: suspend_effect_Freeze suspend_effect_Hibernate Let_def;
      intro passes_rules; auto simp: chain_simps fail_stop_def)+

lemma cancel_suspend_passes:
  "passes intent_first None (\<lambda>_. True) (cancel_suspend_for_demand tok r (traced_store S) (traced_product P))"
  "passes idle_before_suspend Undrained (\<lambda>_. True)
     (cancel_suspend_for_demand tok r (traced_store S) (traced_product P))"
  "state r = PQuiescing \<Longrightarrow> passes admitted_before_running Asleep (\<lambda>_. True)
     (cancel_suspend_for_demand tok r (traced_store S) (traced_product P))"
  "state r = PQuiescing \<Longrightarrow> passes (update_chain tok p) None (at_record tok p r)
     (cancel_suspend_for_demand tok r (traced_store S) (traced_product P))"
  "passes fail_stop False (\<lambda>failed. \<not> failed)
     (cancel_suspend_for_demand tok r (traced_store S) (traced_product P))"
  unfolding cancel_suspend_for_demand_def Let_def traced_sels
  by (intro passes_rules; auto simp: chain_simps fail_stop_def split: if_splits)+

lemma recover_quiesce_passes:
  "passes intent_first None (\<lambda>_. True) (recover_quiesce tok r (traced_store S) (traced_product P))"
  "passes idle_before_suspend Undrained (\<lambda>_. True)
     (recover_quiesce tok r (traced_store S) (traced_product P))"
  "state r = PQuiescing \<Longrightarrow> passes admitted_before_running Asleep (\<lambda>_. True)
     (recover_quiesce tok r (traced_store S) (traced_product P))"
  "state r = PQuiescing \<Longrightarrow> passes (update_chain tok p) None (at_record tok p r)
     (recover_quiesce tok r (traced_store S) (traced_product P))"
  "passes fail_stop False (\<lambda>failed. \<not> failed)
     (recover_quiesce tok r (traced_store S) (traced_product P))"
  unfolding recover_quiesce_def Let_def traced_sels
  by (intro passes_rules; auto simp: chain_simps fail_stop_def split: if_splits)+

lemma suspend_from_running_passes:
  "passes intent_first None (\<lambda>_. True)
     (suspend_from_running tok p r (traced_store S) (traced_host H) (traced_product P) (traced_effects E))"
  "passes idle_before_suspend Undrained (\<lambda>_. True)
     (suspend_from_running tok p r (traced_store S) (traced_host H) (traced_product P) (traced_effects E))"
  "state r = PRunning \<Longrightarrow> passes admitted_before_running Asleep (\<lambda>_. True)
     (suspend_from_running tok p r (traced_store S) (traced_host H) (traced_product P) (traced_effects E))"
  "state r = PRunning \<Longrightarrow> passes (update_chain tok p) None (at_record tok p r)
     (suspend_from_running tok p r (traced_store S) (traced_host H) (traced_product P) (traced_effects E))"
  "passes fail_stop False (\<lambda>failed. \<not> failed)
     (suspend_from_running tok p r (traced_store S) (traced_host H) (traced_product P) (traced_effects E))"
  unfolding suspend_from_running_def Let_def traced_sels
  by (intro passes_rules suspend_effect_passes [THEN passes_weaken] cancel_suspend_passes [THEN passes_weaken];
      auto simp: chain_simps fail_stop_def)+

lemma resume_frozen_passes:
  "passes intent_first None (\<lambda>_. True)
    (resume_frozen tok r (traced_store S) (traced_host H) (traced_product P) (traced_effects E))"
  "passes idle_before_suspend Undrained (\<lambda>_. True)
    (resume_frozen tok r (traced_store S) (traced_host H) (traced_product P) (traced_effects E))"
  "state r = PFrozen \<Longrightarrow> passes admitted_before_running Asleep (\<lambda>_. True)
    (resume_frozen tok r (traced_store S) (traced_host H) (traced_product P) (traced_effects E))"
  "state r = PFrozen \<Longrightarrow> passes (update_chain tok p) None (at_record tok p r)
    (resume_frozen tok r (traced_store S) (traced_host H) (traced_product P) (traced_effects E))"
  "passes fail_stop False (\<lambda>failed. \<not> failed)
    (resume_frozen tok r (traced_store S) (traced_host H) (traced_product P) (traced_effects E))"
  unfolding resume_frozen_def Let_def traced_sels
  by (intro passes_rules; auto simp: chain_simps fail_stop_def)+

lemma restore_hibernated_passes:
  "passes intent_first None (\<lambda>_. True)
    (restore_hibernated tok r (traced_store S) (traced_host H) (traced_product P) (traced_effects E))"
  "passes idle_before_suspend Undrained (\<lambda>_. True)
    (restore_hibernated tok r (traced_store S) (traced_host H) (traced_product P) (traced_effects E))"
  "state r = PHibernated \<Longrightarrow> passes admitted_before_running Asleep (\<lambda>_. True)
    (restore_hibernated tok r (traced_store S) (traced_host H) (traced_product P) (traced_effects E))"
  "state r = PHibernated \<Longrightarrow> passes (update_chain tok p) None (at_record tok p r)
    (restore_hibernated tok r (traced_store S) (traced_host H) (traced_product P) (traced_effects E))"
  "passes fail_stop False (\<lambda>failed. \<not> failed)
    (restore_hibernated tok r (traced_store S) (traced_host H) (traced_product P) (traced_effects E))"
  unfolding restore_hibernated_def Let_def traced_sels
  by (intro passes_rules; auto simp: chain_simps fail_stop_def)+

lemma reconcile_stable_passes:
  assumes "state r \<in> {PRunning, PFrozen, PHibernated}"
  shows
  "passes intent_first None (\<lambda>_. True)
    (reconcile_stable tok p r (traced_store S) (traced_host H) (traced_product P) (traced_effects E))"
  "passes idle_before_suspend Undrained (\<lambda>_. True)
    (reconcile_stable tok p r (traced_store S) (traced_host H) (traced_product P) (traced_effects E))"
  "passes admitted_before_running Asleep (\<lambda>_. True)
    (reconcile_stable tok p r (traced_store S) (traced_host H) (traced_product P) (traced_effects E))"
  "passes (update_chain tok p) None (at_record tok p r)
    (reconcile_stable tok p r (traced_store S) (traced_host H) (traced_product P) (traced_effects E))"
  "passes fail_stop False (\<lambda>failed. \<not> failed)
    (reconcile_stable tok p r (traced_store S) (traced_host H) (traced_product P) (traced_effects E))"
  using assms
  by (elim insertE emptyE;
      simp only: reconcile_stable_cases traced_sels;
      intro passes_traced_bindE passes_if passes_returnE suspend_from_running_passes [THEN passes_weaken]
        resume_frozen_passes [THEN passes_weaken] restore_hibernated_passes [THEN passes_weaken];
      auto simp: fail_stop_def at_record_def)+

lemma passes_state_case:
  assumes "state r = PQuiescing \<Longrightarrow> passes step s0 A q"
    and "state r \<in> {PRunning, PFrozen, PHibernated} \<Longrightarrow> passes step s0 A m"
  shows "passes step s0 A (case state r of PQuiescing \<Rightarrow> q | PRunning \<Rightarrow> m | PFrozen \<Rightarrow> m
     | PHibernated \<Rightarrow> m | _ \<Rightarrow> throwE e)"
  using assms by (cases "state r") (auto intro: passes_throwE)

lemma authority_fence: "validate_authority scope tok r = Ok u \<Longrightarrow> fencing_token r \<le> tok"
  by (auto simp: validate_authority_def split: if_splits)

lemma strategy_matches: "validate_strategy p r = Ok u \<Longrightarrow> policy_strategy p = to_strategy (strategy r)"
  by (auto simp: validate_strategy_def split: if_splits)

lemma reconcile_once_passes:
  "passes intent_first None (\<lambda>_. True)
    (reconcile_once scope tok p (traced_store S) (traced_host H) (traced_product P) (traced_effects E))"
  "passes idle_before_suspend Undrained (\<lambda>_. True)
    (reconcile_once scope tok p (traced_store S) (traced_host H) (traced_product P) (traced_effects E))"
  "passes admitted_before_running Asleep (\<lambda>_. True)
    (reconcile_once scope tok p (traced_store S) (traced_host H) (traced_product P) (traced_effects E))"
  "passes (update_chain tok p) None (\<lambda>_. True)
    (reconcile_once scope tok p (traced_store S) (traced_host H) (traced_product P) (traced_effects E))"
  "passes fail_stop False (\<lambda>failed. \<not> failed)
    (reconcile_once scope tok p (traced_store S) (traced_host H) (traced_product P) (traced_effects E))"
  unfolding reconcile_once_def traced_sels
  by (intro passes_rules passes_state_case recover_quiesce_passes [THEN passes_weaken]
        reconcile_stable_passes [THEN passes_weaken];
      auto simp: at_record_def fail_stop_def dest: authority_fence strategy_matches)+

lemma reconcile_trace_accepted:
  assumes "passes step s0 A
    (reconcile_once scope tok p (traced_store S) (traced_host H) (traced_product P) (traced_effects E))"
    and "A s0"
  shows "accepts step s0 (reconcile_trace scope tok p S H P E w)"
  using passesD [OF assms(1), of "[]" s0 w] assms(2)
  by (simp add: reconcile_trace_wp [where Q = "accepts step s0"])

subsection \<open>Runs in which every call answers\<close>

text \<open>
  \<open>answers m\<close>: the call \<open>m\<close> succeeds in every world. \<open>runs m Q\<close>: so does the logged program \<open>m\<close>, and \<open>Q\<close> holds of what
  it returns and of the calls that it adds to the log, with their results.
\<close>

definition answers :: "('w, 'e, 'a) eff \<Rightarrow> bool" where
  "answers m \<longleftrightarrow> (\<forall>w. \<not> is_Err (fst (m w)))"

lemma answersE: "answers m \<Longrightarrow> (\<And>a w'. m w = (Ok a, w') \<Longrightarrow> thesis) \<Longrightarrow> thesis"
  by (metis answers_def is_Err_simps(1) obj_sumE prod.collapse)

lemma answers_returnE [simp]: "answers (returnE a)"
  by (simp add: answers_def returnE_def)

definition runs :: "('w logged, 'e, 'a) eff \<Rightarrow> ('a \<Rightarrow> call list \<Rightarrow> bool) \<Rightarrow> bool" where
  "runs m Q \<longleftrightarrow> (\<forall>w l. \<exists>x w' cs. m (w, l) = (Ok x, (w', l @ cs)) \<and> Q x cs)"

lemma runsE:
  assumes "runs m Q"
  obtains x w' cs where "m (w, l) = (Ok x, (w', l @ cs))" "Q x cs"
  using assms unfolding runs_def by blast

lemma runs_weaken: "runs m Q \<Longrightarrow> (\<And>x cs. Q x cs \<Longrightarrow> Q' x cs) \<Longrightarrow> runs m Q'"
  unfolding runs_def by meson

lemma runs_returnE: "Q x [] \<Longrightarrow> runs (returnE x) Q"
  by (simp add: runs_def returnE_def)

lemma runs_call:
  assumes "answers m" and "\<And>a w w'. m w = (Ok a, w') \<Longrightarrow> runs (k a) (\<lambda>x cs. Q x (c (Ok a) # cs))"
  shows "runs (bindE (map_errE f (traced c m)) k) Q"
  unfolding runs_def
proof (intro allI)
  fix w l
  obtain a w1 where m: "m w = (Ok a, w1)"
    using assms(1) by (rule answersE)
  obtain x w2 cs where k: "k a (w1, l @ [c (Ok a)]) = (Ok x, (w2, (l @ [c (Ok a)]) @ cs))" "Q x (c (Ok a) # cs)"
    using assms(2) [OF m] by (rule runsE)
  have "bindE (map_errE f (traced c m)) k (w, l) = (Ok x, (w2, l @ (c (Ok a) # cs)))"
    using m k(1) by (simp add: bindE_def map_errE_def traced_def)
  with k(2) show "\<exists>x w' cs. bindE (map_errE f (traced c m)) k (w, l) = (Ok x, (w', l @ cs)) \<and> Q x cs"
    by blast
qed

text \<open>\<open>steps_left n tok r\<close>: a valid record that a controller with token \<open>tok\<close> may advance, with \<open>n\<close> revisions left.\<close>

definition steps_left :: "nat \<Rightarrow> u64 \<Rightarrow> LifecycleRecord \<Rightarrow> bool" where
  "steps_left n tok r \<longleftrightarrow>
     valid_record r \<and> fencing_token r \<le> tok \<and> tok \<noteq> 0 \<and> unat (revision r) + n < 2 ^ 64"

lemma steps_left_mono: "steps_left n tok r \<Longrightarrow> k \<le> n \<Longrightarrow> steps_left k tok r"
  by (simp add: steps_left_def)

lemma steps_left_revision: "steps_left (Suc n) tok r \<Longrightarrow> revision r \<noteq> - 1"
  by (auto simp: steps_left_def unat_max_u64)

lemma steps_left_next:
  assumes "steps_left (Suc n) tok r" and "state_shape_wf (next_record r tok s c)"
    and "\<And>k. c = Some k \<Longrightarrow> checkpoint_wf k"
  shows "update_ok r (next_record r tok s c)" "steps_left n tok (next_record r tok s c)"
proof -
  have r: "valid_record r" "fencing_token r \<le> tok" "tok \<noteq> 0" "unat (revision r) + Suc n < 2 ^ 64"
    using assms(1) by (simp_all add: steps_left_def)
  have v: "valid_record (next_record r tok s c)"
    using r assms(2,3) by (auto simp: valid_record_def saturating_add_one_nonzero)
  then show "update_ok r (next_record r tok s c)"
    using r steps_left_revision [OF assms(1)] by (simp add: update_ok_next_record)
  show "steps_left n tok (next_record r tok s c)"
    using v r by (simp add: steps_left_def unat_saturating_add)
qed

lemma runs_persist:
  assumes "\<And>e n. answers (replace S e n)" and "steps_left (Suc n) tok r"
    and "state_shape_wf (next_record r tok s c)" and "\<And>k. c = Some k \<Longrightarrow> checkpoint_wf k"
    and "steps_left n tok (next_record r tok s c) \<Longrightarrow>
      runs m (\<lambda>x cs. Q x (CallReplace r (next_record r tok s c) (Ok ()) # cs))"
  shows "runs (bindE (persist (traced_store S) r (next_record r tok s c)) (\<lambda>_. m)) Q"
proof -
  have "validate_record_update r (next_record r tok s c) = Ok ()"
    using steps_left_next(1) [OF assms(2-4)] by (simp add: validate_record_update_iff)
  then have "persist (traced_store S) r (next_record r tok s c) =
      map_errE RecordErr (traced (CallReplace r (next_record r tok s c)) (replace S r (next_record r tok s c)))"
    by (simp add: persist_def traced_store_def bindE_def liftE_def)
  then show ?thesis
    using runs_call [OF assms(1)] assms(5) [OF steps_left_next(2) [OF assms(2-4)]] by simp
qed

text \<open>The record that a successful step publishes, as long as the revision does not saturate.\<close>

definition advanced_record ::
  "u64 \<Rightarrow> PersistedLifecycleState \<Rightarrow> LifecycleCheckpoint option \<Rightarrow> LifecycleRecord \<Rightarrow> LifecycleRecord" where
  "advanced_record tok s c r = r\<lparr>fencing_token := tok, revision := revision r + 1, state := s, checkpoint := c\<rparr>"

lemma advanced_next: "unat (revision r) + 1 < 2 ^ 64 \<Longrightarrow> advanced_record tok s c r = next_record r tok s c"
  by (simp add: advanced_record_def next_record_def saturating_add_def)

text \<open>What makes a loaded record untouchable for a controller.\<close>

definition no_authority :: "ControllerScope \<Rightarrow> u64 \<Rightarrow> LifecycleRecord \<Rightarrow> bool" where
  "no_authority scope tok r \<longleftrightarrow>
     assigned_node r \<noteq> scope_node scope \<or> placement_epoch r \<noteq> scope_placement_epoch scope
     \<or> runtime_epoch r \<noteq> scope_runtime_epoch scope \<or> tok < fencing_token r
     \<or> state r \<in> {PFreezing, PCheckpointing, PThawing, PRestoring}"

subsection \<open>Properties\<close>

text \<open>
  C8: write-ahead intent. For every store, host, product and effect implementation, in the calls of
  one reconciliation a freeze is issued only while the last successfully published record is
  \<open>freezing\<close>, a thaw only under \<open>thawing\<close>, a checkpoint only under \<open>checkpointing\<close>, and a restore only
  under \<open>restoring\<close> and only of the checkpoint that this record names.
\<close>

theorem effects_follow_published_intent:
  "accepts intent_first None (reconcile_trace scope tok p S H P E w)"
  by (rule reconcile_trace_accepted [OF reconcile_once_passes(1)]) simp

text \<open>
  C9: a tenant that lies about its drain cannot get itself suspended while there is trusted demand.
  For every implementation of the traits, a freeze or a checkpoint is issued only after the product
  reported a completed drain and a later observation of the trusted host showed no queued and no
  in-flight work.
\<close>

theorem suspend_only_after_trusted_idle:
  "accepts idle_before_suspend Undrained (reconcile_trace scope tok p S H P E w)"
  by (rule reconcile_trace_accepted [OF reconcile_once_passes(2)]) simp

text \<open>
  C10: no routing before the product is open and ready. For every implementation of the traits, a record with the state
  \<open>running\<close> is offered to the store only after the product's resume succeeded, with no quiesce and no other
  publication since; and a replacement of a \<open>thawing\<close> or \<open>restoring\<close> record only after, in this order and since that
  record was published, the thaw or restore, the product's resume and the host's readiness check have all succeeded.
\<close>

theorem running_only_after_admission:
  "accepts admitted_before_running Asleep (reconcile_trace scope tok p S H P E w)"
  by (rule reconcile_trace_accepted [OF reconcile_once_passes(3)]) simp

text \<open>
  what is offered to the store refines the policy. The first replacement expects the loaded
  record and every later one expects the record offered just before; each is an update that
  \<open>validate_record_update\<close> admits, carries exactly the caller's fencing token, keeps the runtime
  incarnation and the strategy, and moves the lifecycle state along a transition of \<open>decide\<close>.
\<close>

theorem offered_records_refine_policy:
  "accepts (update_chain tok p) None (reconcile_trace scope tok p S H P E w)"
  by (rule reconcile_trace_accepted [OF reconcile_once_passes(4)]) simp

text \<open>
  fail-stop. For every implementation of the traits, nothing is called after a call that failed.
\<close>

theorem nothing_after_a_failed_call:
  "accepts fail_stop False (reconcile_trace scope tok p S H P E w)"
  by (rule reconcile_trace_accepted [OF reconcile_once_passes(5)]) simp

text \<open>
  a controller without authority only reads. If the loaded record is valid but placed on
  another node or placement, belongs to another runtime incarnation, or was written under a newer
  fence, or if its state is a pending process effect, then the reconciliation returns an error and
  loading the record is its only call.
\<close>

theorem controller_without_authority_only_reads:
  assumes "load S (scope_workload_id scope) w = (Ok r, w1)" and "no_authority scope tok r"
  shows "is_Err (fst (reconcile_once scope tok p S H P E w))
     \<and> snd (reconcile_once scope tok p S H P E w) = w1
     \<and> reconcile_trace scope tok p S H P E w = [CallLoad (scope_workload_id scope) (Ok r)]"
proof (cases "validate r = Ok () \<and> validate_authority scope tok r = Ok () \<and> validate_strategy p r = Ok ()")
  case True
  then have "state r \<in> {PFreezing, PCheckpointing, PThawing, PRestoring}"
    using assms(2) by (auto simp: no_authority_def validate_authority_def split: if_splits)
  then show ?thesis
    using assms(1) True
    by (auto simp: reconcile_once_def reconcile_trace_def traced_def eff_defs)
next
  case False
  then show ?thesis
    using assms(1)
    by (cases "validate r"; cases "validate_authority scope tok r"; cases "validate_strategy p r")
       (auto simp: reconcile_once_def reconcile_trace_def traced_def eff_defs)
qed

text \<open>A record, scope and traits for the witness: every call succeeds and changes nothing.\<close>

definition calm_store :: "LifecycleRecord \<Rightarrow> 'w LifecycleRecordStore" where
  "calm_store r = \<lparr>load = (\<lambda>_. returnE r), replace = (\<lambda>_ _. returnE ())\<rparr>"

definition calm_host :: "ActivitySnapshot \<Rightarrow> 'w HostLifecycleControl" where
  "calm_host a = \<lparr>observe = returnE a, verify_ready = returnE ()\<rparr>"

definition calm_product :: "ProductQuiesceOutcome \<Rightarrow> 'w ProductLifecycleControl" where
  "calm_product out = \<lparr>quiesce = returnE out, cancel_quiesce = returnE ()\<rparr>"

definition calm_effects :: "LifecycleCheckpoint \<Rightarrow> 'w LifecycleEffects" where
  "calm_effects ck = \<lparr>freeze = returnE (), thaw = returnE (), checkpoint_and_terminate = returnE ck,
     restore = (\<lambda>_. returnE ())\<rparr>"

definition sample_scope :: "u64 \<Rightarrow> ControllerScope" where
  "sample_scope re = \<lparr>scope_workload_id = ''tenant-42'', scope_node = ''node-a'',
     scope_placement_epoch = 7, scope_runtime_epoch = re\<rparr>"

lemmas calm_defs = calm_store_def calm_host_def calm_product_def calm_effects_def

theorem controller_without_authority_only_reads_witness:
  "let r = sample_record 13 19 11 PRunning;
       run = reconcile_once (sample_scope 13) 18 \<lparr>policy_strategy = Freeze, minimum_idle_ms = 1000\<rparr>
               (calm_store r) (calm_host long_idle) (calm_product Drained) (calm_effects undefined)
   in no_authority (sample_scope 13) 18 r \<and> is_Err (fst (run ()))"
proof -
  let ?r = "sample_record 13 19 11 PRunning"
  let ?p = "\<lparr>policy_strategy = Freeze, minimum_idle_ms = 1000\<rparr>"
  have l: "load (calm_store ?r) (scope_workload_id (sample_scope 13)) () = (Ok ?r, ())"
    by (simp add: calm_store_def returnE_def)
  have n: "no_authority (sample_scope 13) 18 ?r"
    by (simp add: no_authority_def sample_scope_def sample_record_def)
  from n controller_without_authority_only_reads [OF l n, of ?p "calm_host long_idle"
      "calm_product Drained" "calm_effects undefined"]
  show ?thesis by simp
qed

end
