(* ===== verification/Lifecycle_Store.thy ===== *)
theory Lifecycle_Store
  imports Lifecycle_Agent
begin

section \<open>The contract of the durable record store\<close>

text \<open>
  \<open>LifecycleRecordStore\<close> of \<open>src/src/process_lifecycle_agent.rs\<close> asks its implementations for an atomic
  compare-and-set. The locale \<open>lifecycle_record_store\<close> states what the agent relies on, against an
  abstraction \<open>stored\<close> of the world to the records by workload: a load returns what is stored; a
  successful replace swapped exactly the expected record for the next one; a failed replace either
  changed nothing or did that same swap (an implementation may publish the record and then fail to
  confirm it). The locale \<open>managed_workload\<close> adds that the other traits leave the store alone.

  The client lemmas say what is stored after a reconciliation: a later record of the same history,
  in the state that the outcome names, with every other workload untouched.
\<close>

locale lifecycle_record_store =
  fixes S :: "'w LifecycleRecordStore"
    and stored :: "'w \<Rightarrow> string \<Rightarrow> LifecycleRecord option"
    and wf :: "'w \<Rightarrow> bool"
  assumes load_ok: "wf w \<Longrightarrow> load S i w = (Ok r, w') \<Longrightarrow> stored w i = Some r \<and> workload_id r = i"
    and load_frame: "wf w \<Longrightarrow> load S i w = (l, w') \<Longrightarrow> wf w' \<and> stored w' = stored w"
    and replace_ok: "wf w \<Longrightarrow> replace S e n w = (Ok (), w') \<Longrightarrow>
      stored w (workload_id e) = Some e \<and> stored w' = (stored w)(workload_id e \<mapsto> n)"
    and replace_any: "wf w \<Longrightarrow> replace S e n w = (x, w') \<Longrightarrow>
      wf w' \<and> (stored w' = stored w
        \<or> (stored w (workload_id e) = Some e \<and> stored w' = (stored w)(workload_id e \<mapsto> n)))"
begin

text \<open>
  \<open>at r0 w0 x w\<close>: the world \<open>w\<close>, reached from \<open>w0\<close> where \<open>r0\<close> was stored, stores \<open>x\<close> for that
  workload, a later record of the history of \<open>r0\<close>, and nothing else changed.
\<close>

definition at :: "LifecycleRecord \<Rightarrow> 'w \<Rightarrow> LifecycleRecord \<Rightarrow> 'w \<Rightarrow> bool" where
  "at r0 w0 x w \<longleftrightarrow>
     wf w \<and> stored w = (stored w0)(workload_id r0 \<mapsto> x) \<and> record_history r0 x"

definition somewhere :: "LifecycleRecord \<Rightarrow> 'w \<Rightarrow> 'w \<Rightarrow> bool" where
  "somewhere r0 w0 w \<longleftrightarrow> (\<exists>x. at r0 w0 x w)"

lemma at_somewhere: "at r0 w0 x w \<Longrightarrow> somewhere r0 w0 w"
  by (auto simp: somewhere_def)

lemma at_start: "wf w \<Longrightarrow> stored w (workload_id r) = Some r \<Longrightarrow> at r w r w"
  by (auto simp: at_def intro: history_refl)

lemma at_workload: "at r0 w0 x w \<Longrightarrow> workload_id x = workload_id r0"
  using history_later by (auto simp: at_def later_record_def)

lemma persist_at: "hoareE (at r0 w0 e) (persist S e n) (\<lambda>_. at r0 w0 n) (somewhere r0 w0)"
proof (cases "validate_record_update e n")
  case (Inl x)
  then show ?thesis
    by (auto simp: persist_def hoareE_def eff_defs dest: at_somewhere)
next
  case (Inr u)
  then have "update_ok e n"
    by (simp add: validate_record_update_iff [symmetric])
  then have h: "record_history r0 e \<Longrightarrow> record_history r0 n"
    using record_history_one record_history_trans by blast
  have p: "persist S e n = map_errE RecordErr (replace S e n)"
    using Inr by (simp add: persist_def bindE_def liftE_def)
  show ?thesis
    unfolding p
  proof (rule hoareE_map_errE, unfold hoareE_def, intro allI impI)
    fix w
    assume a: "at r0 w0 e w"
    obtain x w' where rep: "replace S e n w = (x, w')"
      by fastforce
    have wl: "workload_id e = workload_id r0"
      using a by (rule at_workload)
    have w: "wf w" "stored w = (stored w0)(workload_id r0 \<mapsto> e)" "record_history r0 e"
      using a by (auto simp: at_def)
    have any: "wf w'" "stored w' = stored w \<or> stored w' = (stored w)(workload_id r0 \<mapsto> n)"
      using replace_any [OF w(1) rep] wl by auto
    have fail: "somewhere r0 w0 w'"
      using any w h by (auto simp: somewhere_def at_def)
    have succ: "x = Ok () \<Longrightarrow> at r0 w0 n w'"
      using replace_ok [OF w(1), of e n w'] rep any(1) w h wl by (auto simp: at_def)
    show "case replace S e n w of (r, w') \<Rightarrow>
        case r of Err _ \<Rightarrow> somewhere r0 w0 w' | Ok a \<Rightarrow> at r0 w0 n w'"
      using rep fail succ by (simp split: sum.splits)
  qed
qed

end

locale managed_workload = lifecycle_record_store S stored wf
  for S :: "'w LifecycleRecordStore" and stored and wf +
  fixes H :: "'w HostLifecycleControl" and P :: "'w ProductLifecycleControl"
    and E :: "('w, 'x) LifecycleEffects_scheme"
  assumes observe_frame: "wf w \<Longrightarrow> observe H w = (o', w') \<Longrightarrow> wf w' \<and> stored w' = stored w"
    and verify_frame: "wf w \<Longrightarrow> verify_ready H w = (u, w') \<Longrightarrow> wf w' \<and> stored w' = stored w"
    and quiesce_frame: "wf w \<Longrightarrow> quiesce P w = (q, w') \<Longrightarrow> wf w' \<and> stored w' = stored w"
    and cancel_frame: "wf w \<Longrightarrow> cancel_quiesce P w = (u, w') \<Longrightarrow> wf w' \<and> stored w' = stored w"
    and freeze_frame: "wf w \<Longrightarrow> freeze E w = (u, w') \<Longrightarrow> wf w' \<and> stored w' = stored w"
    and thaw_frame: "wf w \<Longrightarrow> thaw E w = (u, w') \<Longrightarrow> wf w' \<and> stored w' = stored w"
    and checkpoint_frame:
      "wf w \<Longrightarrow> checkpoint_and_terminate E w = (k, w') \<Longrightarrow> wf w' \<and> stored w' = stored w"
    and restore_frame: "wf w \<Longrightarrow> restore E c w = (u, w') \<Longrightarrow> wf w' \<and> stored w' = stored w"
begin

lemma frame_at:
  assumes "\<And>w r w'. wf w \<Longrightarrow> m w = (r, w') \<Longrightarrow> wf w' \<and> stored w' = stored w"
  shows "hoareE (at r0 w0 x) m (\<lambda>_. at r0 w0 x) (somewhere r0 w0)"
  unfolding hoareE_def
proof (intro allI impI)
  fix w
  assume a: "at r0 w0 x w"
  obtain r w' where m: "m w = (r, w')"
    by fastforce
  have "at r0 w0 x w'"
    using a assms [OF _ m] by (auto simp: at_def)
  then show "case m w of (r, w') \<Rightarrow> case r of Err _ \<Rightarrow> somewhere r0 w0 w' | Ok a \<Rightarrow> at r0 w0 x w'"
    using m at_somewhere by (auto split: sum.splits)
qed

lemma calls_at:
  "hoareE (at r0 w0 x) (observe H) (\<lambda>_. at r0 w0 x) (somewhere r0 w0)"
  "hoareE (at r0 w0 x) (verify_ready H) (\<lambda>_. at r0 w0 x) (somewhere r0 w0)"
  "hoareE (at r0 w0 x) (quiesce P) (\<lambda>_. at r0 w0 x) (somewhere r0 w0)"
  "hoareE (at r0 w0 x) (cancel_quiesce P) (\<lambda>_. at r0 w0 x) (somewhere r0 w0)"
  "hoareE (at r0 w0 x) (freeze E) (\<lambda>_. at r0 w0 x) (somewhere r0 w0)"
  "hoareE (at r0 w0 x) (thaw E) (\<lambda>_. at r0 w0 x) (somewhere r0 w0)"
  "hoareE (at r0 w0 x) (checkpoint_and_terminate E) (\<lambda>_. at r0 w0 x) (somewhere r0 w0)"
  "hoareE (at r0 w0 x) (restore E c) (\<lambda>_. at r0 w0 x) (somewhere r0 w0)"
  by (rule frame_at, blast dest: observe_frame verify_frame quiesce_frame cancel_frame freeze_frame thaw_frame checkpoint_frame restore_frame)+

text \<open>What an outcome says about the record that is stored at the end.\<close>

definition outcome_record :: "LifecycleRecord \<Rightarrow> ReconcileOutcome \<Rightarrow> LifecycleRecord \<Rightarrow> bool" where
  "outcome_record r0 out x \<longleftrightarrow>
     (case out of
        NoChange \<Rightarrow> x = r0
      | Suspended \<Rightarrow> state x = (case strategy r0 of PFreeze \<Rightarrow> PFrozen | PHibernate \<Rightarrow> PHibernated)
      | _ \<Rightarrow> state x = PRunning)"

definition done_at :: "LifecycleRecord \<Rightarrow> 'w \<Rightarrow> ReconcileOutcome \<Rightarrow> 'w \<Rightarrow> bool" where
  "done_at r0 w0 out w \<longleftrightarrow> (\<exists>x. at r0 w0 x w \<and> outcome_record r0 out x)"

lemmas at_rules = hoareE_bindE hoareE_map_errE persist_at calls_at

lemma cancel_suspend_at:
  "hoareE (at r0 w0 x) (cancel_suspend_for_demand tok x S P) (done_at r0 w0) (somewhere r0 w0)"
  unfolding cancel_suspend_for_demand_def Let_def
  by (rule at_rules hoareE_returnE)+ (auto simp: done_at_def outcome_record_def)

lemma recover_quiesce_at:
  "hoareE (at r0 w0 x) (recover_quiesce tok x S P) (done_at r0 w0) (somewhere r0 w0)"
  unfolding recover_quiesce_def Let_def
  by (rule at_rules hoareE_returnE)+ (auto simp: done_at_def outcome_record_def)

lemma suspend_effect_at:
  assumes "policy_strategy p = to_strategy (strategy r0)"
  shows "hoareE (at r0 w0 x) (suspend_effect tok p x S E) (done_at r0 w0) (somewhere r0 w0)"
proof (cases "strategy r0")
  case PFreeze
  with assms have "policy_strategy p = Freeze"
    by simp
  with PFreeze show ?thesis
    unfolding suspend_effect_Freeze [OF \<open>policy_strategy p = Freeze\<close>] Let_def
    by - (rule at_rules hoareE_returnE | auto simp: done_at_def outcome_record_def)+
next
  case PHibernate
  with assms have "policy_strategy p = Hibernate"
    by simp
  with PHibernate show ?thesis
    unfolding suspend_effect_Hibernate [OF \<open>policy_strategy p = Hibernate\<close>] Let_def
    by - (rule at_rules hoareE_returnE | auto simp: done_at_def outcome_record_def)+
qed

lemma suspend_from_running_at:
  assumes "policy_strategy p = to_strategy (strategy r0)"
  shows "hoareE (at r0 w0 r0) (suspend_from_running tok p r0 S H P E) (done_at r0 w0) (somewhere r0 w0)"
  unfolding suspend_from_running_def Let_def
  by (rule at_rules hoareE_if cancel_suspend_at suspend_effect_at [OF assms] | (split ProductQuiesceOutcome.split, safe))+

lemma resume_frozen_at:
  "hoareE (at r0 w0 r0) (resume_frozen tok r0 S H P E) (done_at r0 w0) (somewhere r0 w0)"
  unfolding resume_frozen_def Let_def
  by (rule at_rules hoareE_returnE)+ (auto simp: done_at_def outcome_record_def)

lemma restore_hibernated_at:
  "hoareE (at r0 w0 r0) (restore_hibernated tok r0 S H P E) (done_at r0 w0) (somewhere r0 w0)"
  unfolding restore_hibernated_def Let_def
  by (rule hoareE_liftE_bindE at_rules hoareE_returnE | auto simp: done_at_def outcome_record_def dest: at_somewhere)+

lemma reconcile_stable_at:
  assumes "policy_strategy p = to_strategy (strategy r0)" and "state r0 \<in> {PRunning, PFrozen, PHibernated}"
  shows "hoareE (at r0 w0 r0) (reconcile_stable tok p r0 S H P E) (done_at r0 w0) (somewhere r0 w0)"
proof -
  have same: "hoareE (at r0 w0 r0) (returnE NoChange) (done_at r0 w0) (somewhere r0 w0)"
    by (rule hoareE_returnE) (auto simp: done_at_def outcome_record_def)
  consider "state r0 = PRunning" | "state r0 = PFrozen" | "state r0 = PHibernated"
    using assms(2) by auto
  then show ?thesis
    by cases (simp only: reconcile_stable_cases, (rule at_rules hoareE_if same
      suspend_from_running_at [OF assms(1)] resume_frozen_at restore_hibernated_at)+)+
qed

text \<open>
  What one reconciliation leaves in the store: on success the record that the outcome names, on an
  error a later record of the same history, and never anything else.
\<close>

theorem reconcile_once_at:
  assumes wf: "wf w0" and run: "reconcile_once scope tok p S H P E w0 = (res, w)"
  shows "wf w \<and>
    (stored w = stored w0 \<and> is_Err res \<or>
     (\<exists>r0. stored w0 (scope_workload_id scope) = Some r0 \<and> workload_id r0 = scope_workload_id scope \<and>
        (case res of Err _ \<Rightarrow> somewhere r0 w0 w | Ok out \<Rightarrow> done_at r0 w0 out w)))"
proof -
  obtain l w1 where ld: "load S (scope_workload_id scope) w0 = (l, w1)"
    by fastforce
  have fr: "wf w1" "stored w1 = stored w0"
    using load_frame [OF wf ld] by auto
  show ?thesis
  proof (cases l)
    case (Inl e)
    then show ?thesis
      using run ld fr by (auto simp: reconcile_once_def eff_defs)
  next
    case (Inr r0)
    have st: "stored w0 (scope_workload_id scope) = Some r0" "workload_id r0 = scope_workload_id scope"
      using load_ok [OF wf] ld Inr by auto
    have start: "at r0 w0 r0 w1"
      using fr st by (auto simp: at_def history_refl)
    have stop: "hoareE (at r0 w0 r0) (throwE e) (done_at r0 w0) (somewhere r0 w0)" for e
      by (rule hoareE_throwE) (rule at_somewhere)
    have guards: "hoareE (at r0 w0 r0) (bindE (liftE (map_err (\<lambda>_. InvalidRecordErr) (validate r0))) (\<lambda>_.
        bindE (liftE (validate_authority scope tok r0)) (\<lambda>_.
        bindE (liftE (validate_strategy p r0)) (\<lambda>_. 
        (case state r0 of
           PQuiescing \<Rightarrow> recover_quiesce tok r0 S P
         | PRunning \<Rightarrow> reconcile_stable tok p r0 S H P E
         | PFrozen \<Rightarrow> reconcile_stable tok p r0 S H P E
         | PHibernated \<Rightarrow> reconcile_stable tok p r0 S H P E
         | _ \<Rightarrow> throwE (RecoveryRequired (state r0))))))) (done_at r0 w0) (somewhere r0 w0)"
      by (intro hoareE_liftE_bindE; (erule at_somewhere)?)
        (auto simp: validate_strategy_def stop recover_quiesce_at reconcile_stable_at
          split: PersistedLifecycleState.splits if_splits)
    have "map_errE RecordErr (load S (scope_workload_id scope)) w0 = (Ok r0, w1)"
      using ld Inr by (simp add: map_errE_def)
    note loaded = bindE_step [where m = "map_errE RecordErr (load S (scope_workload_id scope))", OF this]
    have "case res of Err _ \<Rightarrow> somewhere r0 w0 w | Ok out \<Rightarrow> done_at r0 w0 out w"
      using hoareE_D [OF guards start] run by (simp add: reconcile_once_def loaded)
    then show ?thesis
      using st by (auto simp: somewhere_def done_at_def at_def split: sum.splits)
  qed
qed

text \<open>The same, without the abbreviations.\<close>

lemma reconcile_once_stored:
  assumes "wf w0" and "reconcile_once scope tok p S H P E w0 = (res, w)"
  shows "(\<forall>j. j \<noteq> scope_workload_id scope \<longrightarrow> stored w j = stored w0 j)
    \<and> (case res of
         Err _ \<Rightarrow> stored w (scope_workload_id scope) = stored w0 (scope_workload_id scope)
           \<or> (\<exists>r n. stored w0 (scope_workload_id scope) = Some r \<and> stored w (scope_workload_id scope) = Some n
                \<and> record_history r n)
       | Ok out \<Rightarrow> (\<exists>r n. stored w0 (scope_workload_id scope) = Some r \<and> stored w (scope_workload_id scope) = Some n
           \<and> record_history r n
           \<and> (case out of
                NoChange \<Rightarrow> n = r
              | Suspended \<Rightarrow> state n = (case strategy r of PFreeze \<Rightarrow> PFrozen | PHibernate \<Rightarrow> PHibernated)
              | _ \<Rightarrow> state n = PRunning)))"
  using reconcile_once_at [OF assms]
  by (auto simp: somewhere_def done_at_def at_def outcome_record_def dest: map_upd_eqD1 split: sum.splits)

end

end
