(* ===== verification/Lifecycle_Recovery.thy ===== *)
theory Lifecycle_Recovery
  imports Lifecycle_Trace Lifecycle_Store
begin

section \<open>Crash recovery of freeze transitions (\<open>src/src/adapters/state_machine/process_lifecycle_recovery.rs\<close>)\<close>

text \<open>
  After a crash the stored record may say \<open>freezing\<close> or \<open>thawing\<close>. Recovery reads the kernel's view of
  the cgroup and completes the transition: a frozen cgroup under \<open>freezing\<close> is published as
  \<open>frozen\<close>; otherwise the workload is thawed, the product reopened, readiness verified and
  \<open>running\<close> published. The helpers \<open>persist\<close> and \<open>next_record\<close> of this source file repeat those of
  the agent; \<open>next_record\<close> here always drops the checkpoint.
\<close>

subsection \<open>Operations\<close>

definition UNPOPULATED_TARGET :: string where
  "UNPOPULATED_TARGET = ''managed cgroup is not populated during freeze transition recovery''"

datatype FreezeRecoveryOutcome = RecoveredFrozen | RecoveredRunning

type_synonym 'w recovery = "('w, ReconcileError, FreezeRecoveryOutcome) eff"

definition recovery_next_record ::
  "LifecycleRecord \<Rightarrow> u64 \<Rightarrow> PersistedLifecycleState \<Rightarrow> LifecycleRecord" where
  "recovery_next_record current tok st =
     \<lparr>workload_id = workload_id current, assigned_node = assigned_node current,
      placement_epoch = placement_epoch current, runtime_epoch = runtime_epoch current,
      fencing_token = tok, revision = saturating_add (revision current) 1,
      state = st, strategy = strategy current, checkpoint = None\<rparr>"

definition recovery_persist ::
  "'w LifecycleRecordStore \<Rightarrow> LifecycleRecord \<Rightarrow> LifecycleRecord \<Rightarrow> ('w, ReconcileError, unit) eff" where
  "recovery_persist S current nxt =
     bindE (liftE (map_err (\<lambda>_. InvalidRecordErr) (validate_record_update current nxt)))
       (\<lambda>_. map_errE RecordErr (replace S current nxt))"

definition validate_recovery_authority ::
  "ControllerScope \<Rightarrow> u64 \<Rightarrow> LifecyclePolicy \<Rightarrow> LifecycleRecord \<Rightarrow> ReconcileError + unit" where
  "validate_recovery_authority scope tok p r =
     (if workload_id r \<noteq> scope_workload_id scope \<or> assigned_node r \<noteq> scope_node scope
         \<or> placement_epoch r \<noteq> scope_placement_epoch scope \<or> runtime_epoch r \<noteq> scope_runtime_epoch scope
      then Err StalePlacement
      else if tok < fencing_token r then Err StaleFence
      else if policy_strategy p \<noteq> Freeze \<or> strategy r \<noteq> PFreeze then Err InvalidRecordErr
      else Ok ())"

definition finish_running ::
  "LifecycleRecord \<Rightarrow> u64 \<Rightarrow> 'w LifecycleRecordStore \<Rightarrow> 'w HostLifecycleControl \<Rightarrow>
   'w ProductLifecycleControl \<Rightarrow> 'w recovery" where
  "finish_running current tok S H P =
     bindE (map_errE ProductErr (cancel_quiesce P)) (\<lambda>_.
     bindE (map_errE HostErr (verify_ready H)) (\<lambda>_.
     (let running = recovery_next_record current tok PRunning in
      bindE (recovery_persist S current running) (\<lambda>_. returnE RecoveredRunning))))"

definition recover_freezing ::
  "u64 \<Rightarrow> LifecycleRecord \<Rightarrow> FreezeTransitionStatus \<Rightarrow> 'w LifecycleRecordStore \<Rightarrow> 'w HostLifecycleControl \<Rightarrow>
   'w ProductLifecycleControl \<Rightarrow> ('w, 'x) FreezeTransitionEffects_scheme \<Rightarrow> 'w recovery" where
  "recover_freezing tok current status S H P E =
     (if status_frozen status
      then (let frozen = recovery_next_record current tok PFrozen in
            bindE (recovery_persist S current frozen) (\<lambda>_. returnE RecoveredFrozen))
      else (let thawing = recovery_next_record current tok PThawing in
            bindE (recovery_persist S current thawing) (\<lambda>_.
            bindE (map_errE EffectErr (thaw E)) (\<lambda>_.
            finish_running thawing tok S H P))))"

definition recover_thawing ::
  "u64 \<Rightarrow> LifecycleRecord \<Rightarrow> FreezeTransitionStatus \<Rightarrow> 'w LifecycleRecordStore \<Rightarrow> 'w HostLifecycleControl \<Rightarrow>
   'w ProductLifecycleControl \<Rightarrow> ('w, 'x) FreezeTransitionEffects_scheme \<Rightarrow> 'w recovery" where
  "recover_thawing tok current status S H P E =
     (if status_frozen status
      then bindE (map_errE EffectErr (thaw E)) (\<lambda>_. finish_running current tok S H P)
      else finish_running current tok S H P)"

definition recover_freeze_transition ::
  "u64 \<Rightarrow> ControllerScope \<Rightarrow> LifecyclePolicy \<Rightarrow> 'w LifecycleRecordStore \<Rightarrow> 'w HostLifecycleControl \<Rightarrow>
   'w ProductLifecycleControl \<Rightarrow> ('w, 'x) FreezeTransitionEffects_scheme \<Rightarrow> 'w recovery" where
  "recover_freeze_transition tok scope p S H P E =
     bindE (map_errE RecordErr (load S (scope_workload_id scope))) (\<lambda>current.
     bindE (liftE (map_err (\<lambda>_. InvalidRecordErr) (validate current))) (\<lambda>_.
     bindE (liftE (validate_recovery_authority scope tok p current)) (\<lambda>_.
     bindE (map_errE EffectErr (freeze_status E)) (\<lambda>status.
     if \<not> status_populated status then throwE (EffectErr UNPOPULATED_TARGET)
     else (case state current of
             PFreezing \<Rightarrow> recover_freezing tok current status S H P E
           | PThawing \<Rightarrow> recover_thawing tok current status S H P E
           | st \<Rightarrow> throwE (RecoveryRequired st))))))"

lemmas recovery_defs =
  recover_freeze_transition_def recover_freezing_def recover_thawing_def finish_running_def Let_def

lemma recovery_persist_eq [simp]: "recovery_persist = persist"
  by (simp add: fun_eq_iff recovery_persist_def persist_def)

lemma recovery_next_record_eq [simp]: "recovery_next_record r t s = next_record r t s None"
  by (simp add: recovery_next_record_def next_record_def)

subsection \<open>The calls of a recovery\<close>

definition traced_freeze_effects ::
  "('w, 'x) FreezeTransitionEffects_scheme \<Rightarrow> 'w logged FreezeTransitionEffects" where
  "traced_freeze_effects E =
     \<lparr>freeze = traced CallFreeze (freeze E), thaw = traced CallThaw (thaw E),
      checkpoint_and_terminate = traced CallCheckpoint (checkpoint_and_terminate E),
      restore = (\<lambda>c. traced (CallRestore c) (restore E c)),
      freeze_status = traced CallStatus (freeze_status E)\<rparr>"

definition recovery_trace ::
  "u64 \<Rightarrow> ControllerScope \<Rightarrow> LifecyclePolicy \<Rightarrow> 'w LifecycleRecordStore \<Rightarrow> 'w HostLifecycleControl \<Rightarrow>
   'w ProductLifecycleControl \<Rightarrow> ('w, 'x) FreezeTransitionEffects_scheme \<Rightarrow> 'w \<Rightarrow> call list" where
  "recovery_trace tok scope p S H P E w =
     snd (snd (recover_freeze_transition tok scope p (traced_store S) (traced_host H) (traced_product P)
                (traced_freeze_effects E) (w, [])))"

lemma traced_freeze_sels [simp]:
  "thaw (traced_freeze_effects E) = traced CallThaw (thaw E)"
  "freeze_status (traced_freeze_effects E) = traced CallStatus (freeze_status E)"
  by (simp_all add: traced_freeze_effects_def)

lemma erases_recovery:
  "erases (recover_freeze_transition tok scope p S H P E)
     (recover_freeze_transition tok scope p (traced_store S) (traced_host H) (traced_product P)
        (traced_freeze_effects E))"
  unfolding recovery_defs recovery_persist_eq persist_def traced_defs traced_freeze_effects_def
  by (auto split: PersistedLifecycleState.splits)








subsection \<open>What recovery stores\<close>

locale recovering_workload = managed_workload S stored wf H P E
  for S :: "'w LifecycleRecordStore" and stored and wf and H and P
    and E :: "('w, 'x) FreezeTransitionEffects_scheme" +
  assumes status_frame: "wf w \<Longrightarrow> freeze_status E w = (f, w') \<Longrightarrow> wf w' \<and> stored w' = stored w"
begin

definition recovered_at :: "LifecycleRecord \<Rightarrow> 'w \<Rightarrow> FreezeRecoveryOutcome \<Rightarrow> 'w \<Rightarrow> bool" where
  "recovered_at r0 w0 out w \<longleftrightarrow>
     (\<exists>x. at r0 w0 x w \<and> state x = (case out of RecoveredFrozen \<Rightarrow> PFrozen | RecoveredRunning \<Rightarrow> PRunning))"

lemma status_at: "hoareE (at r0 w0 x) (freeze_status E) (\<lambda>_. at r0 w0 x) (somewhere r0 w0)"
  by (rule frame_at, blast dest: status_frame)

lemma finish_running_at:
  "hoareE (at r0 w0 x) (finish_running x tok S H P) (recovered_at r0 w0) (somewhere r0 w0)"
  unfolding finish_running_def Let_def recovery_persist_eq recovery_next_record_eq
  by (rule at_rules hoareE_returnE)+ (auto simp: recovered_at_def)

lemma recover_freezing_at:
  "hoareE (at r0 w0 x) (recover_freezing tok x st S H P E) (recovered_at r0 w0) (somewhere r0 w0)"
  unfolding recover_freezing_def Let_def recovery_persist_eq recovery_next_record_eq
  by (rule at_rules hoareE_if hoareE_returnE finish_running_at | auto simp: recovered_at_def)+

lemma recover_thawing_at:
  "hoareE (at r0 w0 x) (recover_thawing tok x st S H P E) (recovered_at r0 w0) (somewhere r0 w0)"
  unfolding recover_thawing_def
  by (rule at_rules hoareE_if finish_running_at)+

theorem recover_freeze_transition_at:
  assumes wf: "wf w0" and run: "recover_freeze_transition tok scope p S H P E w0 = (res, w)"
  shows "wf w \<and>
    (stored w = stored w0 \<and> is_Err res \<or>
     (\<exists>r0. stored w0 (scope_workload_id scope) = Some r0 \<and> workload_id r0 = scope_workload_id scope \<and>
        (case res of Err _ \<Rightarrow> somewhere r0 w0 w | Ok out \<Rightarrow> recovered_at r0 w0 out w)))"
proof -
  obtain l w1 where ld: "load S (scope_workload_id scope) w0 = (l, w1)"
    by fastforce
  have fr: "wf w1" "stored w1 = stored w0"
    using load_frame [OF wf ld] by auto
  show ?thesis
  proof (cases l)
    case (Inl e)
    then show ?thesis
      using run ld fr by (auto simp: recover_freeze_transition_def eff_defs)
  next
    case (Inr r0)
    have st: "stored w0 (scope_workload_id scope) = Some r0" "workload_id r0 = scope_workload_id scope"
      using load_ok [OF wf] ld Inr by auto
    have start: "at r0 w0 r0 w1"
      using fr st by (auto simp: at_def history_refl)
    have rest: "hoareE (at r0 w0 r0) (bindE (liftE (map_err (\<lambda>_. InvalidRecordErr) (validate r0))) (\<lambda>_.
       bindE (liftE (validate_recovery_authority scope tok p r0)) (\<lambda>_.
       bindE (map_errE EffectErr (freeze_status E)) (\<lambda>status.
       if \<not> status_populated status then throwE (EffectErr UNPOPULATED_TARGET)
       else (case state r0 of
               PFreezing \<Rightarrow> recover_freezing tok r0 status S H P E
             | PThawing \<Rightarrow> recover_thawing tok r0 status S H P E
             | st \<Rightarrow> throwE (RecoveryRequired st)))))) (recovered_at r0 w0) (somewhere r0 w0)"
      by (intro hoareE_liftE_bindE hoareE_bindE [OF hoareE_map_errE [OF status_at]] hoareE_if)
        (auto intro: at_somewhere hoareE_throwE recover_freezing_at recover_thawing_at
          split: PersistedLifecycleState.splits)
    have "map_errE RecordErr (load S (scope_workload_id scope)) w0 = (Ok r0, w1)"
      using ld Inr by (simp add: map_errE_def)
    note loaded = bindE_step [where m = "map_errE RecordErr (load S (scope_workload_id scope))", OF this]
    have "case res of Err _ \<Rightarrow> somewhere r0 w0 w | Ok out \<Rightarrow> recovered_at r0 w0 out w"
      using hoareE_D [OF rest start] run by (simp add: recover_freeze_transition_def loaded)
    then show ?thesis
      using st by (auto simp: somewhere_def recovered_at_def at_def split: sum.splits)
  qed
qed

lemma recovery_stored:
  assumes "wf w0" and "recover_freeze_transition tok scope p S H P E w0 = (res, w)"
  shows "(\<forall>j. j \<noteq> scope_workload_id scope \<longrightarrow> stored w j = stored w0 j)
    \<and> (case res of
         Err _ \<Rightarrow> stored w (scope_workload_id scope) = stored w0 (scope_workload_id scope)
           \<or> (\<exists>r n. stored w0 (scope_workload_id scope) = Some r \<and> stored w (scope_workload_id scope) = Some n
                \<and> record_history r n)
       | Ok out \<Rightarrow> (\<exists>r n. stored w0 (scope_workload_id scope) = Some r \<and> stored w (scope_workload_id scope) = Some n
           \<and> record_history r n \<and> state n = (case out of RecoveredFrozen \<Rightarrow> PFrozen | RecoveredRunning \<Rightarrow> PRunning)))"
  using recover_freeze_transition_at [OF assms]
  by (auto simp: somewhere_def recovered_at_def at_def dest: map_upd_eqD1 split: sum.splits)

end

subsection \<open>Recovery when everything answers\<close>

text \<open>
  \<open>recovery_script tok r st\<close>: the outcome of a recovery of \<open>r\<close> on a cgroup with status \<open>st\<close>, and its calls after
  reading the status when each of them succeeds.
\<close>

definition recovery_script ::
  "u64 \<Rightarrow> LifecycleRecord \<Rightarrow> FreezeTransitionStatus \<Rightarrow> FreezeRecoveryOutcome \<times> call list" where
  "recovery_script tok r st =
     (let reopen = (\<lambda>c. [CallCancel (Ok ()), CallVerify (Ok ()), CallReplace c (advanced_record tok PRunning None c) (Ok ())]);
          thawing = advanced_record tok PThawing None r
      in if state r = PThawing
         then (RecoveredRunning, (if status_frozen st then [CallThaw (Ok ())] else []) @ reopen r)
         else if status_frozen st then (RecoveredFrozen, [CallReplace r (advanced_record tok PFrozen None r) (Ok ())])
         else (RecoveredRunning, [CallReplace r thawing (Ok ()), CallThaw (Ok ())] @ reopen thawing))"

lemma finish_running_runs:
  assumes "steps_left 1 tok r" and "state r = PThawing"
    and "answers (cancel_quiesce P)" "answers (verify_ready H)" "\<And>e n. answers (replace S e n)"
  shows "runs (finish_running r tok (traced_store S) (traced_host H) (traced_product P))
    (\<lambda>x cs. x = RecoveredRunning
       \<and> cs = [CallCancel (Ok ()), CallVerify (Ok ()), CallReplace r (next_record r tok PRunning None) (Ok ())])"
  unfolding finish_running_def Let_def traced_sels recovery_persist_eq recovery_next_record_eq
  using assms by (auto intro!: runs_call runs_persist [where n = 0] runs_returnE simp: state_shape_wf_def)

lemma recovery_runs:
  assumes left: "steps_left 2 tok r" and r: "strategy r = PFreeze" "state r \<in> {PFreezing, PThawing}"
    and env: "answers (cancel_quiesce P)" "answers (verify_ready H)" "\<And>e n. answers (replace S e n)" "answers (thaw E)"
  shows "runs (if state r = PFreezing
      then recover_freezing tok r st (traced_store S) (traced_host H) (traced_product P) (traced_freeze_effects E)
      else recover_thawing tok r st (traced_store S) (traced_host H) (traced_product P) (traced_freeze_effects E))
    (\<lambda>x cs. (x, cs) = recovery_script tok r st)"
proof -
  let ?t = "next_record r tok PThawing None"
  have left1: "steps_left 1 tok r"
    by (rule steps_left_mono [OF left]) simp
  have next_r: "advanced_record tok s c r = next_record r tok s c" for s c
    using left by (intro advanced_next) (simp add: steps_left_def)
  have next_t: "advanced_record tok s c ?t = next_record ?t tok s c" for s c
    using left by (intro advanced_next) (simp add: steps_left_def unat_saturating_add)
  note finish = finish_running_runs [OF _ _ env(1-3)]
  show ?thesis
  proof (cases "state r = PThawing")
    case True
    have "runs (recover_thawing tok r st (traced_store S) (traced_host H) (traced_product P) (traced_freeze_effects E))
        (\<lambda>x cs. (x, cs) = recovery_script tok r st)"
      unfolding recover_thawing_def traced_freeze_sels
      using True by (auto intro!: runs_call [OF env(4)] runs_weaken [OF finish [OF left1]]
          simp: recovery_script_def Let_def next_r)
    then show ?thesis
      using True by simp
  next
    case False
    then have f: "state r = PFreezing"
      using r(2) by simp
    have "runs (recover_freezing tok r st (traced_store S) (traced_host H) (traced_product P) (traced_freeze_effects E))
        (\<lambda>x cs. (x, cs) = recovery_script tok r st)"
      unfolding recover_freezing_def Let_def traced_freeze_sels recovery_persist_eq recovery_next_record_eq
      using f left r(1)
      by (auto intro!: runs_persist [where n = 1] runs_call [OF env(4)] runs_weaken [OF finish] runs_returnE env(3)
          simp: recovery_script_def Let_def next_r next_t state_shape_wf_def numeral_2_eq_2)
    then show ?thesis
      using f by simp
  qed
qed

subsection \<open>Properties\<close>


text \<open>
  C36: recovery completes. If the stored record is a valid \<open>freezing\<close> or \<open>thawing\<close> record of this
  controller's workload under a freeze policy, the cgroup is populated, and the store, the product,
  the host and the thaw answer, then recovery returns: as frozen when a \<open>freezing\<close> workload is seen
  frozen, and as running in every other case. Its calls are then, one for one, those of \<open>recovery_script\<close>: the
  last is the replacement, which succeeded, by a record in the reported state with the controller's
  token and the next revision; before \<open>running\<close> comes the thaw, unless a thawing workload is seen awake, and the
  product's resume and the readiness check. (Two revisions must be left before the counter saturates.)
\<close>

theorem recovery_completes:
  assumes "load S (scope_workload_id scope) w = (Ok r, w1)" and "validate r = Ok ()"
    and "validate_recovery_authority scope tok p r = Ok ()" and "tok \<noteq> 0"
    and "state r \<in> {PFreezing, PThawing}" and "unat (revision r) + 2 < 2 ^ 64"
    and "freeze_status E w1 = (Ok st, w2)" and "status_populated st"
    and "answers (cancel_quiesce P)" and "answers (verify_ready H)" and "\<And>e n. answers (replace S e n)"
    and "answers (thaw E)"
  shows "fst (recover_freeze_transition tok scope p S H P E w) = Ok (fst (recovery_script tok r st))
    \<and> fst (recovery_script tok r st) = (if state r = PFreezing \<and> status_frozen st then RecoveredFrozen else RecoveredRunning)
    \<and> recovery_trace tok scope p S H P E w =
        CallLoad (scope_workload_id scope) (Ok r) # CallStatus (Ok st) # snd (recovery_script tok r st)"
proof -
  let ?log = "[CallLoad (scope_workload_id scope) (Ok r), CallStatus (Ok st)]"
  have left: "steps_left 2 tok r" and strategy: "strategy r = PFreeze"
    using assms(2,3,4,6) by (auto simp: steps_left_def validate_iff validate_recovery_authority_def split: if_splits)
  obtain x w' cs where run: "(if state r = PFreezing
      then recover_freezing tok r st (traced_store S) (traced_host H) (traced_product P) (traced_freeze_effects E)
      else recover_thawing tok r st (traced_store S) (traced_host H) (traced_product P) (traced_freeze_effects E))
        (w2, ?log) = (Ok x, (w', ?log @ cs))" and script: "(x, cs) = recovery_script tok r st"
    using recovery_runs [OF left strategy assms(5,9-12)] by (rule runsE)
  have "recover_freeze_transition tok scope p (traced_store S) (traced_host H) (traced_product P) (traced_freeze_effects E)
      (w, []) = (Ok x, (w', ?log @ cs))"
    using assms(1,2,3,5,7,8) run by (auto simp: recover_freeze_transition_def traced_def eff_defs)
  then have "recovery_trace tok scope p S H P E w = ?log @ cs" "fst (recover_freeze_transition tok scope p S H P E w) = Ok x"
    using erases_recovery [of tok scope p S H P E, unfolded erases_def, rule_format, of w "[]"]
    by (simp_all add: recovery_trace_def)
  moreover have "x = fst (recovery_script tok r st)" "cs = snd (recovery_script tok r st)"
    using script by (metis fst_conv, metis snd_conv)
  ultimately show ?thesis
    using assms(5) by (auto simp: recovery_script_def Let_def)
qed

definition calm_freeze_effects :: "FreezeTransitionStatus \<Rightarrow> 'w FreezeTransitionEffects" where
  "calm_freeze_effects st = \<lparr>freeze = returnE (), thaw = returnE (), checkpoint_and_terminate = throwE ''disabled'',
     restore = (\<lambda>_. throwE ''disabled''), freeze_status = returnE st\<rparr>"

theorem recovery_completes_witness:
  "let r = sample_record 13 19 11 PFreezing; t = sample_record 13 20 12 PThawing
   in recovery_trace 20 (sample_scope 13) \<lparr>policy_strategy = Freeze, minimum_idle_ms = 1000\<rparr>
        (calm_store r) (calm_host long_idle) (calm_product Drained)
        (calm_freeze_effects \<lparr>status_populated = True, status_frozen = False\<rparr>) ()
      = [CallLoad ''tenant-42'' (Ok r), CallStatus (Ok \<lparr>status_populated = True, status_frozen = False\<rparr>),
         CallReplace r t (Ok ()), CallThaw (Ok ()), CallCancel (Ok ()), CallVerify (Ok ()),
         CallReplace t (sample_record 13 20 13 PRunning) (Ok ())]"
proof -
  let ?r = "sample_record 13 19 11 PFreezing" and ?p = "\<lparr>policy_strategy = Freeze, minimum_idle_ms = 1000\<rparr>"
  let ?st = "\<lparr>status_populated = True, status_frozen = False\<rparr>"
  have "validate ?r = Ok ()"
    by (simp add: validate_iff sample_record_valid)
  moreover have "validate_recovery_authority (sample_scope 13) 20 ?p ?r = Ok ()"
    by (simp add: validate_recovery_authority_def sample_scope_def sample_record_def)
  moreover have "state ?r \<in> {PFreezing, PThawing}" "unat (revision ?r) + 2 < 2 ^ 64"
    by (simp_all add: sample_record_def)
  ultimately show ?thesis
    using recovery_completes [of "calm_store ?r" "sample_scope 13" "()" ?r "()" 20 ?p "calm_freeze_effects ?st" ?st "()"
        "calm_product Drained" "calm_host long_idle"]
    by (simp add: calm_defs calm_freeze_effects_def returnE_def answers_def Let_def recovery_script_def)
      (simp add: advanced_record_def sample_record_def sample_scope_def)
qed

end
