(* ===== verification/Reconcile_Progress.thy ===== *)
theory Reconcile_Progress
  imports Lifecycle_Recovery
begin

section \<open>Reconciliation when everything answers\<close>

text \<open>
  The counterpart of the safety theorems on \<open>reconcile_once\<close>: when the calls of a reconciliation succeed, it does what
  the policy asks for, call by call. An idle workload is suspended, a suspended one with demand is resumed, a drain
  that ends in demand is cancelled, and an interrupted drain is repaired. \<open>reconcile_script\<close> spells out the calls.
\<close>

subsection \<open>What a reconciliation should do\<close>

text \<open>The calls that bring a quiescing record \<open>c\<close> back to \<open>running\<close>, and those that resume a suspended record \<open>r\<close>.\<close>

definition cancel_script :: "u64 \<Rightarrow> LifecycleRecord \<Rightarrow> call list" where
  "cancel_script tok c = [CallCancel (Ok ()), CallReplace c (advanced_record tok PRunning None c) (Ok ())]"

definition resume_script :: "u64 \<Rightarrow> LifecycleRecord \<Rightarrow> LifecycleRecord \<Rightarrow> call \<Rightarrow> call list" where
  "resume_script tok r waking wake =
     [CallReplace r waking (Ok ()), wake, CallCancel (Ok ()), CallVerify (Ok ()),
      CallReplace waking (advanced_record tok PRunning None waking) (Ok ())]"

text \<open>The calls that suspend a quiescing record \<open>c\<close>; \<open>ck\<close> is the checkpoint that the effect answers.\<close>

definition suspend_script :: "u64 \<Rightarrow> LifecycleRecord \<Rightarrow> LifecycleCheckpoint \<Rightarrow> call list" where
  "suspend_script tok c ck =
     (case strategy c of
        PFreeze \<Rightarrow>
          (let intent = advanced_record tok PFreezing None c in
           [CallReplace c intent (Ok ()), CallFreeze (Ok ()), CallReplace intent (advanced_record tok PFrozen None intent) (Ok ())])
      | PHibernate \<Rightarrow>
          (let intent = advanced_record tok PCheckpointing None c in
           [CallReplace c intent (Ok ()), CallCheckpoint (Ok ck),
            CallReplace intent (advanced_record tok PHibernated (Some ck) intent) (Ok ())]))"

text \<open>
  The outcome and the calls after loading \<open>r\<close>, when the host first observes \<open>a\<close>, the product answers the quiesce with
  \<open>q\<close>, and the host then observes \<open>b\<close>.
\<close>

definition reconcile_script ::
  "u64 \<Rightarrow> LifecyclePolicy \<Rightarrow> LifecycleRecord \<Rightarrow> ActivitySnapshot \<Rightarrow> ProductQuiesceOutcome \<Rightarrow> ActivitySnapshot \<Rightarrow>
   LifecycleCheckpoint \<Rightarrow> ReconcileOutcome \<times> call list" where
  "reconcile_script tok p r a q b ck =
     (let quiescing = advanced_record tok PQuiescing None r;
          drain = [CallObserve (Ok a), CallReplace r quiescing (Ok ()), CallQuiesce (Ok q)]
      in case state r of
           PQuiescing \<Rightarrow> (RecoveredQuiesce, cancel_script tok r)
         | PRunning \<Rightarrow>
             (if \<not> is_idle_for a (minimum_idle_ms p) then (NoChange, [CallObserve (Ok a)])
              else if q = DemandReturned then (DemandCancelledSuspend, drain @ cancel_script tok quiescing)
              else if has_demand b
              then (DemandCancelledSuspend, drain @ CallObserve (Ok b) # cancel_script tok quiescing)
              else (Suspended, drain @ CallObserve (Ok b) # suspend_script tok quiescing ck))
         | PFrozen \<Rightarrow>
             (if has_demand a
              then (Resumed, CallObserve (Ok a) # resume_script tok r (advanced_record tok PThawing None r) (CallThaw (Ok ())))
              else (NoChange, [CallObserve (Ok a)]))
         | PHibernated \<Rightarrow>
             (if has_demand a
              then (Resumed, CallObserve (Ok a)
                # resume_script tok r (advanced_record tok PRestoring (checkpoint r) r)
                    (CallRestore (the (checkpoint r)) (Ok ())))
              else (NoChange, [CallObserve (Ok a)]))
         | _ \<Rightarrow> (NoChange, []))"

subsection \<open>The branches\<close>

text \<open>Every call of the traits after the load answers, and a checkpoint that is answered is well formed.\<close>

definition cooperative ::
  "'w LifecycleRecordStore \<Rightarrow> 'w HostLifecycleControl \<Rightarrow> 'w ProductLifecycleControl \<Rightarrow> ('w, 'x) LifecycleEffects_scheme \<Rightarrow> bool" where
  "cooperative S H P E \<longleftrightarrow>
     (\<forall>e n. answers (replace S e n)) \<and> answers (observe H) \<and> answers (verify_ready H)
     \<and> answers (quiesce P) \<and> answers (cancel_quiesce P)
     \<and> answers (freeze E) \<and> answers (thaw E) \<and> answers (checkpoint_and_terminate E) \<and> (\<forall>k. answers (restore E k))
     \<and> (\<forall>w k w'. checkpoint_and_terminate E w = (Ok k, w') \<longrightarrow> checkpoint_wf k)"

lemma cooperative_calls:
  assumes "cooperative S H P E"
  shows "answers (replace S e n)" "answers (observe H)" "answers (verify_ready H)" "answers (quiesce P)"
    "answers (cancel_quiesce P)" "answers (freeze E)" "answers (thaw E)" "answers (checkpoint_and_terminate E)"
    "answers (restore E k)" "checkpoint_and_terminate E w = (Ok k, w') \<Longrightarrow> checkpoint_wf k"
  using assms unfolding cooperative_def by blast+

lemma checkpoint_of_state:
  "valid_record r \<Longrightarrow> checkpoint r \<noteq> None \<longleftrightarrow> state r \<in> {PHibernated, PRestoring}"
  "valid_record r \<Longrightarrow> checkpoint r = Some c \<Longrightarrow> checkpoint_wf c"
  by (auto simp: valid_record_def state_shape_wf_def)

lemma advanced_step: "steps_left (Suc n) tok r \<Longrightarrow> advanced_record tok s c r = next_record r tok s c"
  by (rule advanced_next) (simp add: steps_left_def)

lemma reopen_runs:
  assumes "cooperative S H P E" and "steps_left (Suc n) tok r"
  shows "runs (cancel_suspend_for_demand tok r (traced_store S) (traced_product P))
      (\<lambda>x cs. x = DemandCancelledSuspend \<and> cs = cancel_script tok r)"
    and "runs (recover_quiesce tok r (traced_store S) (traced_product P))
      (\<lambda>x cs. x = RecoveredQuiesce \<and> cs = cancel_script tok r)"
  unfolding cancel_suspend_for_demand_def recover_quiesce_def Let_def traced_sels cancel_script_def
  using assms(2) cooperative_calls [OF assms(1)]
  by (auto intro!: runs_call runs_persist [where n = n] runs_returnE simp: state_shape_wf_def advanced_step)

lemma suspend_effect_runs:
  assumes "cooperative S H P E" and left: "steps_left 2 tok c" and "policy_strategy p = to_strategy (strategy c)"
  shows "runs (suspend_effect tok p c (traced_store S) (traced_effects E))
    (\<lambda>x cs. x = Suspended \<and> (\<exists>ck. cs = suspend_script tok c ck))"
proof -
  note calls = cooperative_calls [OF assms(1)]
  show ?thesis
  proof (cases "strategy c")
    case PFreeze
    then have p: "policy_strategy p = Freeze"
      using assms(3) by simp
    show ?thesis
      unfolding suspend_effect_Freeze [OF p] Let_def traced_sels suspend_script_def
      using left calls PFreeze
      by (auto intro!: runs_persist runs_call runs_returnE
          simp: state_shape_wf_def numeral_2_eq_2 advanced_step)
  next
    case PHibernate
    then have p: "policy_strategy p = Hibernate"
      using assms(3) by simp
    show ?thesis
      unfolding suspend_effect_Hibernate [OF p] Let_def traced_sels suspend_script_def
      using left calls PHibernate
      by (auto intro!: runs_persist runs_call runs_returnE
          simp: state_shape_wf_def numeral_2_eq_2 advanced_step)
  qed
qed

text \<open>\<open>scripted tok p r x cs\<close>: outcome and calls are those of \<open>reconcile_script\<close>, for some answers.\<close>

definition scripted :: "u64 \<Rightarrow> LifecyclePolicy \<Rightarrow> LifecycleRecord \<Rightarrow> ReconcileOutcome \<Rightarrow> call list \<Rightarrow> bool" where
  "scripted tok p r x cs \<longleftrightarrow> (\<exists>a q b ck. (x, cs) = reconcile_script tok p r a q b ck)"

lemma scriptedI: "(x, cs) = reconcile_script tok p r a q b ck \<Longrightarrow> scripted tok p r x cs"
  unfolding scripted_def by blast

text \<open>After the product drained: the second observation decides.\<close>

lemma after_drain_runs:
  assumes "cooperative S H P E" and left: "steps_left 2 tok c" and "policy_strategy p = to_strategy (strategy c)"
  shows "runs (bindE (map_errE HostErr (traced CallObserve (observe H))) (\<lambda>b.
      if has_demand b then cancel_suspend_for_demand tok c (traced_store S) (traced_product P)
      else suspend_effect tok p c (traced_store S) (traced_effects E)))
    (\<lambda>x cs. \<exists>b ck. if has_demand b then x = DemandCancelledSuspend \<and> cs = CallObserve (Ok b) # cancel_script tok c
      else x = Suspended \<and> cs = CallObserve (Ok b) # suspend_script tok c ck)"
proof (rule runs_call [OF cooperative_calls(2) [OF assms(1)]])
  fix b w w'
  have "steps_left (Suc 1) tok c"
    using left by (simp add: numeral_2_eq_2)
  note cancel = reopen_runs(1) [OF assms(1) this] and suspend = suspend_effect_runs [OF assms]
  show "runs (if has_demand b then cancel_suspend_for_demand tok c (traced_store S) (traced_product P)
      else suspend_effect tok p c (traced_store S) (traced_effects E))
    (\<lambda>x cs. \<exists>b' ck. if has_demand b' then x = DemandCancelledSuspend \<and> CallObserve (Ok b) # cs = CallObserve (Ok b') # cancel_script tok c
      else x = Suspended \<and> CallObserve (Ok b) # cs = CallObserve (Ok b') # suspend_script tok c ck)"
  proof (cases "has_demand b")
    case True
    then show ?thesis
      by (auto intro!: runs_weaken [OF cancel] exI [of _ b])
  next
    case False
    show ?thesis
      unfolding if_not_P [OF False] by (rule runs_weaken [OF suspend]) (use False in \<open>auto intro!: exI [of _ b]\<close>)
  qed
qed

lemma suspend_from_running_runs:
  assumes "cooperative S H P E" and left: "steps_left 3 tok r" and "policy_strategy p = to_strategy (strategy r)"
    and r: "state r = PRunning" "is_idle_for a (minimum_idle_ms p)"
  shows "runs (suspend_from_running tok p r (traced_store S) (traced_host H) (traced_product P) (traced_effects E))
    (\<lambda>x cs. scripted tok p r x (CallObserve (Ok a) # cs))"
  unfolding suspend_from_running_def Let_def traced_sels
proof (rule runs_persist [where n = 2], goal_cases)
  case 5
  let ?q = "next_record r tok PQuiescing None"
  have q: "advanced_record tok PQuiescing None r = ?q"
    using left by (intro advanced_step [where n = 2]) simp
  have "steps_left (Suc 1) tok ?q"
    using 5 by (simp add: numeral_2_eq_2)
  note cancel = reopen_runs(1) [OF assms(1) this] and drained = after_drain_runs [OF assms(1) 5, of p]
  show ?case
  proof (rule runs_call [OF cooperative_calls(4) [OF assms(1)]], split ProductQuiesceOutcome.split, intro conjI impI)
    fix outcome
    assume "outcome = DemandReturned"
    then show "runs (cancel_suspend_for_demand tok ?q (traced_store S) (traced_product P))
        (\<lambda>x cs. scripted tok p r x (CallObserve (Ok a) # CallReplace r ?q (Ok ()) # CallQuiesce (Ok outcome) # cs))"
      by (auto intro!: runs_weaken [OF cancel] scriptedI [where a = a and q = DemandReturned]
          simp: reconcile_script_def Let_def r q)
  next
    fix outcome
    assume drain: "outcome = Drained"
    show "runs (bindE (map_errE HostErr (traced CallObserve (observe H))) (\<lambda>b.
          if has_demand b then cancel_suspend_for_demand tok ?q (traced_store S) (traced_product P)
          else suspend_effect tok p ?q (traced_store S) (traced_effects E)))
        (\<lambda>x cs. scripted tok p r x (CallObserve (Ok a) # CallReplace r ?q (Ok ()) # CallQuiesce (Ok outcome) # cs))"
    proof (rule runs_weaken [OF drained])
      show "policy_strategy p = to_strategy (strategy ?q)"
        using assms(3) by simp
      fix x cs
      assume "\<exists>b ck. if has_demand b then x = DemandCancelledSuspend \<and> cs = CallObserve (Ok b) # cancel_script tok ?q
        else x = Suspended \<and> cs = CallObserve (Ok b) # suspend_script tok ?q ck"
      then obtain b ck where "if has_demand b then x = DemandCancelledSuspend \<and> cs = CallObserve (Ok b) # cancel_script tok ?q
        else x = Suspended \<and> cs = CallObserve (Ok b) # suspend_script tok ?q ck" by blast
      then show "scripted tok p r x (CallObserve (Ok a) # CallReplace r ?q (Ok ()) # CallQuiesce (Ok outcome) # cs)"
        by (intro scriptedI [where a = a and q = Drained and b = b and ck = ck])
          (auto simp: reconcile_script_def Let_def r q drain split: if_splits)
    qed
  qed
qed (use left cooperative_calls [OF assms(1)] in \<open>auto simp: state_shape_wf_def numeral_3_eq_3\<close>)

lemma resume_runs:
  assumes "cooperative S H P E" and left: "steps_left 2 tok r"
  shows "state r = PFrozen \<Longrightarrow> runs (resume_frozen tok r (traced_store S) (traced_host H) (traced_product P) (traced_effects E))
      (\<lambda>x cs. x = Resumed \<and> cs = resume_script tok r (advanced_record tok PThawing None r) (CallThaw (Ok ())))"
    and "state r = PHibernated \<Longrightarrow> runs (restore_hibernated tok r (traced_store S) (traced_host H) (traced_product P) (traced_effects E))
      (\<lambda>x cs. x = Resumed \<and> cs = resume_script tok r (advanced_record tok PRestoring (checkpoint r) r)
        (CallRestore (the (checkpoint r)) (Ok ())))"
proof -
  have v: "valid_record r"
    using left by (simp add: steps_left_def)
  note calls = cooperative_calls [OF assms(1)]
  show "runs (resume_frozen tok r (traced_store S) (traced_host H) (traced_product P) (traced_effects E))
      (\<lambda>x cs. x = Resumed \<and> cs = resume_script tok r (advanced_record tok PThawing None r) (CallThaw (Ok ())))"
    if "state r = PFrozen"
    unfolding resume_frozen_def Let_def traced_sels resume_script_def
    using left calls that v
    by (auto intro!: runs_persist runs_call runs_returnE
        simp: state_shape_wf_def valid_record_def numeral_2_eq_2 advanced_step)
  show "runs (restore_hibernated tok r (traced_store S) (traced_host H) (traced_product P) (traced_effects E))
      (\<lambda>x cs. x = Resumed \<and> cs = resume_script tok r (advanced_record tok PRestoring (checkpoint r) r)
        (CallRestore (the (checkpoint r)) (Ok ())))" if h: "state r = PHibernated"
  proof -
    obtain ck where ck: "checkpoint r = Some ck" "checkpoint_wf ck"
      using checkpoint_of_state [OF v] h by auto
    have given: "bindE (liftE (Ok c)) k = k c" for c and k :: "LifecycleCheckpoint \<Rightarrow> 'a logged reconcile"
      by (simp add: bindE_def liftE_def fun_eq_iff)
    show ?thesis
      unfolding restore_hibernated_def Let_def traced_sels resume_script_def ck ok_or_simps given option.sel
      using left calls h v ck(2)
      by (auto intro!: runs_persist runs_call runs_returnE
          simp: state_shape_wf_def valid_record_def numeral_2_eq_2 advanced_step)
  qed
qed

lemma reconcile_stable_runs:
  assumes "cooperative S H P E" and left: "steps_left 3 tok r" and "policy_strategy p = to_strategy (strategy r)"
    and "state r \<in> {PRunning, PFrozen, PHibernated}"
  shows "runs (reconcile_stable tok p r (traced_store S) (traced_host H) (traced_product P) (traced_effects E))
    (scripted tok p r)"
proof -
  note calls = cooperative_calls [OF assms(1)]
  have left2: "steps_left 2 tok r"
    by (rule steps_left_mono [OF left]) simp
  note resume = resume_runs [OF assms(1) left2] and suspend = suspend_from_running_runs [OF assms(1-3)]
  from assms(4) consider "state r = PRunning" | "state r = PFrozen" | "state r = PHibernated"
    by auto
  then show ?thesis
    by cases (simp only: reconcile_stable_cases traced_sels, rule runs_call [OF calls(2)],
      auto intro!: suspend runs_returnE runs_weaken [OF resume(1)] runs_weaken [OF resume(2)] scriptedI
        simp: reconcile_script_def Let_def)+
qed

subsection \<open>Properties\<close>

text \<open>
  C11: Reconciliation does what the policy asks for. If the stored record is valid, belongs to this controller and has
  three revisions left, and the calls of the traits succeed, then the outcome and the calls are, one for one, those of
  \<open>reconcile_script\<close> for what the host and the product answered in this run: a running workload is suspended exactly
  when it was idle for the policy's time, drains, and then shows no demand in a second observation; otherwise the
  suspension is cancelled. A suspended one is resumed exactly when there is demand, an interrupted drain is repaired, and
  a record in the middle of a transition is left to recovery after the load. The script names every record that is
  published, up to the last one, which is in the reported state, and every freeze, thaw, checkpoint and restore between.
\<close>

theorem reconciliation_completes:
  assumes "load S (scope_workload_id scope) w = (Ok r, w1)" and "validate r = Ok ()"
    and "validate_authority scope tok r = Ok ()" and "validate_strategy p r = Ok ()" and "tok \<noteq> 0"
    and "unat (revision r) + 3 < 2 ^ 64" and "cooperative S H P E"
  shows "if state r \<in> {PFreezing, PCheckpointing, PThawing, PRestoring}
    then fst (reconcile_once scope tok p S H P E w) = Err (RecoveryRequired (state r))
      \<and> reconcile_trace scope tok p S H P E w = [CallLoad (scope_workload_id scope) (Ok r)]
    else \<exists>a q b ck. fst (reconcile_once scope tok p S H P E w) = Ok (fst (reconcile_script tok p r a q b ck))
      \<and> reconcile_trace scope tok p S H P E w =
          CallLoad (scope_workload_id scope) (Ok r) # snd (reconcile_script tok p r a q b ck)"
proof -
  have left: "steps_left 3 tok r"
    using assms(2,3,5,6) by (auto simp: steps_left_def validate_iff validate_authority_def split: if_splits)
  have strategy: "policy_strategy p = to_strategy (strategy r)"
    using assms(4) by (auto simp: validate_strategy_def split: if_splits)
  let ?log = "[CallLoad (scope_workload_id scope) (Ok r)]"
  let ?rest = "case state r of
      PQuiescing \<Rightarrow> recover_quiesce tok r (traced_store S) (traced_product P)
    | PRunning \<Rightarrow> reconcile_stable tok p r (traced_store S) (traced_host H) (traced_product P) (traced_effects E)
    | PFrozen \<Rightarrow> reconcile_stable tok p r (traced_store S) (traced_host H) (traced_product P) (traced_effects E)
    | PHibernated \<Rightarrow> reconcile_stable tok p r (traced_store S) (traced_host H) (traced_product P) (traced_effects E)
    | _ \<Rightarrow> throwE (RecoveryRequired (state r))"
  have run: "reconcile_once scope tok p (traced_store S) (traced_host H) (traced_product P) (traced_effects E) (w, [])
      = ?rest (w1, ?log)"
    using assms(1-4) by (simp add: reconcile_once_def traced_def eff_defs)
  note ends = reconcile_trace_erases [of scope tok p S H P E w] reconcile_trace_def [of scope tok p S H P E w]
  show ?thesis
  proof (cases "state r \<in> {PFreezing, PCheckpointing, PThawing, PRestoring}")
    case True
    then show ?thesis
      unfolding ends run by (auto simp: throwE_def)
  next
    case False
    have "runs (recover_quiesce tok r (traced_store S) (traced_product P)) (scripted tok p r)" if "state r = PQuiescing"
    proof (rule runs_weaken [OF reopen_runs(2) [OF assms(7), of 2]])
      show "steps_left (Suc 2) tok r"
        using left by simp
    qed (use that in \<open>auto intro!: scriptedI simp: reconcile_script_def Let_def\<close>)
    then have "runs ?rest (scripted tok p r)"
      using False reconcile_stable_runs [OF assms(7) left strategy] by (cases "state r") simp_all
    then obtain x w' cs where "?rest (w1, ?log) = (Ok x, (w', ?log @ cs))" "scripted tok p r x cs"
      by (rule runsE)
    then show ?thesis
      unfolding ends run using False by (auto simp: scripted_def) (metis fst_conv snd_conv)
  qed
qed

definition sample_checkpoint :: LifecycleCheckpoint where
  "sample_checkpoint = \<lparr>artifact_ref = ''a'', digest = ''sha256:'' @ replicate 64 (CHR ''0''), ckpt_format = ''f''\<rparr>"

theorem reconciliation_completes_witness:
  "\<exists>a q b ck. reconcile_trace (sample_scope 13) 20 \<lparr>policy_strategy = Freeze, minimum_idle_ms = 1000\<rparr>
     (calm_store (sample_record 13 19 11 PRunning)) (calm_host long_idle) (calm_product Drained)
     (calm_effects sample_checkpoint) () = CallLoad ''tenant-42'' (Ok (sample_record 13 19 11 PRunning))
       # snd (reconcile_script 20 \<lparr>policy_strategy = Freeze, minimum_idle_ms = 1000\<rparr>
           (sample_record 13 19 11 PRunning) a q b ck)"
proof -
  let ?r = "sample_record 13 19 11 PRunning" and ?p = "\<lparr>policy_strategy = Freeze, minimum_idle_ms = 1000\<rparr>"
  let ?S = "calm_store ?r" and ?H = "calm_host long_idle" and ?P = "calm_product Drained"
    and ?E = "calm_effects sample_checkpoint"
  have "checkpoint_wf sample_checkpoint"
    by (auto simp: sample_checkpoint_def checkpoint_wf_def lower_hex_byte_def is_ascii_hexdigit_def is_ascii_uppercase_def
        byte_in_def is_ascii_digit_def list_all_iff intro!: exI [of _ "replicate 64 (CHR ''0'')"])
  then have coop: "cooperative ?S ?H ?P ?E"
    by (auto simp: cooperative_def calm_defs eff_Ok_iff)
  have "load ?S (scope_workload_id (sample_scope 13)) () = (Ok ?r, ())"
    by (simp add: calm_store_def returnE_def)
  moreover have "validate ?r = Ok ()"
    by (simp add: validate_iff sample_record_valid)
  moreover have "validate_authority (sample_scope 13) 20 ?r = Ok ()"
    by (simp add: validate_authority_def sample_scope_def sample_record_def)
  moreover have "validate_strategy ?p ?r = Ok ()"
    by (simp add: validate_strategy_def sample_record_def)
  moreover have "unat (revision ?r) + 3 < 2 ^ 64" "state ?r = PRunning" "scope_workload_id (sample_scope 13) = ''tenant-42''"
    by (simp_all add: sample_record_def sample_scope_def)
  ultimately show ?thesis
    using reconciliation_completes [of ?S "sample_scope 13" "()" ?r "()" 20 ?p ?H ?P ?E] coop by auto
qed

end
