(* ===== verification/Rust_Path.thy ===== *)
theory Rust_Path
  imports Rust_Str
begin

section \<open>Paths\<close>

text \<open>
  \<open>std::path\<close> on Unix. A path is its string; \<open>components\<close> is \<open>Path::components\<close>: empty segments vanish, a
  segment \<open>.\<close> survives only at the front of a relative path, \<open>..\<close> is kept. Equality, \<open>starts_with\<close> and
  \<open>strip_prefix\<close> of \<open>Path\<close> compare components, not strings.
\<close>

datatype path_component = RootDir | CurDir | ParentDir | Normal string

fun segment :: "string \<Rightarrow> path_component list" where
  "segment s = (if s = [] \<or> s = ''.'' then [] else if s = ''..'' then [ParentDir] else [Normal s])"

definition is_absolute :: "string \<Rightarrow> bool" where
  "is_absolute p \<longleftrightarrow> starts_with ''/'' p"

definition components :: "string \<Rightarrow> path_component list" where
  "components p =
     (let segs = split_byte (CHR ''/'') p in
      (if is_absolute p then [RootDir] else if hd segs = ''.'' then [CurDir] else [])
      @ concat (map segment segs))"

definition path_eq :: "string \<Rightarrow> string \<Rightarrow> bool" where
  "path_eq p q \<longleftrightarrow> components p = components q"

definition path_starts_with :: "string \<Rightarrow> string \<Rightarrow> bool" where
  "path_starts_with base p \<longleftrightarrow> take (length (components base)) (components p) = components base"

definition path_strip_prefix :: "string \<Rightarrow> string \<Rightarrow> path_component list option" where
  "path_strip_prefix base p =
     (if path_starts_with base p then Some (drop (length (components base)) (components p)) else None)"

definition has_traversal :: "string \<Rightarrow> bool" where
  "has_traversal p \<longleftrightarrow> list_ex (\<lambda>c. c = ParentDir \<or> c = CurDir) (components p)"

text \<open>\<open>Path::join\<close>: an absolute second path replaces the first.\<close>

definition path_join :: "string \<Rightarrow> string \<Rightarrow> string" where
  "path_join d n =
     (if starts_with ''/'' n then n
      else if d = [] \<or> ends_with ''/'' d then d @ n
      else d @ ''/'' @ n)"

text \<open>
  \<open>Path::parent\<close>, rendered from the components: the source keeps redundant separators, which name the
  same directory.
\<close>

fun component_string :: "path_component \<Rightarrow> string" where
  "component_string RootDir = []"
| "component_string CurDir = ''.''"
| "component_string ParentDir = ''..''"
| "component_string (Normal n) = n"

fun render :: "path_component list \<Rightarrow> string" where
  "render (RootDir # cs) = ''/'' @ join_byte (CHR ''/'') (map component_string cs)"
| "render cs = join_byte (CHR ''/'') (map component_string cs)"

definition path_parent :: "string \<Rightarrow> string option" where
  "path_parent p =
     (case rev (components p) of
        [] \<Rightarrow> None
      | RootDir # _ \<Rightarrow> None
      | _ # cs \<Rightarrow> Some (render (rev cs)))"

lemma path_join_inj:
  assumes "path_join d m = path_join d n" and "\<not> starts_with ''/'' m" and "\<not> starts_with ''/'' n"
  shows "m = n"
  using assms by (auto simp: path_join_def split: if_splits)

lemma path_starts_with_iff: "path_starts_with base p \<longleftrightarrow> (\<exists>r. components p = components base @ r)"
  unfolding path_starts_with_def by (metis append_eq_conv_conj append_take_drop_id)

lemma path_starts_with_refl [simp]: "path_starts_with p p"
  by (simp add: path_starts_with_def)

lemma path_starts_with_trans: "path_starts_with a b \<Longrightarrow> path_starts_with b c \<Longrightarrow> path_starts_with a c"
  by (auto simp: path_starts_with_iff)

lemma path_starts_with_antisym: "path_starts_with a b \<Longrightarrow> path_starts_with b a \<Longrightarrow> path_eq a b"
  by (auto simp: path_starts_with_iff path_eq_def)

lemma path_strip_prefix_Some_iff: "path_strip_prefix base p = Some r \<longleftrightarrow> components p = components base @ r"
  by (auto simp: path_strip_prefix_def path_starts_with_def) (metis append_take_drop_id)

lemma segment_components: "c \<in> set (segment s) \<Longrightarrow> c = ParentDir \<or> (\<exists>n. c = Normal n)"
  by (auto split: if_splits)

lemma absolute_components: "is_absolute p \<Longrightarrow> \<exists>r. components p = RootDir # r \<and> CurDir \<notin> set r \<and> RootDir \<notin> set r"
proof -
  assume a: "is_absolute p"
  let ?r = "concat (map segment (split_byte (CHR ''/'') p))"
  have "CurDir \<notin> set ?r" "RootDir \<notin> set ?r"
    by (auto simp del: segment.simps dest!: segment_components)
  moreover have "components p = RootDir # ?r"
    using a by (simp add: components_def Let_def)
  ultimately show ?thesis by blast
qed

text \<open>In an absolute path no component is \<open>CurDir\<close>: a lone dot is normalised away.\<close>

lemma absolute_no_CurDir: "is_absolute p \<Longrightarrow> CurDir \<notin> set (components p)"
  using absolute_components by fastforce

text \<open>Appending one plain name appends one component.\<close>

definition plain_name :: "string \<Rightarrow> bool" where
  "plain_name n \<longleftrightarrow> n \<noteq> [] \<and> CHR ''/'' \<notin> set n \<and> n \<noteq> ''.'' \<and> n \<noteq> ''..''"

lemma split_byte_append: "split_byte c (p @ c # q) = split_byte c p @ split_byte c q"
proof (induction p)
  case (Cons x p)
  then show ?case
    by (cases "split_byte c p") auto
qed simp

lemma components_append_slash:
  assumes "p \<noteq> []"
  shows "components (p @ ''/'' @ n) = components p @ concat (map segment (split_byte (CHR ''/'') n))"
proof -
  have hd: "hd (split_byte (CHR ''/'') p @ xs) = hd (split_byte (CHR ''/'') p)" for xs
    by (cases "split_byte (CHR ''/'') p") auto
  have "is_absolute (p @ ''/'' @ n) = is_absolute p"
    using assms by (cases p) (auto simp: is_absolute_def starts_with_def)
  then show ?thesis
    using split_byte_append [of "CHR ''/''" p n] hd by (simp add: components_def Let_def)
qed

lemma components_join_plain:
  assumes "plain_name n" and "p \<noteq> []"
  shows "components (path_join p n) = components p @ [Normal n]"
proof -
  have n: "split_byte (CHR ''/'') n = [n]" "\<not> starts_with ''/'' n"
    using assms(1) split_byte_no_occurrence by (auto simp: plain_name_def starts_with_iff)
  have seg: "segment n = [Normal n]"
    using assms(1) by (simp add: plain_name_def)
  show ?thesis
  proof (cases "ends_with ''/'' p")
    case False
    then show ?thesis
      using assms(2) n seg components_append_slash [OF assms(2), of n] by (simp add: path_join_def)
  next
    case True
    then obtain q where q: "p = q @ ''/''"
      by (auto simp: ends_with_iff)
    show ?thesis
    proof (cases "q = []")
      case True
      then show ?thesis
        using q n seg by (simp add: path_join_def components_def is_absolute_def starts_with_def ends_with_def Let_def)
    next
      case False
      then show ?thesis
        using q n seg components_append_slash [OF False, of n] components_append_slash [OF False, of "[]"] True
        by (simp add: path_join_def)
    qed
  qed
qed

end
