(* ===== verification/Posix_Fs.thy ===== *)
theory Posix_Fs
  imports Rust_Path "HOL-Library.AList"
begin

section \<open>Files\<close>

text \<open>
  What the sidecar uses of \<open>std::fs\<close>. A file system maps full path names to nodes; a
  regular file carries a flag saying whether its contents were synced. Every system call may fail
  at the choice of the environment: it takes the next element of \<open>faults\<close> (an exhausted list means
  no more failures), and a failing \<open>write_all\<close> may have written a part of its bytes. Every mutation
  appends the new file map to the ghost field \<open>history\<close>: a process that is stopped leaves the files in one of
  these states. A crash of the machine may lose more. The ghost field \<open>pending\<close> holds the file maps since the last
  time the directory was synced, any of which the disk may hold instead of the current one, and the contents of a file
  that was not synced are lost or torn: \<open>crash_image\<close> below. Changes of names are taken to reach the disk in
  order, as a journal writes them, and syncing a directory to make all of them so far durable; a file system that
  orders them less strictly needs a sync of each directory on the path, which the code does not issue. The clock is a
  list of readings, too.

  A hard link copies the contents of the source name; no code of the sidecar writes to a file after
  linking it, so sharing cannot be observed. Symbolic links are never followed: the code refuses
  them by \<open>symlink_metadata\<close> before it opens a name, and opening one is an error of the model.
\<close>

subsection \<open>File systems\<close>

datatype node = FileNode (contents: bytes) (synced: bool) | DirNode | SymlinkNode

datatype io_kind =
  NotFound | AlreadyExists | InvalidInput | PermissionDenied | StorageFull | WouldBlock | Interrupted
  | OtherKind

datatype fault = NoFault | Fails io_kind | FailsAfter nat io_kind

type_synonym file_map = "(string \<times> node) list"

record fs =
  nodes :: file_map
  history :: "file_map list"
  pending :: "file_map list"
  faults :: "fault list"
  clock :: "nat option list"
  pid :: nat

type_synonym ('x, 'a) io = "('x fs_scheme, io_kind, 'a) eff"

definition set_nodes :: "file_map \<Rightarrow> 'x fs_scheme \<Rightarrow> 'x fs_scheme" where
  "set_nodes m w = w\<lparr>nodes := m, history := history w @ [m], pending := pending w @ [nodes w]\<rparr>"

definition syscall :: "('x, 'a) io \<Rightarrow> ('x, 'a) io" where
  "syscall op w =
     (case faults w of
        [] \<Rightarrow> op w
      | f # fs' \<Rightarrow>
          (case f of
             NoFault \<Rightarrow> op (w\<lparr>faults := fs'\<rparr>)
           | Fails k \<Rightarrow> (Err k, w\<lparr>faults := fs'\<rparr>)
           | FailsAfter _ k \<Rightarrow> (Err k, w\<lparr>faults := fs'\<rparr>)))"

definition symlink_metadata :: "string \<Rightarrow> ('x, node) io" where
  "symlink_metadata p = syscall (\<lambda>w.
     (case map_of (nodes w) p of None \<Rightarrow> (Err NotFound, w) | Some n \<Rightarrow> (Ok n, w)))"

definition read_file :: "string \<Rightarrow> nat \<Rightarrow> ('x, bytes) io" where
  "read_file p limit = syscall (\<lambda>w.
     (case map_of (nodes w) p of
        None \<Rightarrow> (Err NotFound, w)
      | Some (FileNode b _) \<Rightarrow> (Ok (take limit b), w)
      | Some _ \<Rightarrow> (Err InvalidInput, w)))"

definition open_existing :: "string \<Rightarrow> ('x, unit) io" where
  "open_existing p = syscall (\<lambda>w.
     (case map_of (nodes w) p of
        None \<Rightarrow> (Err NotFound, w)
      | Some SymlinkNode \<Rightarrow> (Err InvalidInput, w)
      | Some _ \<Rightarrow> (Ok (), w)))"

text \<open>\<open>OpenOptions::new().read(true).write(true).create(true).truncate(false)\<close>.\<close>

definition open_or_create :: "string \<Rightarrow> ('x, unit) io" where
  "open_or_create p = syscall (\<lambda>w.
     (case map_of (nodes w) p of
        None \<Rightarrow> (Ok (), set_nodes (AList.update p (FileNode [] False) (nodes w)) w)
      | Some (FileNode _ _) \<Rightarrow> (Ok (), w)
      | Some _ \<Rightarrow> (Err InvalidInput, w)))"

text \<open>\<open>create_new(true)\<close>: fails when the name exists.\<close>

definition create_new :: "string \<Rightarrow> ('x, unit) io" where
  "create_new p = syscall (\<lambda>w.
     (case map_of (nodes w) p of
        None \<Rightarrow> (Ok (), set_nodes (AList.update p (FileNode [] False) (nodes w)) w)
      | Some _ \<Rightarrow> (Err AlreadyExists, w)))"

definition put_bytes :: "string \<Rightarrow> bytes \<Rightarrow> 'x fs_scheme \<Rightarrow> 'x fs_scheme" where
  "put_bytes p b w = set_nodes (AList.update p (FileNode b False) (nodes w)) w"

text \<open>\<open>write_all\<close> on a file that was just created: a failure may leave a part of the bytes.\<close>

definition write_all :: "string \<Rightarrow> bytes \<Rightarrow> ('x, unit) io" where
  "write_all p b w =
     (case faults w of
        [] \<Rightarrow> (Ok (), put_bytes p b w)
      | f # fs' \<Rightarrow>
          (let w' = w\<lparr>faults := fs'\<rparr> in
           case f of
             NoFault \<Rightarrow> (Ok (), put_bytes p b w')
           | Fails k \<Rightarrow> (Err k, w')
           | FailsAfter n k \<Rightarrow> (Err k, put_bytes p (take n b) w')))"

text \<open>\<open>File::sync_all\<close>: of a file its contents, of a directory the names in it.\<close>

definition sync_all :: "string \<Rightarrow> ('x, unit) io" where
  "sync_all p = syscall (\<lambda>w.
     (case map_of (nodes w) p of
        Some (FileNode b _) \<Rightarrow> (Ok (), set_nodes (AList.update p (FileNode b True) (nodes w)) w)
      | Some DirNode \<Rightarrow> (Ok (), w\<lparr>pending := []\<rparr>)
      | _ \<Rightarrow> (Ok (), w)))"

definition remove_file :: "string \<Rightarrow> ('x, unit) io" where
  "remove_file p = syscall (\<lambda>w.
     (case map_of (nodes w) p of
        None \<Rightarrow> (Err NotFound, w)
      | Some DirNode \<Rightarrow> (Err PermissionDenied, w)
      | Some _ \<Rightarrow> (Ok (), set_nodes (AList.delete p (nodes w)) w)))"

definition hard_link :: "string \<Rightarrow> string \<Rightarrow> ('x, unit) io" where
  "hard_link p q = syscall (\<lambda>w.
     (case map_of (nodes w) p of
        None \<Rightarrow> (Err NotFound, w)
      | Some n \<Rightarrow>
          (if map_of (nodes w) q \<noteq> None then (Err AlreadyExists, w)
           else (Ok (), set_nodes (AList.update q n (nodes w)) w))))"

definition rename :: "string \<Rightarrow> string \<Rightarrow> ('x, unit) io" where
  "rename p q = syscall (\<lambda>w.
     (case map_of (nodes w) p of
        None \<Rightarrow> (Err NotFound, w)
      | Some n \<Rightarrow>
          (if map_of (nodes w) q = Some DirNode then (Err PermissionDenied, w)
           else (Ok (), set_nodes (AList.update q n (AList.delete p (nodes w))) w))))"

definition create_dir :: "string \<Rightarrow> ('x, unit) io" where
  "create_dir p = syscall (\<lambda>w.
     (if map_of (nodes w) p \<noteq> None then (Err AlreadyExists, w)
      else (Ok (), set_nodes (AList.update p DirNode (nodes w)) w)))"

text \<open>The names of the entries of a directory, in the order of the map.\<close>

definition entry_name :: "string \<Rightarrow> string \<Rightarrow> string option" where
  "entry_name d p =
     (case strip_prefix (path_join d []) p of
        None \<Rightarrow> None
      | Some n \<Rightarrow> (if n = [] \<or> CHR ''/'' \<in> set n then None else Some n))"

definition read_dir :: "string \<Rightarrow> ('x, string list) io" where
  "read_dir d = syscall (\<lambda>w.
     (if map_of (nodes w) d = Some DirNode
      then (Ok (remdups (List.map_filter (entry_name d) (map fst (nodes w)))), w)
      else (Err NotFound, w)))"

text \<open>\<open>SystemTime::now().duration_since(UNIX_EPOCH)\<close>: \<open>None\<close> when the clock is before the epoch.\<close>

definition now_nanos :: "('x fs_scheme, unit, nat) eff" where
  "now_nanos w =
     (case clock w of
        [] \<Rightarrow> (Ok 0, w)
      | None # c \<Rightarrow> (Err (), w\<lparr>clock := c\<rparr>)
      | Some t # c \<Rightarrow> (Ok t, w\<lparr>clock := c\<rparr>))"

definition process_id :: "('x fs_scheme, 'e, nat) eff" where
  "process_id w = (Ok (pid w), w)"

subsection \<open>Crashes\<close>

text \<open>
  \<open>crash_points w\<close>: the file maps that the disk may hold in the state \<open>w\<close>, the oldest first. \<open>crash_image m m'\<close>:
  \<open>m'\<close> is found after a crash of a machine whose disk held \<open>m\<close>. Directories, synced files and absent names are as
  in \<open>m\<close>; a file that was not synced is gone or has any contents.
\<close>

definition crash_points :: "'x fs_scheme \<Rightarrow> file_map list" where
  "crash_points w = pending w @ [nodes w]"

definition crash_image :: "file_map \<Rightarrow> file_map \<Rightarrow> bool" where
  "crash_image m m' \<longleftrightarrow>
     (\<forall>p. case map_of m p of
            Some (FileNode _ False) \<Rightarrow> (case map_of m' p of None \<Rightarrow> True | Some (FileNode _ _) \<Rightarrow> True | Some _ \<Rightarrow> False)
          | n \<Rightarrow> map_of m' p = n)"

lemma crash_image_synced:
  assumes "crash_image m m'" and "\<And>b. map_of m p \<noteq> Some (FileNode b False)"
  shows "map_of m' p = map_of m p"
proof (cases "map_of m p")
  case (Some n)
  with assms show ?thesis
    using spec [OF assms(1) [unfolded crash_image_def], of p] by (cases n) (auto split: bool.splits)
qed (use spec [OF assms(1) [unfolded crash_image_def], of p] in simp)

subsection \<open>Which names a call touches\<close>

text \<open>
  \<open>extends Q w w'\<close>: every file map that was recorded from \<open>w\<close> to \<open>w'\<close> satisfies \<open>Q\<close>, and a crash in \<open>w'\<close> finds the
  disk in one of them or in a crash point of \<open>w\<close>. \<open>touches A m\<close>: the call \<open>m\<close> changes at most the names in \<open>A\<close>, in
  every state that it passes through.
  \<open>agree\<close> compares two file maps outside a set of names.
\<close>

definition agree :: "string set \<Rightarrow> file_map \<Rightarrow> file_map \<Rightarrow> bool" where
  "agree A m m' \<longleftrightarrow> (\<forall>p. p \<notin> A \<longrightarrow> map_of m' p = map_of m p)"

definition extends :: "(file_map \<Rightarrow> bool) \<Rightarrow> 'x fs_scheme \<Rightarrow> 'x fs_scheme \<Rightarrow> bool" where
  "extends Q w w' \<longleftrightarrow> (\<exists>hs. history w' = history w @ hs \<and> (\<forall>h\<in>set hs. Q h) \<and> set (crash_points w') \<subseteq> set (crash_points w) \<union> set hs)
       \<and> Q (nodes w')"

definition touches :: "string set \<Rightarrow> ('x fs_scheme, 'e, 'a) eff \<Rightarrow> bool" where
  "touches A m \<longleftrightarrow> (\<forall>w. extends (agree A (nodes w)) w (snd (m w)))"

lemma agree_refl [simp]: "agree A m m"
  by (simp add: agree_def)

lemma agree_trans: "agree A m m' \<Longrightarrow> agree A m' m'' \<Longrightarrow> agree A m m''"
  by (simp add: agree_def)

lemma agree_mono: "agree A m m' \<Longrightarrow> A \<subseteq> B \<Longrightarrow> agree B m m'"
  by (auto simp: agree_def)

lemma extends_refl: "Q (nodes w) \<Longrightarrow> extends Q w w"
  by (simp add: extends_def)

lemma extends_trans:
  assumes "extends Q w w'" and "extends Q' w' w''" and "\<And>m. Q' m \<Longrightarrow> Q m"
  shows "extends Q w w''"
proof -
  obtain hs where h: "history w' = history w @ hs" "\<forall>h\<in>set hs. Q h"
      "set (crash_points w') \<subseteq> set (crash_points w) \<union> set hs"
    using assms(1) unfolding extends_def by blast
  obtain hs' where h': "history w'' = history w' @ hs'" "\<forall>h\<in>set hs'. Q' h"
      "set (crash_points w'') \<subseteq> set (crash_points w') \<union> set hs'" "Q' (nodes w'')"
    using assms(2) unfolding extends_def by blast
  have "history w'' = history w @ (hs @ hs')" "\<forall>h\<in>set (hs @ hs'). Q h"
      "set (crash_points w'') \<subseteq> set (crash_points w) \<union> set (hs @ hs')" "Q (nodes w'')"
    using h h' assms(3) by auto
  then show ?thesis
    unfolding extends_def by blast
qed

lemma extends_mono: "extends Q w w' \<Longrightarrow> (\<And>m. Q m \<Longrightarrow> Q' m) \<Longrightarrow> extends Q' w w'"
  unfolding extends_def by blast

lemma extends_nodes: "extends Q w w' \<Longrightarrow> Q (nodes w')"
  by (simp add: extends_def)

text \<open>Steps of the files.\<close>

lemma extends_change:
  "history w' = history w @ [nodes w'] \<Longrightarrow> pending w' = pending w @ [nodes w] \<Longrightarrow> Q (nodes w') \<Longrightarrow> extends Q w w'"
  by (auto simp: extends_def crash_points_def)

lemma extends_same_files:
  "nodes w' = nodes w \<Longrightarrow> history w' = history w \<Longrightarrow> pending w' = pending w \<Longrightarrow> Q (nodes w) \<Longrightarrow> extends Q w w'"
  by (auto simp: extends_def crash_points_def)

lemma extends_synced: "Q (nodes w) \<Longrightarrow> extends Q w (w\<lparr>pending := []\<rparr>)"
  by (simp add: extends_def crash_points_def)

lemma extends_faults [simp]:
  "extends Q (w\<lparr>faults := f\<rparr>) w' = extends Q w w'" "extends Q w (w'\<lparr>faults := f\<rparr>) = extends Q w w'"
  by (simp_all add: extends_def crash_points_def)

lemma touches_agree: "touches A m \<Longrightarrow> m w = (r, w') \<Longrightarrow> agree A (nodes w) (nodes w')"
  unfolding touches_def extends_def by (metis snd_conv)

lemma touches_mono: "touches A m \<Longrightarrow> A \<subseteq> B \<Longrightarrow> touches B m"
  unfolding touches_def by (meson agree_mono extends_mono)

lemma touches_returnE [simp]: "touches A (returnE a)"
  by (simp add: touches_def returnE_def extends_refl)

lemma touches_throwE [simp]: "touches A (throwE e)"
  by (simp add: touches_def throwE_def extends_refl)

lemma touches_liftE [simp]: "touches A (liftE r)"
  by (simp add: touches_def liftE_def extends_refl)

lemma touches_map_errE: "touches A m \<Longrightarrow> touches A (map_errE f m)"
  by (auto simp: touches_def map_errE_def split: prod.splits) (metis snd_conv)

lemma touches_bindE:
  assumes "touches A m" and "\<And>a. touches A (k a)"
  shows "touches A (bindE m k)"
  unfolding touches_def
proof
  fix w
  obtain r w' where m: "m w = (r, w')"
    by fastforce
  have a: "extends (agree A (nodes w)) w w'"
    using assms(1) m unfolding touches_def by (metis snd_conv)
  show "extends (agree A (nodes w)) w (snd (bindE m k w))"
  proof (cases r)
    case (Inl e)
    then show ?thesis
      using m a by (simp add: bindE_def)
  next
    case (Inr b)
    have "extends (agree A (nodes w')) w' (snd (k b w'))"
      using assms(2) unfolding touches_def by blast
    moreover have "agree A (nodes w) (nodes w')"
      using a by (simp add: extends_def)
    ultimately show ?thesis
      using m Inr a by (simp add: bindE_def) (meson agree_trans extends_trans)
  qed
qed

lemma touches_catchE:
  assumes "touches A m" and "\<And>e. touches A (h e)"
  shows "touches A (catchE m h)"
  unfolding touches_def
proof
  fix w
  obtain r w' where m: "m w = (r, w')"
    by fastforce
  have a: "extends (agree A (nodes w)) w w'" "agree A (nodes w) (nodes w')"
    using assms(1) m unfolding touches_def extends_def by (metis snd_conv)+
  have "extends (agree A (nodes w')) w' (snd (h e w'))" for e
    using assms(2) unfolding touches_def by blast
  then have "extends (agree A (nodes w)) w (snd (h e w'))" for e
    using a by (meson agree_trans extends_trans)
  then show "extends (agree A (nodes w)) w (snd (catchE m h w))"
    using m a by (cases r) (auto simp: catchE_def)
qed

lemma touches_syscall:
  assumes "touches A op"
  shows "touches A (syscall op)"
  unfolding touches_def
proof
  fix w
  have "extends (agree A (nodes w)) w (snd (op (w\<lparr>faults := f\<rparr>)))" for f
    using assms [unfolded touches_def, rule_format, of "w\<lparr>faults := f\<rparr>"] by simp
  then show "extends (agree A (nodes w)) w (snd (syscall op w))"
    using assms [unfolded touches_def, rule_format, of w]
    by (auto simp: syscall_def extends_refl split: list.splits fault.splits)
qed

lemma extends_set_nodes: "agree A (nodes w) m \<Longrightarrow> extends (agree A (nodes w)) w (set_nodes m w)"
  by (rule extends_change) (simp_all add: set_nodes_def)

lemma agree_update: "p \<in> A \<Longrightarrow> agree A m (AList.update p n m)"
  by (auto simp: agree_def update_conv')

lemma agree_delete: "p \<in> A \<Longrightarrow> agree A m (AList.delete p m)"
  by (auto simp: agree_def delete_conv')

lemma agree_rename: "p \<in> A \<Longrightarrow> q \<in> A \<Longrightarrow> agree A m (AList.update q n (AList.delete p m))"
  by (auto simp: agree_def update_conv' delete_conv')

lemmas touch_simps =
  touches_def extends_refl extends_set_nodes extends_synced agree_update agree_delete agree_rename

lemma touches_reads:
  "touches A (symlink_metadata p)" "touches A (read_file p n)" "touches A (open_existing p)"
  "touches A (read_dir p)"
  unfolding symlink_metadata_def read_file_def open_existing_def read_dir_def
  by (rule touches_syscall, (auto simp: touch_simps split: option.splits node.splits)[])+

lemma touches_writes:
  "p \<in> A \<Longrightarrow> touches A (open_or_create p)" "p \<in> A \<Longrightarrow> touches A (create_new p)"
  "p \<in> A \<Longrightarrow> touches A (sync_all p)" "p \<in> A \<Longrightarrow> touches A (remove_file p)"
  "p \<in> A \<Longrightarrow> touches A (create_dir p)"
  "q \<in> A \<Longrightarrow> touches A (hard_link p q)"
  "p \<in> A \<Longrightarrow> q \<in> A \<Longrightarrow> touches A (rename p q)"
  unfolding open_or_create_def create_new_def sync_all_def remove_file_def create_dir_def hard_link_def
    rename_def
  by (rule touches_syscall, (auto simp: touch_simps split: option.splits node.splits)[])+

lemma touches_write_all: "p \<in> A \<Longrightarrow> touches A (write_all p b)"
  unfolding touches_def
proof
  fix w :: "'x fs_scheme"
  assume p: "p \<in> A"
  have put: "extends (agree A (nodes w)) w (put_bytes p c (w\<lparr>faults := f\<rparr>))" for c f
    using agree_update [OF p] by (intro extends_change) (simp_all add: put_bytes_def set_nodes_def)
  have put0: "extends (agree A (nodes w)) w (put_bytes p c w)" for c
    using put [of c "faults w"] by simp
  show "extends (agree A (nodes w)) w (snd (write_all p b w))"
    using put put0
    by (auto simp: write_all_def Let_def extends_refl split: list.splits fault.splits)
qed

lemma touches_now: "touches A now_nanos" "touches A process_id"
  by (auto simp: touches_def now_nanos_def process_id_def intro!: extends_same_files split: list.splits option.splits)

lemmas touches_calls =
  touches_reads touches_writes touches_write_all touches_now touches_returnE touches_throwE touches_liftE

lemma touches_liftE_bindE: "(\<And>a. r = Ok a \<Longrightarrow> touches A (k a)) \<Longrightarrow> touches A (bindE (liftE r) k)"
  by (cases r) (auto simp: touches_def bindE_def liftE_def extends_refl)

lemma touches_if: "(b \<Longrightarrow> touches A m) \<Longrightarrow> (\<not> b \<Longrightarrow> touches A n) \<Longrightarrow> touches A (if b then m else n)"
  by simp

lemma touches_node:
  "(\<And>b s. touches A (f b s)) \<Longrightarrow> touches A d \<Longrightarrow> touches A l \<Longrightarrow>
   touches A (case n of FileNode b s \<Rightarrow> f b s | DirNode \<Rightarrow> d | SymlinkNode \<Rightarrow> l)"
  by (cases n) auto

lemmas touches_rules =
  touches_bindE touches_map_errE touches_catchE touches_if touches_node touches_calls

lemma within_node:
  "(\<And>c b. within R (f c b)) \<Longrightarrow> within R d \<Longrightarrow> within R s \<Longrightarrow>
   within R (case n of FileNode c b \<Rightarrow> f c b | DirNode \<Rightarrow> d | SymlinkNode \<Rightarrow> s)"
  by (cases n) simp_all

text \<open>A property of the files that a call does not touch holds in every state it passes through.\<close>

lemma hoareE_touches:
  assumes "touches A m" and "\<And>x y. agree A x y \<Longrightarrow> R x \<Longrightarrow> R y" and "\<And>x. R x \<Longrightarrow> Q x"
  shows "hoareE (\<lambda>w. extends Q w0 w \<and> R (nodes w)) m (\<lambda>_ w. extends Q w0 w \<and> R (nodes w))
    (\<lambda>w. extends Q w0 w \<and> R (nodes w))"
proof -
  have keep: "extends Q w0 w' \<and> R (nodes w')" if "extends Q w0 w" "R (nodes w)" "m w = (r, w')" for w w' r
  proof -
    have e: "extends (agree A (nodes w)) w w'"
      using assms(1) that(3) unfolding touches_def by (metis snd_conv)
    then have "extends R w w'"
      using assms(2) that(2) by (meson extends_mono)
    then show ?thesis
      using that(1) assms(3) extends_trans [of Q w0 w R w'] by (auto dest: extends_nodes)
  qed
  show ?thesis
    unfolding hoareE_def
  proof (intro allI impI)
    fix w
    assume "extends Q w0 w \<and> R (nodes w)"
    moreover obtain r w' where "m w = (r, w')"
      by fastforce
    ultimately show "case m w of (r, w') \<Rightarrow> case r of Err _ \<Rightarrow> extends Q w0 w' \<and> R (nodes w')
        | Ok a \<Rightarrow> extends Q w0 w' \<and> R (nodes w')"
      using keep [of w r w'] by (simp split: sum.split)
  qed
qed

text \<open>Successful reads report the files.\<close>

lemma syscall_elim:
  assumes "syscall op w = (r, w')"
  obtains f where "op (w\<lparr>faults := f\<rparr>) = (r, w')"
  | f k where "r = Err k" "w' = w\<lparr>faults := f\<rparr>"
proof (cases "faults w")
  case Nil
  then have "op w = (r, w')"
    using assms by (simp add: syscall_def)
  moreover have "w = w\<lparr>faults := faults w\<rparr>" by simp
  ultimately show ?thesis
    using that(1) by metis
next
  case (Cons x xs)
  then show ?thesis
    using that assms by (cases x) (auto simp: syscall_def)
qed

lemma syscall_Ok:
  assumes "syscall op w = (Ok a, w')"
  obtains f where "op (w\<lparr>faults := f\<rparr>) = (Ok a, w')"
  using assms by (rule syscall_elim) auto

lemma symlink_metadata_Ok:
  assumes "symlink_metadata p w = (Ok n, w')"
  shows "map_of (nodes w) p = Some n" "nodes w' = nodes w"
  using assms unfolding symlink_metadata_def by - (erule syscall_Ok, auto split: option.split_asm)+

lemma open_existing_Ok: "open_existing p w = (Ok n, w') \<Longrightarrow> nodes w' = nodes w"
  unfolding open_existing_def by (elim syscall_Ok) (auto split: option.split_asm node.split_asm)

lemma read_file_Ok:
  assumes "read_file p k w = (Ok b, w')"
  shows "\<exists>c s. map_of (nodes w) p = Some (FileNode c s) \<and> b = take k c"
  using assms unfolding read_file_def by (elim syscall_Ok) (auto split: option.split_asm node.split_asm)

lemma create_new_Ok:
  assumes "create_new p w = (Ok u, w')"
  shows "map_of (nodes w) p = None"
  using assms unfolding create_new_def by (elim syscall_Ok) (auto split: option.split_asm)

lemma write_all_Ok: "write_all p b w = (Ok u, w') \<Longrightarrow> map_of (nodes w') p = Some (FileNode b False)"
  by (auto simp: write_all_def put_bytes_def set_nodes_def Let_def update_conv' split: list.splits fault.splits)

lemma sync_all_Ok:
  assumes "sync_all p w = (Ok u, w')" and "map_of (nodes w) p = Some (FileNode b s)"
  shows "map_of (nodes w') p = Some (FileNode b True)"
  using assms unfolding sync_all_def
  by (elim syscall_Ok) (auto simp: set_nodes_def update_conv')

lemma sync_all_directory:
  assumes "sync_all p w = (Ok u, w')" and "map_of (nodes w) p = Some DirNode"
  shows "nodes w' = nodes w" "pending w' = []"
  using assms unfolding sync_all_def by - (elim syscall_Ok, auto)+

text \<open>What a rename and a link do, whether they succeed or not.\<close>

lemma rename_cases:
  assumes "rename p q w = (r, w')"
  shows "is_Err r \<and> nodes w' = nodes w \<and> history w' = history w \<and> pending w' = pending w \<or>
    r = Ok () \<and> (\<exists>n. map_of (nodes w) p = Some n \<and> nodes w' = AList.update q n (AList.delete p (nodes w))
      \<and> history w' = history w @ [nodes w'] \<and> pending w' = pending w @ [nodes w])"
  using assms unfolding rename_def
  by (elim syscall_elim) (auto simp: set_nodes_def split: option.split_asm if_split_asm)

lemma hard_link_cases:
  assumes "hard_link p q w = (r, w')"
  shows "is_Err r \<and> nodes w' = nodes w \<and> history w' = history w \<and> pending w' = pending w \<or>
    r = Ok () \<and> (\<exists>n. map_of (nodes w) p = Some n \<and> map_of (nodes w) q = None \<and>
      nodes w' = AList.update q n (nodes w) \<and> history w' = history w @ [nodes w'] \<and> pending w' = pending w @ [nodes w])"
  using assms unfolding hard_link_def
  by (elim syscall_elim) (auto simp: set_nodes_def split: option.split_asm if_split_asm)

end
