(* ===== verification/File_Store.thy ===== *)
theory File_Store
  imports Posix_Fs Lifecycle_Store
begin

section \<open>The file record store (\<open>src/src/adapters/process_lifecycle_file_store.rs\<close>)\<close>

text \<open>
  Records are JSON files \<open><hex of the workload id>.json\<close> below a real directory; a replacement is
  written to a synced temporary file and renamed over the record. The JSON codec (\<open>serde_json\<close> with
  the derived implementations) is the parameter \<open>J\<close>; that it reads back what it wrote is the
  hypothesis \<open>json_roundtrip\<close>. \<open>src/src/adapters/stream.rs\<close> is \<open>read_bounded\<close> and
  \<open>write_synced_new\<close>.

  The lock of a workload is taken without contention: the model runs one store operation at a time,
  which is what the lock file provides to the processes of one host.
\<close>

record json_codec =
  to_vec :: "LifecycleRecord \<Rightarrow> bytes option"
  from_slice :: "bytes \<Rightarrow> LifecycleRecord option"

definition json_roundtrip :: "json_codec \<Rightarrow> bool" where
  "json_roundtrip J \<longleftrightarrow> (\<forall>r b. to_vec J r = Some b \<longrightarrow> from_slice J b = Some r)"

subsection \<open>Constants and errors\<close>

definition MAX_RECORD_BYTES :: nat where
  "MAX_RECORD_BYTES = 64 * 1024"

definition MAX_WORKLOAD_ID_BYTES :: nat where
  "MAX_WORKLOAD_ID_BYTES = 96"

definition RECORDS_DIRECTORY :: string where
  "RECORDS_DIRECTORY = ''records''"

definition TEMP_PREFIX :: string where
  "TEMP_PREFIX = ''.ores-lifecycle-''"

definition TEMP_SUFFIX :: string where
  "TEMP_SUFFIX = ''.tmp''"

definition LOCK_SUFFIX :: string where
  "LOCK_SUFFIX = ''.lock''"

datatype FileLifecycleRecordStoreError =
    InvalidRoot
  | InvalidRecordsDirectory
  | InvalidWorkloadId
  | InvalidRecord
  | InvalidLockFile
  | RecordTooLarge
  | MissingRecord
  | AlreadyInitialized
  | UnexpectedCurrent
  | InvalidTemporaryEntry
  | ClockUnavailable
  | Json
  | Io io_kind

fun FileLifecycleRecordStoreError_fmt :: "FileLifecycleRecordStoreError \<Rightarrow> string" where
  "FileLifecycleRecordStoreError_fmt InvalidRoot = ''lifecycle record root must be an existing real directory''"
| "FileLifecycleRecordStoreError_fmt InvalidRecordsDirectory = ''lifecycle records directory must be a real directory''"
| "FileLifecycleRecordStoreError_fmt InvalidWorkloadId = ''lifecycle workload id is not file-store safe''"
| "FileLifecycleRecordStoreError_fmt InvalidRecord = ''lifecycle record violates durable invariants''"
| "FileLifecycleRecordStoreError_fmt InvalidLockFile = ''lifecycle CAS lock path must be a real regular file''"
| "FileLifecycleRecordStoreError_fmt RecordTooLarge = ''lifecycle record exceeds durable byte limit''"
| "FileLifecycleRecordStoreError_fmt MissingRecord = ''lifecycle record does not exist''"
| "FileLifecycleRecordStoreError_fmt AlreadyInitialized = ''lifecycle record is already initialized''"
| "FileLifecycleRecordStoreError_fmt UnexpectedCurrent = ''lifecycle compare-and-set expected record is stale''"
| "FileLifecycleRecordStoreError_fmt InvalidTemporaryEntry = ''lifecycle temporary record entry is invalid''"
| "FileLifecycleRecordStoreError_fmt ClockUnavailable = ''system clock unavailable for temporary record identity''"
| "FileLifecycleRecordStoreError_fmt Json = ''lifecycle record JSON is invalid''"
| "FileLifecycleRecordStoreError_fmt (Io _) = ''lifecycle record filesystem operation failed''"

type_synonym ('x, 'a) store_op = "('x fs_scheme, FileLifecycleRecordStoreError, 'a) eff"

record FileLifecycleRecordStore =
  records_root :: string

subsection \<open>Stream helpers\<close>

definition read_bounded :: "string \<Rightarrow> nat \<Rightarrow> ('x, bytes) io" where
  "read_bounded p max_bytes = bindE (open_existing p) (\<lambda>_. read_file p (max_bytes + 1))"

definition write_synced_new :: "string \<Rightarrow> bytes \<Rightarrow> ('x, unit) io" where
  "write_synced_new p b =
     bindE (create_new p) (\<lambda>_. bindE (write_all p b) (\<lambda>_. sync_all p))"

subsection \<open>Helpers\<close>

definition hex_digit :: "nat \<Rightarrow> char" where
  "hex_digit n = char_of (if n < 10 then 48 + n else 87 + n)"

text \<open>\<open>format!("{byte:02x}")\<close>\<close>

definition hex_byte :: "char \<Rightarrow> string" where
  "hex_byte c = [hex_digit (of_char c div 16), hex_digit (of_char c mod 16)]"

definition workload_file_key :: "string \<Rightarrow> FileLifecycleRecordStoreError + string" where
  "workload_file_key i =
     (if i \<noteq> [] \<and> length i \<le> MAX_WORKLOAD_ID_BYTES
         \<and> list_all (\<lambda>c. is_ascii_alphanumeric c \<or> c \<in> {CHR ''-'', CHR ''_'', CHR ''.'', CHR '':''}) i
      then Ok (concat (map hex_byte i))
      else Err InvalidWorkloadId)"

definition validate_record :: "LifecycleRecord \<Rightarrow> FileLifecycleRecordStoreError + unit" where
  "validate_record r =
     bindR (workload_file_key (workload_id r)) (\<lambda>_. map_err (\<lambda>_. InvalidRecord) (validate r))"

definition serialize_record :: "json_codec \<Rightarrow> LifecycleRecord \<Rightarrow> FileLifecycleRecordStoreError + bytes" where
  "serialize_record J r =
     bindR (ok_or Json (to_vec J r)) (\<lambda>b. if length b > MAX_RECORD_BYTES then Err RecordTooLarge else Ok b)"

definition validate_real_directory :: "string \<Rightarrow> ('x, unit) io" where
  "validate_real_directory p =
     bindE (symlink_metadata p) (\<lambda>m. if m \<noteq> DirNode then throwE InvalidInput else returnE ())"

definition ensure_records_directory :: "string \<Rightarrow> ('x, unit) store_op" where
  "ensure_records_directory p =
     bindE (catchE (bindE (symlink_metadata p) (\<lambda>_. returnE True))
             (\<lambda>k. if k = NotFound then returnE False else throwE (Io k))) (\<lambda>present.
     if present then map_errE (\<lambda>_. InvalidRecordsDirectory) (validate_real_directory p)
     else
       bindE (catchE (create_dir p) (\<lambda>k. if k = AlreadyExists then returnE () else throwE (Io k))) (\<lambda>_.
       map_errE (\<lambda>_. InvalidRecordsDirectory) (validate_real_directory p)))"

text \<open>The loop over the directory: an entry whose name is not UTF-8 is skipped.\<close>

definition is_temporary_name :: "string \<Rightarrow> bool" where
  "is_temporary_name n \<longleftrightarrow> starts_with TEMP_PREFIX n \<and> ends_with TEMP_SUFFIX n"

fun recover_entries :: "string \<Rightarrow> string list \<Rightarrow> ('x, unit) store_op" where
  "recover_entries p [] = returnE ()"
| "recover_entries p (n # ns) =
     (if \<not> valid_utf8 n \<or> \<not> is_temporary_name n then recover_entries p ns
      else
        bindE (map_errE Io (symlink_metadata (path_join p n))) (\<lambda>m.
        case m of
          FileNode _ _ \<Rightarrow>
            bindE (map_errE Io (remove_file (path_join p n))) (\<lambda>_. recover_entries p ns)
        | _ \<Rightarrow> throwE InvalidTemporaryEntry))"

definition recover_temporary_files :: "string \<Rightarrow> ('x, unit) store_op" where
  "recover_temporary_files p =
     bindE (map_errE Io (read_dir p)) (\<lambda>ns. recover_entries p ns)"

definition path_exists :: "string \<Rightarrow> ('x, bool) store_op" where
  "path_exists p =
     catchE (bindE (symlink_metadata p) (\<lambda>_. returnE True))
       (\<lambda>k. if k = NotFound then returnE False else throwE (Io k))"

definition cleanup_temporary :: "string \<Rightarrow> ('x, unit) store_op" where
  "cleanup_temporary p = map_errE Io (remove_file p)"

definition sync_directory :: "string \<Rightarrow> ('x, unit) store_op" where
  "sync_directory p = map_errE Io (bindE (open_existing p) (\<lambda>_. sync_all p))"

subsection \<open>The store\<close>

definition record_path :: "FileLifecycleRecordStore \<Rightarrow> string \<Rightarrow> FileLifecycleRecordStoreError + string" where
  "record_path st i =
     bindR (workload_file_key i) (\<lambda>key. Ok (path_join (records_root st) (key @ ''.json'')))"

definition lock_path :: "FileLifecycleRecordStore \<Rightarrow> string \<Rightarrow> FileLifecycleRecordStoreError + string" where
  "lock_path st i =
     bindR (workload_file_key i) (\<lambda>key. Ok (path_join (records_root st) (key @ LOCK_SUFFIX)))"

definition open_store ::
  "string \<Rightarrow> ('x, FileLifecycleRecordStore) store_op" where
  "open_store root =
     bindE (map_errE (\<lambda>_. InvalidRoot) (validate_real_directory root)) (\<lambda>_.
     (let records = path_join root RECORDS_DIRECTORY in
      bindE (ensure_records_directory records) (\<lambda>_.
      bindE (recover_temporary_files records) (\<lambda>_.
      returnE \<lparr>records_root = records\<rparr>))))"

definition acquire_workload_lock :: "FileLifecycleRecordStore \<Rightarrow> string \<Rightarrow> ('x, unit) store_op" where
  "acquire_workload_lock st i =
     bindE (liftE (lock_path st i)) (\<lambda>p.
     bindE (catchE (bindE (map_errE Io (symlink_metadata p)) (\<lambda>m.
               case m of FileNode _ _ \<Rightarrow> returnE () | _ \<Rightarrow> throwE InvalidLockFile))
             (\<lambda>e. if e = Io NotFound then returnE () else throwE e)) (\<lambda>_.
     bindE (map_errE Io (open_or_create p)) (\<lambda>_.
     bindE (map_errE Io (symlink_metadata p)) (\<lambda>m.
     case m of
       FileNode _ _ \<Rightarrow> map_errE Io (syscall (returnE ()))
     | _ \<Rightarrow> throwE InvalidLockFile))))"

definition temporary_name :: "string \<Rightarrow> u64 \<Rightarrow> nat \<Rightarrow> nat \<Rightarrow> string" where
  "temporary_name key rv process nonce =
     TEMP_PREFIX @ key @ ''-'' @ show_nat (unat rv) @ ''-'' @ show_nat process @ ''-'' @ show_nat nonce
       @ TEMP_SUFFIX"

definition write_temporary ::
  "FileLifecycleRecordStore \<Rightarrow> LifecycleRecord \<Rightarrow> bytes \<Rightarrow> ('x, string) store_op" where
  "write_temporary st r b =
     bindE (liftE (workload_file_key (workload_id r))) (\<lambda>key.
     bindE (map_errE (\<lambda>_. ClockUnavailable) now_nanos) (\<lambda>nonce.
     bindE process_id (\<lambda>process.
     (let p = path_join (records_root st) (temporary_name key (revision r) process nonce) in
      bindE (map_errE Io (write_synced_new p b)) (\<lambda>_. returnE p)))))"

definition load_record ::
  "json_codec \<Rightarrow> FileLifecycleRecordStore \<Rightarrow> string \<Rightarrow> ('x, LifecycleRecord) store_op" where
  "load_record J st i =
     bindE (liftE (record_path st i)) (\<lambda>p.
     bindE (map_errE (\<lambda>k. if k = NotFound then MissingRecord else Io k) (symlink_metadata p)) (\<lambda>m.
     case m of
       FileNode c _ \<Rightarrow>
         (if length c > MAX_RECORD_BYTES then throwE RecordTooLarge
          else
            bindE (map_errE Io (read_bounded p MAX_RECORD_BYTES)) (\<lambda>b.
            if length b > MAX_RECORD_BYTES then throwE RecordTooLarge
            else
              bindE (liftE (ok_or Json (from_slice J b))) (\<lambda>r.
              bindE (liftE (validate_record r)) (\<lambda>_.
              if workload_id r \<noteq> i then throwE InvalidRecord else returnE r))))
     | _ \<Rightarrow> throwE InvalidRecord))"

definition initialize ::
  "json_codec \<Rightarrow> FileLifecycleRecordStore \<Rightarrow> LifecycleRecord \<Rightarrow> ('x, unit) store_op" where
  "initialize J st r =
     bindE (liftE (validate_record r)) (\<lambda>_.
     bindE (acquire_workload_lock st (workload_id r)) (\<lambda>_.
     bindE (liftE (record_path st (workload_id r))) (\<lambda>canonical.
     bindE (path_exists canonical) (\<lambda>present.
     if present then throwE AlreadyInitialized
     else
       bindE (liftE (serialize_record J r)) (\<lambda>b.
       bindE (write_temporary st r b) (\<lambda>temporary.
       bindE (catchE (hard_link temporary canonical) (\<lambda>k.
                bindE (cleanup_temporary temporary) (\<lambda>_.
                if k = AlreadyExists then throwE AlreadyInitialized else throwE (Io k)))) (\<lambda>_.
       bindE (cleanup_temporary temporary) (\<lambda>_.
       bindE (sync_directory (records_root st)) (\<lambda>_.
       bindE (load_record J st (workload_id r)) (\<lambda>published.
       if published \<noteq> r then throwE InvalidRecord else returnE ()))))))))))"

text \<open>\<open>publish_record\<close> is the part of \<open>replace_record\<close> after the comparison.\<close>

definition publish_record ::
  "json_codec \<Rightarrow> FileLifecycleRecordStore \<Rightarrow> LifecycleRecord \<Rightarrow> ('x, unit) store_op" where
  "publish_record J st nxt =
     bindE (liftE (serialize_record J nxt)) (\<lambda>b.
     bindE (write_temporary st nxt b) (\<lambda>temporary.
     bindE (liftE (record_path st (workload_id nxt))) (\<lambda>canonical.
     bindE (catchE (rename temporary canonical) (\<lambda>k.
              bindE (cleanup_temporary temporary) (\<lambda>_. throwE (Io k)))) (\<lambda>_.
     bindE (sync_directory (records_root st)) (\<lambda>_.
     bindE (load_record J st (workload_id nxt)) (\<lambda>published.
     if published \<noteq> nxt then throwE InvalidRecord else returnE ()))))))"

definition replace_record ::
  "json_codec \<Rightarrow> FileLifecycleRecordStore \<Rightarrow> LifecycleRecord \<Rightarrow> LifecycleRecord \<Rightarrow> ('x, unit) store_op" where
  "replace_record J st expected nxt =
     bindE (liftE (validate_record expected)) (\<lambda>_.
     bindE (liftE (validate_record nxt)) (\<lambda>_.
     bindE (liftE (map_err (\<lambda>_. InvalidRecord) (validate_record_update expected nxt))) (\<lambda>_.
     bindE (acquire_workload_lock st (workload_id expected)) (\<lambda>_.
     bindE (load_record J st (workload_id expected)) (\<lambda>current.
     if current \<noteq> expected then throwE UnexpectedCurrent else publish_record J st nxt)))))"

text \<open>\<open>impl LifecycleRecordStore for FileLifecycleRecordStore\<close>\<close>

definition file_store :: "json_codec \<Rightarrow> FileLifecycleRecordStore \<Rightarrow> 'x fs_scheme LifecycleRecordStore" where
  "file_store J st =
     \<lparr>load = (\<lambda>i. map_errE FileLifecycleRecordStoreError_fmt (load_record J st i)),
      replace = (\<lambda>e n. map_errE FileLifecycleRecordStoreError_fmt (replace_record J st e n))\<rparr>"

subsection \<open>Names of the store\<close>

lemma hex_digit_inj: "hex_digit m = hex_digit n \<Longrightarrow> m < 16 \<Longrightarrow> n < 16 \<Longrightarrow> m = n"
proof -
  assume "hex_digit m = hex_digit n" "m < 16" "n < 16"
  then have "(if m < 10 then 48 + m else 87 + m) mod 256 = (if n < 10 then 48 + n else 87 + n) mod (256 :: nat)"
    by (metis hex_digit_def of_char_of)
  with \<open>m < 16\<close> \<open>n < 16\<close> show ?thesis
    by (auto split: if_splits)
qed

lemma hex_digit_ne: "n < 16 \<Longrightarrow> hex_digit n \<noteq> CHR ''.'' \<and> hex_digit n \<noteq> CHR ''/''"
proof -
  assume "n < 16"
  then have "(of_char (hex_digit n) :: nat) \<ge> 48"
    by (simp add: hex_digit_def)
  then show ?thesis by auto
qed

lemma high_nibble [simp]: "of_char c div 16 < (16 :: nat)"
proof -
  have "(of_char c :: nat) < 256" by simp
  then show ?thesis by linarith
qed

lemma length_hex_byte [simp]: "length (hex_byte c) = 2"
  by (simp add: hex_byte_def)

lemma hex_byte_inj: "hex_byte c = hex_byte d \<longleftrightarrow> c = d"
proof
  assume "hex_byte c = hex_byte d"
  then have "hex_digit (of_char c div 16) = hex_digit (of_char d div 16)"
    "hex_digit (of_char c mod 16) = hex_digit (of_char d mod 16)"
    by (auto simp: hex_byte_def)
  then have "of_char c div 16 = (of_char d div 16 :: nat)" "of_char c mod 16 = (of_char d mod 16 :: nat)"
    by (auto intro!: hex_digit_inj)
  then have "of_char c = (of_char d :: nat)"
    by (metis div_mod_decomp)
  then show "c = d" by simp
qed simp

lemma hex_key_inj: "concat (map hex_byte i) = concat (map hex_byte j) \<Longrightarrow> i = j"
proof (induction i arbitrary: j)
  case Nil
  then show ?case by (cases j) (auto simp: hex_byte_def)
next
  case (Cons c i)
  then obtain d j' where "j = d # j'"
    by (cases j) (auto simp: hex_byte_def)
  with Cons.prems have "hex_byte c = hex_byte d" "concat (map hex_byte i) = concat (map hex_byte j')"
    by auto
  with Cons.IH \<open>j = d # j'\<close> show ?case by (simp add: hex_byte_inj)
qed

lemma workload_file_key_Ok:
  assumes "workload_file_key i = Ok key"
  shows "key = concat (map hex_byte i)" "key \<noteq> []" "hd key \<noteq> CHR ''.''" "hd key \<noteq> CHR ''/''"
proof -
  show key: "key = concat (map hex_byte i)"
    using assms by (simp add: workload_file_key_def split: if_splits)
  obtain c cs where "i = c # cs"
    using assms by (cases i) (auto simp: workload_file_key_def)
  then have h: "key = hex_digit (of_char c div 16) # hex_digit (of_char c mod 16) # concat (map hex_byte cs)"
    using key by (simp add: hex_byte_def)
  show "key \<noteq> []" "hd key \<noteq> CHR ''.''" "hd key \<noteq> CHR ''/''"
    using hex_digit_ne [of "of_char c div 16"] h by auto
qed

text \<open>The names of the records; no lock and no temporary file has such a name.\<close>

definition record_files :: "FileLifecycleRecordStore \<Rightarrow> string set" where
  "record_files st = {p. \<exists>i. record_path st i = Ok p}"

lemma not_slash: "s \<noteq> [] \<Longrightarrow> hd s \<noteq> CHR ''/'' \<Longrightarrow> \<not> starts_with ''/'' (s @ t)"
  by (cases s) (auto simp: starts_with_def)

lemma record_path_inj:
  assumes "record_path st i = Ok p" and "record_path st j = Ok p"
  shows "i = j"
proof -
  obtain k l where k: "workload_file_key i = Ok k" "p = path_join (records_root st) (k @ ''.json'')"
    and l: "workload_file_key j = Ok l" "p = path_join (records_root st) (l @ ''.json'')"
    using assms by (auto simp: record_path_def bindR_Ok_iff)
  have "k @ ''.json'' = l @ ''.json''"
    using k l not_slash workload_file_key_Ok(2,4) [OF k(1)] workload_file_key_Ok(2,4) [OF l(1)]
    by (metis path_join_inj)
  then show ?thesis
    using workload_file_key_Ok(1) [OF k(1)] workload_file_key_Ok(1) [OF l(1)] by (simp add: hex_key_inj)
qed

lemma lock_path_not_record: "lock_path st i = Ok p \<Longrightarrow> p \<notin> record_files st"
proof
  assume "lock_path st i = Ok p" and "p \<in> record_files st"
  then obtain k l j where k: "workload_file_key i = Ok k" "p = path_join (records_root st) (k @ ''.lock'')"
    and l: "workload_file_key j = Ok l" "p = path_join (records_root st) (l @ ''.json'')"
    by (auto simp: record_path_def lock_path_def record_files_def LOCK_SUFFIX_def bindR_Ok_iff)
  have "k @ ''.lock'' = l @ ''.json''"
    using k l not_slash workload_file_key_Ok(2,4) [OF k(1)] workload_file_key_Ok(2,4) [OF l(1)]
    by (metis path_join_inj)
  then have "last (k @ ''.lock'') = last (l @ ''.json'')"
    by simp
  then show False by simp
qed

lemma temporary_not_record:
  "is_temporary_name n \<Longrightarrow> path_join (records_root st) n \<notin> record_files st"
proof
  assume n: "is_temporary_name n" and "path_join (records_root st) n \<in> record_files st"
  then obtain l j where l: "workload_file_key j = Ok l"
    "path_join (records_root st) n = path_join (records_root st) (l @ ''.json'')"
    by (auto simp: record_path_def record_files_def bindR_Ok_iff)
  have dot: "n \<noteq> [] \<and> hd n = CHR ''.''"
    using n by (auto simp: is_temporary_name_def TEMP_PREFIX_def starts_with_iff)
  then have "\<not> starts_with ''/'' n"
    using not_slash [of n "[]"] by auto
  then have "n = l @ ''.json''"
    using l(2) not_slash workload_file_key_Ok(2,4) [OF l(1)] by (metis path_join_inj)
  then show False
    using dot workload_file_key_Ok(2,3) [OF l(1)] by auto
qed

lemma temporary_name_is_temporary: "is_temporary_name (temporary_name key rv process nonce)"
proof -
  have "temporary_name key rv process nonce =
      (TEMP_PREFIX @ key @ ''-'' @ show_nat (unat rv) @ ''-'' @ show_nat process @ ''-'' @ show_nat nonce)
      @ TEMP_SUFFIX"
    by (simp add: temporary_name_def)
  then have "ends_with TEMP_SUFFIX (temporary_name key rv process nonce)"
    by (metis ends_with_append)
  then show ?thesis
    by (simp add: is_temporary_name_def temporary_name_def)
qed

lemma temporary_plain: "is_temporary_name n \<Longrightarrow> n \<noteq> [] \<and> \<not> starts_with ''/'' n"
  by (auto simp: is_temporary_name_def TEMP_PREFIX_def starts_with_iff)

lemma root_not_temporary: "is_temporary_name n \<Longrightarrow> path_join (records_root st) n \<noteq> records_root st"
  using temporary_plain [of n] by (auto simp: path_join_def)

lemma lock_not_temporary: "lock_path st i = Ok l \<Longrightarrow> is_temporary_name n \<Longrightarrow> path_join (records_root st) n \<noteq> l"
proof
  assume "lock_path st i = Ok l" and n: "is_temporary_name n" and eq: "path_join (records_root st) n = l"
  then obtain k where k: "workload_file_key i = Ok k" "l = path_join (records_root st) (k @ ''.lock'')"
    by (auto simp: lock_path_def LOCK_SUFFIX_def bindR_Ok_iff)
  have "n = k @ ''.lock''"
    using eq k(2) not_slash workload_file_key_Ok(2,4) [OF k(1)] temporary_plain [OF n] by (metis path_join_inj)
  moreover have "hd n = CHR ''.''"
    using n by (auto simp: is_temporary_name_def TEMP_PREFIX_def starts_with_iff)
  ultimately show False
    using workload_file_key_Ok(2,3) [OF k(1)] by auto
qed

lemma lock_not_root: "lock_path st i = Ok l \<Longrightarrow> l \<noteq> records_root st"
proof
  assume "lock_path st i = Ok l" and root: "l = records_root st"
  then obtain k where k: "workload_file_key i = Ok k" "l = path_join (records_root st) (k @ ''.lock'')"
    by (auto simp: lock_path_def LOCK_SUFFIX_def bindR_Ok_iff)
  have "length (path_join (records_root st) (k @ ''.lock'')) > length (records_root st)"
    using not_slash workload_file_key_Ok(2,4) [OF k(1)] by (simp add: path_join_def)
  with k(2) root show False by simp
qed

lemma root_not_record: "records_root st \<notin> record_files st"
proof
  assume "records_root st \<in> record_files st"
  then obtain i k where k: "workload_file_key i = Ok k"
    "records_root st = path_join (records_root st) (k @ ''.json'')"
    by (auto simp: record_path_def record_files_def bindR_Ok_iff)
  have "length (path_join (records_root st) (k @ ''.json'')) > length (records_root st)"
    using not_slash workload_file_key_Ok(2,4) [OF k(1)] by (simp add: path_join_def)
  with k(2) show False by simp
qed

subsection \<open>What a directory stores\<close>

definition stored_in :: "json_codec \<Rightarrow> FileLifecycleRecordStore \<Rightarrow> file_map \<Rightarrow> string \<Rightarrow> LifecycleRecord option" where
  "stored_in J st m i =
     (case record_path st i of
        Err _ \<Rightarrow> None
      | Ok p \<Rightarrow>
          (case map_of m p of
             Some (FileNode b _) \<Rightarrow>
               (if length b > MAX_RECORD_BYTES then None
                else case from_slice J b of
                       None \<Rightarrow> None
                     | Some r \<Rightarrow> (if validate_record r = Ok () \<and> workload_id r = i then Some r else None))
           | _ \<Rightarrow> None))"

abbreviation stored :: "json_codec \<Rightarrow> FileLifecycleRecordStore \<Rightarrow> 'x fs_scheme \<Rightarrow> string \<Rightarrow> LifecycleRecord option" where
  "stored J st w \<equiv> stored_in J st (nodes w)"

definition same_records :: "FileLifecycleRecordStore \<Rightarrow> file_map \<Rightarrow> file_map \<Rightarrow> bool" where
  "same_records st m0 m \<longleftrightarrow> (\<forall>q\<in>record_files st. map_of m q = map_of m0 q)"

definition published_at :: "FileLifecycleRecordStore \<Rightarrow> string \<Rightarrow> bytes \<Rightarrow> file_map \<Rightarrow> file_map \<Rightarrow> bool" where
  "published_at st p b m0 m \<longleftrightarrow>
     (\<forall>q\<in>record_files st. map_of m q = (if q = p then Some (FileNode b True) else map_of m0 q))"

text \<open>
  The record files agree with \<open>m0\<close>, or, provided \<open>pre\<close>, they do so up to the completely written and
  synced record \<open>n\<close>.
\<close>

definition records_or_next ::
  "json_codec \<Rightarrow> FileLifecycleRecordStore \<Rightarrow> bool \<Rightarrow> LifecycleRecord \<Rightarrow> file_map \<Rightarrow> file_map \<Rightarrow> bool" where
  "records_or_next J st pre n m0 m \<longleftrightarrow>
     same_records st m0 m \<or>
     (pre \<and> (\<exists>p b. record_path st (workload_id n) = Ok p \<and> to_vec J n = Some b \<and> length b \<le> MAX_RECORD_BYTES
        \<and> validate_record n = Ok () \<and> published_at st p b m0 m))"

text \<open>
  What a crash of the machine leaves of the records. \<open>records_synced\<close>: the contents of every record file were synced.
  \<open>settled\<close>: that, and the records are those of every file map that the disk may hold, so that a crash changes none.
\<close>

definition records_synced :: "FileLifecycleRecordStore \<Rightarrow> file_map \<Rightarrow> bool" where
  "records_synced st m \<longleftrightarrow> (\<forall>p\<in>record_files st. \<forall>b. map_of m p \<noteq> Some (FileNode b False))"

definition settled :: "FileLifecycleRecordStore \<Rightarrow> 'x fs_scheme \<Rightarrow> bool" where
  "settled st w \<longleftrightarrow> records_synced st (nodes w) \<and> list_all (same_records st (nodes w)) (pending w)"

lemma record_path_file: "record_path st i = Ok p \<Longrightarrow> p \<in> record_files st"
  by (auto simp: record_files_def)

lemma stored_in_same: "same_records st m0 m \<Longrightarrow> stored_in J st m = stored_in J st m0"
  unfolding stored_in_def fun_eq_iff
  by (auto simp: same_records_def dest!: record_path_file split: sum.splits)

lemma same_records_agree: "agree (- record_files st) m m' \<Longrightarrow> same_records st m m'"
  by (auto simp: agree_def same_records_def)

lemma agree_empty_same: "agree {} m m' \<Longrightarrow> same_records st m m'"
  by (auto simp: agree_def same_records_def)

lemma crash_image_records: "crash_image m m' \<Longrightarrow> records_synced st m \<Longrightarrow> same_records st m m'"
  by (simp add: same_records_def records_synced_def crash_image_synced)

lemma records_synced_same: "same_records st m m' \<Longrightarrow> records_synced st m \<Longrightarrow> records_synced st m'"
  by (simp add: same_records_def records_synced_def)

lemma records_or_next_synced:
  "records_or_next J st pre n m m' \<Longrightarrow> records_synced st m \<Longrightarrow> records_synced st m'"
  by (auto simp: records_or_next_def same_records_def published_at_def records_synced_def split: if_splits)

text \<open>A synced record file survives every crash.\<close>

lemma stored_in_image:
  assumes "json_roundtrip J" and "record_path st (workload_id n) = Ok p" and "to_vec J n = Some b"
    and "length b \<le> MAX_RECORD_BYTES" and "validate_record n = Ok ()"
    and "map_of m p = Some (FileNode b True)" and "crash_image m m'"
  shows "stored_in J st m' (workload_id n) = Some n"
proof -
  have "map_of m' p = Some (FileNode b True)"
    using crash_image_synced [OF assms(7), of p] assms(6) by simp
  then show ?thesis
    using assms by (simp add: stored_in_def json_roundtrip_def)
qed

lemma stored_in_published:
  assumes "json_roundtrip J" and "record_path st (workload_id n) = Ok p" and "to_vec J n = Some b"
    and "length b \<le> MAX_RECORD_BYTES" and "validate_record n = Ok ()" and "published_at st p b m0 m"
  shows "stored_in J st m = (stored_in J st m0)(workload_id n \<mapsto> n)"
proof
  fix i
  show "stored_in J st m i = ((stored_in J st m0)(workload_id n \<mapsto> n)) i"
  proof (cases "i = workload_id n")
    case True
    have "map_of m p = Some (FileNode b True)"
      using assms(2,6) record_path_file by (auto simp: published_at_def)
    then show ?thesis
      using assms True by (simp add: stored_in_def json_roundtrip_def)
  next
    case False
    have "map_of m q = map_of m0 q" if "record_path st i = Ok q" for q
      using that False assms(2,6) record_path_inj record_path_file by (metis published_at_def)
    then show ?thesis
      using False by (simp add: stored_in_def split: sum.splits)
  qed
qed

subsection \<open>What the operations touch\<close>

lemma touches_load_record: "touches A (load_record J st i)"
  unfolding load_record_def read_bounded_def
  by (rule touches_rules)+

text \<open>The names beside the records and their directory.\<close>

definition beside :: "FileLifecycleRecordStore \<Rightarrow> string set" where
  "beside st = - insert (records_root st) (record_files st)"

lemma beside_not_record: "touches (beside st) m \<Longrightarrow> touches (- record_files st) m"
  by (erule touches_mono) (auto simp: beside_def)

lemma beside_root: "agree (beside st) m m' \<Longrightarrow> map_of m' (records_root st) = map_of m (records_root st)"
  by (simp add: agree_def beside_def)

lemma beside_acquire_workload_lock: "touches (beside st) (acquire_workload_lock st i)"
proof -
  have unlocked: "touches A (syscall (returnE ()))" for A
    by (rule touches_syscall) simp
  have "touches (beside st)
     (bindE (catchE (bindE (map_errE Io (symlink_metadata p)) (\<lambda>m.
               case m of FileNode _ _ \<Rightarrow> returnE () | _ \<Rightarrow> throwE InvalidLockFile))
             (\<lambda>e. if e = Io NotFound then returnE () else throwE e)) (\<lambda>_.
     bindE (map_errE Io (open_or_create p)) (\<lambda>_.
     bindE (map_errE Io (symlink_metadata p)) (\<lambda>m.
     case m of
       FileNode _ _ \<Rightarrow> map_errE Io (syscall (returnE ()))
     | _ \<Rightarrow> throwE InvalidLockFile))))" if "lock_path st i = Ok p" for p
    using lock_path_not_record [OF that] lock_not_root [OF that]
    by - (rule touches_rules unlocked | simp add: beside_def)+
  then show ?thesis
    unfolding acquire_workload_lock_def by (rule touches_liftE_bindE)
qed

lemma touches_write_synced_new: "p \<in> A \<Longrightarrow> touches A (write_synced_new p b)"
  unfolding write_synced_new_def by (rule touches_rules | assumption)+

lemma beside_write_temporary: "touches (beside st) (write_temporary st r b)"
  unfolding write_temporary_def Let_def
  by (rule touches_rules touches_write_synced_new
      | simp add: beside_def temporary_not_record root_not_temporary temporary_name_is_temporary)+

lemmas touches_acquire_workload_lock = beside_acquire_workload_lock [THEN beside_not_record]

lemmas touches_write_temporary = beside_write_temporary [THEN beside_not_record]

lemma touches_sync_directory: "p \<in> A \<Longrightarrow> touches A (sync_directory p)"
  unfolding sync_directory_def by (rule touches_rules | assumption)+

lemma touches_cleanup_temporary: "p \<in> A \<Longrightarrow> touches A (cleanup_temporary p)"
  unfolding cleanup_temporary_def by (rule touches_rules | assumption)+

subsection \<open>Loading\<close>

lemma read_bounded_Ok:
  assumes "read_bounded p k w = (Ok b, w')"
  shows "\<exists>c s. map_of (nodes w) p = Some (FileNode c s) \<and> b = take (k + 1) c"
  using assms open_existing_Ok read_file_Ok by (fastforce simp: read_bounded_def eff_Ok_iff)

lemma load_record_Ok:
  assumes "load_record J st i w = (Ok r, w')"
  shows "stored J st w i = Some r" "workload_id r = i"
proof -
  obtain p m w1 where p: "record_path st i = Ok p" and m: "symlink_metadata p w = (Ok m, w1)"
    and k: "(case m of
       FileNode c _ \<Rightarrow>
         (if length c > MAX_RECORD_BYTES then throwE RecordTooLarge
          else
            bindE (map_errE Io (read_bounded p MAX_RECORD_BYTES)) (\<lambda>b.
            if length b > MAX_RECORD_BYTES then throwE RecordTooLarge
            else
              bindE (liftE (ok_or Json (from_slice J b))) (\<lambda>r.
              bindE (liftE (validate_record r)) (\<lambda>_.
              if workload_id r \<noteq> i then throwE InvalidRecord else returnE r))))
     | _ \<Rightarrow> throwE InvalidRecord) w1 = (Ok r, w')"
    using assms unfolding load_record_def by (auto simp only: eff_Ok_iff)
  obtain c s where c: "m = FileNode c s" "length c \<le> MAX_RECORD_BYTES"
    using k by (cases m) (auto simp: eff_Ok_iff split: if_splits)
  obtain b w2 where b: "read_bounded p MAX_RECORD_BYTES w1 = (Ok b, w2)" "from_slice J b = Some r"
    "validate_record r = Ok ()" "workload_id r = i"
    using k c by (auto simp: eff_Ok_iff split: if_splits)
  have "b = c"
    using read_bounded_Ok [OF b(1)] symlink_metadata_Ok [OF m] c by auto
  then show "stored J st w i = Some r" "workload_id r = i"
    using p b c symlink_metadata_Ok(1) [OF m] by (auto simp: stored_in_def)
qed

lemma load_record_frame: "load_record J st i w = (r, w') \<Longrightarrow> stored J st w' = stored J st w"
  using stored_in_same [OF agree_empty_same [OF touches_agree [OF touches_load_record]]] by blast

subsection \<open>Publishing\<close>

text \<open>
  \<open>ready Q st w0 b t w\<close>: between \<open>w0\<close> and \<open>w\<close> every state satisfied \<open>Q\<close>, the record files are still
  those of \<open>w0\<close>, and the temporary file \<open>t\<close> holds the synced bytes \<open>b\<close>.
\<close>

definition ready ::
  "(file_map \<Rightarrow> bool) \<Rightarrow> FileLifecycleRecordStore \<Rightarrow> 'x fs_scheme \<Rightarrow> bytes \<Rightarrow> string \<Rightarrow> 'x fs_scheme \<Rightarrow> bool" where
  "ready Q st w0 b t w \<longleftrightarrow>
     (extends Q w0 w \<and> same_records st (nodes w0) (nodes w)) \<and>
     (t \<notin> record_files st \<and> map_of (nodes w) t = Some (FileNode b True))"

lemma same_records_refl [simp]: "same_records st m m"
  by (simp add: same_records_def)

lemma same_records_trans: "same_records st m0 m \<Longrightarrow> same_records st m m' \<Longrightarrow> same_records st m0 m'"
  by (simp add: same_records_def)

lemma published_at_trans: "published_at st p b m0 m \<Longrightarrow> same_records st m m' \<Longrightarrow> published_at st p b m0 m'"
  by (simp add: published_at_def same_records_def)

lemma hoareE_untouched:
  assumes "touches (- record_files st) m" and "\<And>x. same_records st m0 x \<Longrightarrow> Q x"
  shows "hoareE (\<lambda>w. extends Q w0 w \<and> same_records st m0 (nodes w)) m
    (\<lambda>_ w. extends Q w0 w \<and> same_records st m0 (nodes w))
    (\<lambda>w. extends Q w0 w \<and> same_records st m0 (nodes w))"
  using assms by (intro hoareE_touches) (auto dest: same_records_agree same_records_trans)

lemma hoareE_untouched_published:
  assumes "touches (- record_files st) m" and "\<And>x. published_at st p b m0 x \<Longrightarrow> Q x"
  shows "hoareE (\<lambda>w. extends Q w0 w \<and> published_at st p b m0 (nodes w)) m
    (\<lambda>_ w. extends Q w0 w \<and> published_at st p b m0 (nodes w))
    (\<lambda>w. extends Q w0 w \<and> published_at st p b m0 (nodes w))"
  using assms by (intro hoareE_touches) (auto dest: same_records_agree published_at_trans)

lemma write_synced_new_Ok:
  assumes "write_synced_new p b w = (Ok u, w')"
  shows "map_of (nodes w') p = Some (FileNode b True)"
  using assms write_all_Ok sync_all_Ok unfolding write_synced_new_def by (fastforce simp: eff_Ok_iff)

lemma write_temporary_ready:
  assumes "\<And>x. same_records st (nodes w0) x \<Longrightarrow> Q x"
  shows "hoareE (\<lambda>w. extends Q w0 w \<and> same_records st (nodes w0) (nodes w)) (write_temporary st r b)
    (ready Q st w0 b) (\<lambda>w. extends Q w0 w \<and> same_records st (nodes w0) (nodes w))"
  unfolding ready_def
proof (rule hoareE_conj_post [OF hoareE_untouched [OF touches_write_temporary assms]])
  fix w t w'
  assume "write_temporary st r b w = (Ok t, w')"
  then show "t \<notin> record_files st \<and> map_of (nodes w') t = Some (FileNode b True)"
    by (auto simp: write_temporary_def Let_def eff_Ok_iff temporary_not_record temporary_name_is_temporary
        dest: write_synced_new_Ok)
qed

lemma extends_unchanged:
  assumes "extends Q w0 w" and "nodes w' = nodes w" "history w' = history w" "pending w' = pending w"
  shows "extends Q w0 w'"
  using assms extends_trans [OF assms(1) extends_same_files [OF assms(2-4)], of Q] extends_nodes [OF assms(1)] by blast

lemma rename_publishes:
  assumes "\<And>x. published_at st c b (nodes w0) x \<Longrightarrow> Q x"
  shows "hoareE (ready Q st w0 b t) (rename t c)
    (\<lambda>_ w. extends Q w0 w \<and> published_at st c b (nodes w0) (nodes w))
    (ready Q st w0 b t)"
  unfolding hoareE_def
proof (intro allI impI)
  fix w
  assume r: "ready Q st w0 b t w"
  obtain res w' where run: "rename t c w = (res, w')"
    by fastforce
  consider "is_Err res" "nodes w' = nodes w" "history w' = history w" "pending w' = pending w"
    | "res = Ok ()" "nodes w' = AList.update c (FileNode b True) (AList.delete t (nodes w))"
      "history w' = history w @ [nodes w']" "pending w' = pending w @ [nodes w]"
    using rename_cases [OF run] r by (auto simp: ready_def)
  then show "case rename t c w of (r, w') \<Rightarrow> case r of Err _ \<Rightarrow> ready Q st w0 b t w'
      | Ok a \<Rightarrow> extends Q w0 w' \<and> published_at st c b (nodes w0) (nodes w')"
  proof cases
    case 1
    then show ?thesis
      using r run extends_unchanged by (auto simp: ready_def is_Err_def split: sum.splits)
  next
    case 2
    have p: "published_at st c b (nodes w0) (nodes w')"
      using r 2(2) by (auto simp: ready_def published_at_def same_records_def update_conv' delete_conv')
    have "extends Q w w'"
      using 2(3,4) assms [OF p] by (intro extends_change)
    then show ?thesis
      using r p run 2(1) extends_trans by (fastforce simp: ready_def)
  qed
qed

lemma hoareE_forget_ready:
  "hoareE (\<lambda>w. extends Q w0 w \<and> same_records st (nodes w0) (nodes w)) m B C \<Longrightarrow>
   hoareE (ready Q st w0 b t) m B C"
  by (erule hoareE_conseq) (auto simp: ready_def)

lemma hoareE_kept:
  assumes "touches (- record_files st) m" and "\<And>x. same_records st m0 x \<Longrightarrow> Q x"
  shows "hoareE (\<lambda>w. extends Q w0 w \<and> same_records st m0 (nodes w)) m
    (\<lambda>_ w. extends Q w0 w \<and> same_records st m0 (nodes w)) (extends Q w0)"
  by (rule hoareE_conseq [OF hoareE_untouched [OF assms]]) auto

lemma hoareE_kept_published:
  assumes "touches (- record_files st) m" and "\<And>x. published_at st p b m0 x \<Longrightarrow> Q x"
  shows "hoareE (\<lambda>w. extends Q w0 w \<and> published_at st p b m0 (nodes w)) m
    (\<lambda>_ w. extends Q w0 w \<and> published_at st p b m0 (nodes w)) (extends Q w0)"
  by (rule hoareE_conseq [OF hoareE_untouched_published [OF assms]]) auto

text \<open>From the temporary file to the check of the published record.\<close>

lemma publish_triple:
  assumes Q: "Q = records_or_next J st True n (nodes w0)"
    and v: "validate_record n = Ok ()" and b: "serialize_record J n = Ok b"
    and p: "record_path st (workload_id n) = Ok p"
  shows "hoareE (ready Q st w0 b t)
    (bindE (catchE (rename t p) (\<lambda>k. bindE (cleanup_temporary t) (\<lambda>_. throwE (Io k)))) (\<lambda>_.
     bindE (sync_directory (records_root st)) (\<lambda>_.
     bindE (load_record J st (workload_id n)) (\<lambda>published.
     if published \<noteq> n then throwE InvalidRecord else returnE ()))))
    (\<lambda>_ w. extends Q w0 w \<and> stored J st w (workload_id n) = Some n) (extends Q w0)"
proof -
  have bytes: "to_vec J n = Some b" "length b \<le> MAX_RECORD_BYTES"
    using b by (auto simp: serialize_record_def bindR_Ok_iff split: if_splits)
  have QI: "same_records st (nodes w0) x \<Longrightarrow> Q x" "published_at st p b (nodes w0) x \<Longrightarrow> Q x" for x
    using Q v p bytes by (auto simp: records_or_next_def)
  let ?P = "\<lambda>w. extends Q w0 w \<and> published_at st p b (nodes w0) (nodes w)"
  have clean: "hoareE (ready Q st w0 b t) (bindE (cleanup_temporary t) (\<lambda>_. throwE (Io k))) (\<lambda>_. ?P) (extends Q w0)"
    for k
  proof (rule hoareE_pure [of _ "t \<notin> record_files st"])
    assume "t \<notin> record_files st"
    then have "touches (- record_files st) (cleanup_temporary t)"
      by (simp add: touches_cleanup_temporary)
    then show ?thesis
      by (intro hoareE_forget_ready hoareE_bindE [OF hoareE_kept] hoareE_throwE) (auto simp: QI)
  qed (simp add: ready_def)
  have load: "hoareE ?P (load_record J st (workload_id n))
      (\<lambda>r w. ?P w \<and> stored J st w (workload_id n) = Some r) (extends Q w0)"
  proof (rule hoareE_conj_post [OF hoareE_kept_published])
    fix w r w'
    assume l: "load_record J st (workload_id n) w = (Ok r, w')"
    then show "stored J st w' (workload_id n) = Some r"
      using load_record_Ok(1) stored_in_same [OF agree_empty_same [OF touches_agree [OF touches_load_record l]]]
      by metis
  qed (auto simp: QI touches_load_record)
  show ?thesis
    by (intro hoareE_bindE [OF hoareE_catchE [OF rename_publishes clean]]
        hoareE_bindE [OF hoareE_kept_published [OF touches_sync_directory]] hoareE_bindE [OF load]
        hoareE_if hoareE_throwE hoareE_returnE)
      (auto simp: QI root_not_record)
qed

lemma publish_record_triple:
  assumes Q: "Q = records_or_next J st True n (nodes w0)" and v: "validate_record n = Ok ()"
  shows "hoareE (\<lambda>w. extends Q w0 w \<and> same_records st (nodes w0) (nodes w)) (publish_record J st n)
    (\<lambda>_ w. extends Q w0 w \<and> stored J st w (workload_id n) = Some n) (extends Q w0)"
proof -
  have QI: "same_records st (nodes w0) x \<Longrightarrow> Q x" for x
    using Q by (auto simp: records_or_next_def)
  have temp: "hoareE (\<lambda>w. extends Q w0 w \<and> same_records st (nodes w0) (nodes w)) (write_temporary st n b)
      (ready Q st w0 b) (extends Q w0)" for b
    by (rule hoareE_conseq [OF write_temporary_ready]) (auto simp: QI)
  show ?thesis
    unfolding publish_record_def
    by (intro hoareE_liftE_bindE hoareE_bindE [OF temp] publish_triple [OF Q v]) (auto simp: ready_def)
qed

lemma replace_record_triple:
  fixes w0 :: "'x fs_scheme"
  assumes Q: "Q = records_or_next J st (stored J st w0 (workload_id e) = Some e \<and> update_ok e n) n (nodes w0)"
  shows "hoareE (\<lambda>w. w = w0) (replace_record J st e n)
    (\<lambda>_ w. (extends Q w0 w \<and> stored J st w (workload_id n) = Some n) \<and>
      stored J st w0 (workload_id e) = Some e \<and> update_ok e n) (extends Q w0)"
proof -
  let ?K = "\<lambda>w. extends Q w0 w \<and> same_records st (nodes w0) (nodes w)"
  have QI: "same_records st (nodes w0) x \<Longrightarrow> Q x" for x
    using Q by (auto simp: records_or_next_def)
  have start: "?K w0"
    by (simp add: extends_refl QI)
  have load: "hoareE ?K (load_record J st (workload_id e))
      (\<lambda>r w. ?K w \<and> stored J st w0 (workload_id e) = Some r) (extends Q w0)"
  proof (rule hoareE_conj_post [OF hoareE_kept])
    fix w r w'
    assume "?K w" and "load_record J st (workload_id e) w = (Ok r, w')"
    then show "stored J st w0 (workload_id e) = Some r"
      using load_record_Ok(1) stored_in_same by metis
  qed (auto simp: QI touches_load_record)
  have publish: "hoareE (\<lambda>w. ?K w \<and> stored J st w0 (workload_id e) = Some r) (publish_record J st n)
      (\<lambda>_ w. (extends Q w0 w \<and> stored J st w (workload_id n) = Some n) \<and>
        stored J st w0 (workload_id e) = Some e \<and> update_ok e n) (extends Q w0)"
    if "validate_record n = Ok ()" "update_ok e n" "\<not> r \<noteq> e" for r
  proof (rule hoareE_pure)
    assume "stored J st w0 (workload_id e) = Some r"
    with that have cur: "stored J st w0 (workload_id e) = Some e \<and> update_ok e n"
      by simp
    then have QT: "Q = records_or_next J st True n (nodes w0)"
      using Q by simp
    show ?thesis
      by (rule hoareE_conseq [OF publish_record_triple [OF QT that(1)]]) (use cur that in auto)
  qed simp
  have "hoareE ?K (replace_record J st e n)
    (\<lambda>_ w. (extends Q w0 w \<and> stored J st w (workload_id n) = Some n) \<and>
      stored J st w0 (workload_id e) = Some e \<and> update_ok e n) (extends Q w0)"
    unfolding replace_record_def
    by (intro hoareE_liftE_bindE hoareE_bindE [OF hoareE_kept [OF touches_acquire_workload_lock]]
        hoareE_bindE [OF load] hoareE_if hoareE_throwE publish)
      (auto simp: QI validate_record_update_iff)
  then show ?thesis
    by (rule hoareE_conseq) (use start in auto)
qed

text \<open>In the abstract: a replacement leaves the stored records alone or swaps the expected one.\<close>

lemma replace_record_stored:
  assumes J: "json_roundtrip J" and run: "replace_record J st e n w = (r, w')"
  shows "stored J st w' = stored J st w \<or>
      stored J st w (workload_id e) = Some e \<and> workload_id n = workload_id e \<and>
      stored J st w' = (stored J st w)(workload_id e \<mapsto> n)"
    and "r = Ok () \<Longrightarrow> stored J st w (workload_id e) = Some e \<and>
      stored J st w' = (stored J st w)(workload_id e \<mapsto> n)"
proof -
  define Q where "Q = records_or_next J st (stored J st w (workload_id e) = Some e \<and> update_ok e n) n (nodes w)"
  have post: "case r of Err _ \<Rightarrow> extends Q w w'
    | Ok _ \<Rightarrow> (extends Q w w' \<and> stored J st w' (workload_id n) = Some n) \<and>
        stored J st w (workload_id e) = Some e \<and> update_ok e n"
    using hoareE_D [OF replace_record_triple [OF Q_def] refl run] .
  have "Q (nodes w')"
    using post by (auto dest: extends_nodes split: sum.splits)
  then have or: "stored J st w' = stored J st w \<or>
      (stored J st w (workload_id e) = Some e \<and> update_ok e n) \<and>
      stored J st w' = (stored J st w)(workload_id n \<mapsto> n)"
    unfolding Q_def records_or_next_def by (auto simp: stored_in_same stored_in_published [OF J])
  show "stored J st w' = stored J st w \<or>
      stored J st w (workload_id e) = Some e \<and> workload_id n = workload_id e \<and>
      stored J st w' = (stored J st w)(workload_id e \<mapsto> n)"
    using or by (auto simp: update_ok_def)
  show "r = Ok () \<Longrightarrow> stored J st w (workload_id e) = Some e \<and>
      stored J st w' = (stored J st w)(workload_id e \<mapsto> n)"
  proof
    assume "r = Ok ()"
    then have ok: "stored J st w' (workload_id n) = Some n" "stored J st w (workload_id e) = Some e"
      "workload_id n = workload_id e"
      using post by (auto simp: update_ok_def)
    show "stored J st w (workload_id e) = Some e"
      by (rule ok)
    show "stored J st w' = (stored J st w)(workload_id e \<mapsto> n)"
      using or ok(1,3) fun_upd_triv [of "stored J st w'" "workload_id e"] by auto
  qed
qed

subsection \<open>Durability\<close>

text \<open>A load changes nothing on the disk, and leaves the same file maps to a crash.\<close>

definition same_disk :: "'x fs_scheme \<Rightarrow> 'x fs_scheme \<Rightarrow> bool" where
  "same_disk w w' \<longleftrightarrow> nodes w' = nodes w \<and> pending w' = pending w"

interpretation disk: frame_relation same_disk
  by unfold_locales (simp_all add: same_disk_def)

lemma disk_syscall: "(\<And>w r w'. op w = (r, w') \<Longrightarrow> same_disk w w') \<Longrightarrow> within same_disk (syscall op)"
  by (rule withinI) (auto simp: same_disk_def elim!: syscall_elim)

lemma disk_reads:
  "within same_disk (symlink_metadata p)" "within same_disk (read_file p n)" "within same_disk (open_existing p)"
  unfolding symlink_metadata_def read_file_def open_existing_def
  by (rule disk_syscall, (auto simp: same_disk_def split: option.split_asm node.split_asm)[])+

lemma disk_load_record: "within same_disk (load_record J st i)"
  unfolding load_record_def read_bounded_def by (rule disk.within_rules disk_reads within_node)+

text \<open>The synced bytes of \<open>n\<close> are the only contents that a crash can leave under its name.\<close>

definition durable_record :: "json_codec \<Rightarrow> FileLifecycleRecordStore \<Rightarrow> LifecycleRecord \<Rightarrow> 'x fs_scheme \<Rightarrow> bool" where
  "durable_record J st n w \<longleftrightarrow>
     pending w = [] \<and> (\<exists>p b. record_path st (workload_id n) = Ok p \<and> serialize_record J n = Ok b
       \<and> map_of (nodes w) p = Some (FileNode b True))"

lemma durable_record_image:
  assumes "json_roundtrip J" and "validate_record n = Ok ()" and "durable_record J st n w"
    and "h \<in> set (crash_points w)" and "crash_image h m"
  shows "stored_in J st m (workload_id n) = Some n"
proof -
  obtain p b where p: "record_path st (workload_id n) = Ok p" "serialize_record J n = Ok b"
      "map_of h p = Some (FileNode b True)"
    using assms(3,4) by (auto simp: durable_record_def crash_points_def)
  then have "to_vec J n = Some b" "length b \<le> MAX_RECORD_BYTES"
    by (auto simp: serialize_record_def bindR_Ok_iff split: if_splits)
  then show ?thesis
    using stored_in_image [OF assms(1) p(1) _ _ assms(2) p(3) assms(5)] by blast
qed

text \<open>The last steps of every publication.\<close>

lemma confirm_durable:
  assumes "sync_directory (records_root st) w = (Ok u, w2)" and load: "load_record J st i w2 = (Ok c, w')"
    and "map_of (nodes w) (records_root st) = Some DirNode"
  shows "nodes w' = nodes w" "pending w' = []"
proof -
  obtain w1 x where open1: "open_existing (records_root st) w = (Ok x, w1)"
    and sync: "sync_all (records_root st) w1 = (Ok u, w2)"
    using assms(1) by (auto simp: sync_directory_def eff_Ok_iff)
  have "nodes w1 = nodes w"
    using withinD [OF disk_reads(3) open1] by (simp add: same_disk_def)
  then show "nodes w' = nodes w" "pending w' = []"
    using sync_all_directory [OF sync] withinD [OF disk_load_record load] assms(3) by (simp_all add: same_disk_def)
qed

lemma publish_record_durable:
  assumes run: "publish_record J st n w = (Ok (), w')" and root: "map_of (nodes w) (records_root st) = Some DirNode"
  shows "durable_record J st n w'"
proof -
  obtain b t w1 p w2 w3 u where b: "serialize_record J n = Ok b" and t: "write_temporary st n b w = (Ok t, w1)"
    and p: "record_path st (workload_id n) = Ok p" and ren: "rename t p w1 = (Ok u, w2)"
    and rest: "sync_directory (records_root st) w2 = (Ok (), w3)" "load_record J st (workload_id n) w3 = (Ok n, w')"
    using run unfolding publish_record_def by (auto simp: eff_Ok_iff catchE_Ok_iff split: if_splits)
  have tmp: "t \<noteq> records_root st" "map_of (nodes w1) t = Some (FileNode b True)"
    using t by (auto simp: write_temporary_def Let_def eff_Ok_iff root_not_temporary temporary_name_is_temporary
        dest: write_synced_new_Ok)
  have pr: "p \<noteq> records_root st"
    using record_path_file [OF p] root_not_record by blast
  have nodes2: "nodes w2 = AList.update p (FileNode b True) (AList.delete t (nodes w1))"
    using rename_cases [OF ren] tmp(2) by auto
  have "map_of (nodes w1) (records_root st) = Some DirNode"
    using beside_root [OF touches_agree [OF beside_write_temporary t]] root by simp
  then have "map_of (nodes w2) (records_root st) = Some DirNode"
    using tmp(1) pr nodes2 by (simp add: update_conv' delete_conv')
  from confirm_durable [OF rest this] show ?thesis
    using p b nodes2 by (auto simp: durable_record_def update_conv')
qed

lemma replace_record_durable:
  assumes run: "replace_record J st e n w = (Ok (), w')" and root: "map_of (nodes w) (records_root st) = Some DirNode"
  shows "durable_record J st n w'" "validate_record n = Ok ()"
proof -
  obtain w1 w2 x c where lock: "acquire_workload_lock st (workload_id e) w = (Ok x, w1)"
    and load: "load_record J st (workload_id e) w1 = (Ok c, w2)" and pub: "publish_record J st n w2 = (Ok (), w')"
    and v: "validate_record n = Ok ()"
    using run unfolding replace_record_def by (auto simp: eff_Ok_iff split: if_splits)
  have "map_of (nodes w2) (records_root st) = Some DirNode"
    using beside_root [OF touches_agree [OF beside_acquire_workload_lock lock]] root
      withinD [OF disk_load_record load] by (simp add: same_disk_def)
  then show "durable_record J st n w'"
    by (rule publish_record_durable [OF pub])
  show "validate_record n = Ok ()" by (rule v)
qed

subsection \<open>First publication\<close>

lemma hard_link_publishes:
  assumes "\<And>x. map_of (nodes w0) c = None \<Longrightarrow> published_at st c b (nodes w0) x \<Longrightarrow> Q x"
    and c: "c \<in> record_files st"
  shows "hoareE (ready Q st w0 b t) (hard_link t c)
    (\<lambda>_ w. (extends Q w0 w \<and> published_at st c b (nodes w0) (nodes w)) \<and> map_of (nodes w0) c = None)
    (ready Q st w0 b t)"
  unfolding hoareE_def
proof (intro allI impI)
  fix w
  assume r: "ready Q st w0 b t w"
  obtain res w' where run: "hard_link t c w = (res, w')"
    by fastforce
  consider "is_Err res" "nodes w' = nodes w" "history w' = history w" "pending w' = pending w"
    | "res = Ok ()" "nodes w' = AList.update c (FileNode b True) (nodes w)" "map_of (nodes w) c = None"
      "history w' = history w @ [nodes w']" "pending w' = pending w @ [nodes w]"
    using hard_link_cases [OF run] r by (auto simp: ready_def)
  then show "case hard_link t c w of (r, w') \<Rightarrow> case r of Err _ \<Rightarrow> ready Q st w0 b t w'
      | Ok a \<Rightarrow> (extends Q w0 w' \<and> published_at st c b (nodes w0) (nodes w')) \<and> map_of (nodes w0) c = None"
  proof cases
    case 1
    then show ?thesis
      using r run extends_unchanged by (auto simp: ready_def is_Err_def split: sum.splits)
  next
    case 2
    have none: "map_of (nodes w0) c = None"
      using 2(3) r c by (auto simp: ready_def same_records_def)
    have p: "published_at st c b (nodes w0) (nodes w')"
      using r 2(2) by (auto simp: ready_def published_at_def same_records_def update_conv')
    have "extends Q w w'"
      using 2(4,5) assms(1) [OF none p] by (intro extends_change)
    then show ?thesis
      using r p none run 2(1) extends_trans by (fastforce simp: ready_def)
  qed
qed

lemma touches_path_exists: "touches A (path_exists p)"
  unfolding path_exists_def by (rule touches_rules)+

lemma hoareE_kept_first:
  assumes "touches (- record_files st) m" and "\<And>x. P \<Longrightarrow> published_at st p b m0 x \<Longrightarrow> Q x"
  shows "hoareE (\<lambda>w. (extends Q w0 w \<and> published_at st p b m0 (nodes w)) \<and> P) m
    (\<lambda>_ w. (extends Q w0 w \<and> published_at st p b m0 (nodes w)) \<and> P) (extends Q w0)"
proof (rule hoareE_pure [of _ P])
  assume P
  then show ?thesis
    by (intro hoareE_conseq [OF hoareE_kept_published [OF assms(1) assms(2)]]) auto
qed blast

text \<open>From the temporary file to the check of the first published record.\<close>

lemma link_triple:
  assumes Q: "Q = records_or_next J st (map_of (nodes w0) p = None) n (nodes w0)"
    and v: "validate_record n = Ok ()" and b: "serialize_record J n = Ok b"
    and p: "record_path st (workload_id n) = Ok p"
  shows "hoareE (ready Q st w0 b t)
    (bindE (catchE (hard_link t p) (\<lambda>k.
        bindE (cleanup_temporary t) (\<lambda>_. if k = AlreadyExists then throwE AlreadyInitialized else throwE (Io k)))) (\<lambda>_.
     bindE (cleanup_temporary t) (\<lambda>_.
     bindE (sync_directory (records_root st)) (\<lambda>_.
     bindE (load_record J st (workload_id n)) (\<lambda>published.
     if published \<noteq> n then throwE InvalidRecord else returnE ())))))
    (\<lambda>_ w. extends Q w0 w \<and> stored J st w (workload_id n) = Some n \<and> map_of (nodes w0) p = None) (extends Q w0)"
proof (rule hoareE_pure [of _ "t \<notin> record_files st"])
  assume "t \<notin> record_files st"
  then have clean: "touches (- record_files st) (cleanup_temporary t)"
    by (simp add: touches_cleanup_temporary)
  have bytes: "to_vec J n = Some b" "length b \<le> MAX_RECORD_BYTES"
    using b by (auto simp: serialize_record_def bindR_Ok_iff split: if_splits)
  have QI: "same_records st (nodes w0) x \<Longrightarrow> Q x"
    "map_of (nodes w0) p = None \<Longrightarrow> published_at st p b (nodes w0) x \<Longrightarrow> Q x" for x
    using Q v p bytes by (auto simp: records_or_next_def)
  let ?P = "\<lambda>w. extends Q w0 w \<and> published_at st p b (nodes w0) (nodes w)"
  have failed: "hoareE (ready Q st w0 b t) (bindE (cleanup_temporary t) (\<lambda>_.
        if k = AlreadyExists then throwE AlreadyInitialized else throwE (Io k)))
      (\<lambda>_ w. ?P w \<and> map_of (nodes w0) p = None) (extends Q w0)" for k
    by (intro hoareE_forget_ready hoareE_bindE [OF hoareE_kept [OF clean]] hoareE_if hoareE_throwE) (auto simp: QI)
  note kept = hoareE_kept_first [where P = "map_of (nodes w0) p = None", OF _ QI(2)]
  have load: "hoareE (\<lambda>w. ?P w \<and> map_of (nodes w0) p = None) (load_record J st (workload_id n))
      (\<lambda>r w. (?P w \<and> map_of (nodes w0) p = None) \<and> stored J st w (workload_id n) = Some r) (extends Q w0)"
  proof (rule hoareE_conj_post [OF kept [OF touches_load_record]])
    fix w r w'
    assume l: "load_record J st (workload_id n) w = (Ok r, w')"
    then show "stored J st w' (workload_id n) = Some r"
      using load_record_Ok(1) load_record_frame by metis
  qed
  show ?thesis
    by (intro hoareE_bindE [OF hoareE_catchE [OF hard_link_publishes failed]] hoareE_bindE [OF kept [OF clean]]
        hoareE_bindE [OF kept [OF touches_sync_directory]] hoareE_bindE [OF load]
        hoareE_if hoareE_throwE hoareE_returnE)
      (auto simp: QI root_not_record record_path_file [OF p])
qed (simp add: ready_def)

lemma initialize_triple:
  fixes w0 :: "'x fs_scheme"
  assumes Q: "Q = records_or_next J st (map_of (nodes w0) p = None) n (nodes w0)"
    and p: "record_path st (workload_id n) = Ok p"
  shows "hoareE (\<lambda>w. w = w0) (initialize J st n)
    (\<lambda>_ w. extends Q w0 w \<and> stored J st w (workload_id n) = Some n \<and> map_of (nodes w0) p = None) (extends Q w0)"
proof -
  let ?K = "\<lambda>w. extends Q w0 w \<and> same_records st (nodes w0) (nodes w)"
  have QI: "same_records st (nodes w0) x \<Longrightarrow> Q x" for x
    using Q by (auto simp: records_or_next_def)
  have start: "?K w0"
    by (simp add: extends_refl QI)
  have temp: "hoareE ?K (write_temporary st n b) (ready Q st w0 b) (extends Q w0)" for b
    by (rule hoareE_conseq [OF write_temporary_ready]) (auto simp: QI)
  have "hoareE ?K (initialize J st n)
    (\<lambda>_ w. extends Q w0 w \<and> stored J st w (workload_id n) = Some n \<and> map_of (nodes w0) p = None) (extends Q w0)"
    unfolding initialize_def p
    by (intro hoareE_liftE_bindE hoareE_bindE [OF hoareE_kept [OF touches_acquire_workload_lock]]
        hoareE_bindE [OF hoareE_kept [OF touches_path_exists]] hoareE_bindE [OF temp] hoareE_if hoareE_throwE)
      (auto simp: QI p intro!: link_triple [OF Q _ _ p])
  then show ?thesis
    by (rule hoareE_conseq) (use start in auto)
qed

lemma initialize_stored:
  assumes J: "json_roundtrip J" and run: "initialize J st n w = (r, w')"
  shows "stored J st w' = stored J st w \<or>
      stored J st w (workload_id n) = None \<and> stored J st w' = (stored J st w)(workload_id n \<mapsto> n)"
    and "r = Ok () \<Longrightarrow> stored J st w (workload_id n) = None \<and> stored J st w' = (stored J st w)(workload_id n \<mapsto> n)"
proof -
  have "(stored J st w' = stored J st w \<or>
      stored J st w (workload_id n) = None \<and> stored J st w' = (stored J st w)(workload_id n \<mapsto> n)) \<and>
    (r = Ok () \<longrightarrow> stored J st w (workload_id n) = None \<and> stored J st w' = (stored J st w)(workload_id n \<mapsto> n))"
  proof (cases "record_path st (workload_id n)")
    case (Inl x)
    then have "is_Err (validate_record n)"
      by (auto simp: record_path_def validate_record_def bindR_def split: sum.splits)
    then have "is_Err r \<and> w' = w"
      using run by (auto simp: initialize_def bindE_def liftE_def is_Err_def split: sum.splits)
    then show ?thesis by auto
  next
    case (Inr p)
    define Q where "Q = records_or_next J st (map_of (nodes w) p = None) n (nodes w)"
    have post: "case r of Err _ \<Rightarrow> extends Q w w'
      | Ok _ \<Rightarrow> extends Q w w' \<and> stored J st w' (workload_id n) = Some n \<and> map_of (nodes w) p = None"
      using hoareE_D [OF initialize_triple [OF Q_def Inr] refl run] .
    have none: "map_of (nodes w) p = None \<Longrightarrow> stored J st w (workload_id n) = None"
      using Inr by (simp add: stored_in_def)
    have "Q (nodes w')"
      using post by (auto dest: extends_nodes split: sum.splits)
    then have or: "stored J st w' = stored J st w \<or>
        map_of (nodes w) p = None \<and> stored J st w' = (stored J st w)(workload_id n \<mapsto> n)"
      unfolding Q_def records_or_next_def by (auto simp: stored_in_same stored_in_published [OF J])
    then show ?thesis
      using post none by (cases r) auto
  qed
  then show "stored J st w' = stored J st w \<or>
      stored J st w (workload_id n) = None \<and> stored J st w' = (stored J st w)(workload_id n \<mapsto> n)"
    "r = Ok () \<Longrightarrow> stored J st w (workload_id n) = None \<and> stored J st w' = (stored J st w)(workload_id n \<mapsto> n)"
    by auto
qed

text \<open>Without failures a stored record is loaded.\<close>

lemma stored_in_Some:
  assumes "stored_in J st m i = Some r"
  obtains p b s where "record_path st i = Ok p" "map_of m p = Some (FileNode b s)"
    "length b \<le> MAX_RECORD_BYTES" "from_slice J b = Some r" "validate_record r = Ok ()" "workload_id r = i"
  using assms by (auto simp: stored_in_def split: sum.split_asm option.split_asm node.split_asm if_split_asm)

lemma load_record_complete:
  assumes "stored J st w i = Some r" and "faults w = []"
  shows "load_record J st i w = (Ok r, w)"
proof -
  obtain p b s where p: "record_path st i = Ok p" "map_of (nodes w) p = Some (FileNode b s)"
    "length b \<le> MAX_RECORD_BYTES" "from_slice J b = Some r" "validate_record r = Ok ()" "workload_id r = i"
    using assms(1) by (rule stored_in_Some)
  have io: "symlink_metadata p w = (Ok (FileNode b s), w)" "open_existing p w = (Ok (), w)"
    "read_file p (MAX_RECORD_BYTES + 1) w = (Ok b, w)"
    using p(2,3) assms(2)
    by (simp_all add: symlink_metadata_def open_existing_def read_file_def syscall_def)
  have "read_bounded p MAX_RECORD_BYTES w = (Ok b, w)"
    unfolding read_bounded_def bindE_def using io(2,3) by simp
  then show ?thesis
    using io(1) p unfolding load_record_def
    by (simp add: bindE_def liftE_def map_errE_def returnE_def)
qed

subsection \<open>Opening\<close>

lemma path_join_plain: "\<not> starts_with ''/'' n \<Longrightarrow> path_join d n = path_join d [] @ n"
  by (auto simp: path_join_def starts_with_def)

lemma entry_name_join: "n \<noteq> [] \<Longrightarrow> CHR ''/'' \<notin> set n \<Longrightarrow> entry_name d (path_join d n) = Some n"
proof -
  assume n: "n \<noteq> []" "CHR ''/'' \<notin> set n"
  then have "\<not> starts_with ''/'' n"
    by (cases n) (auto simp: starts_with_def)
  then have "strip_prefix (path_join d []) (path_join d n) = Some n"
    using path_join_plain by (simp add: strip_prefix_Some_iff)
  with n show ?thesis by (simp add: entry_name_def)
qed

lemma remove_file_Ok:
  assumes "remove_file p w = (Ok u, w')"
  shows "nodes w' = AList.delete p (nodes w)"
  using assms unfolding remove_file_def
  by (elim syscall_Ok) (auto simp: set_nodes_def split: option.split_asm node.split_asm)

lemma recover_entries_Ok:
  assumes "recover_entries p ns w = (Ok (), w')"
  shows "map_of (nodes w') q =
    (if \<exists>n\<in>set ns. valid_utf8 n \<and> is_temporary_name n \<and> q = path_join p n then None else map_of (nodes w) q)"
  using assms
proof (induction ns arbitrary: w)
  case Nil
  then show ?case by (simp add: eff_Ok_iff)
next
  case (Cons n ns)
  show ?case
  proof (cases "valid_utf8 n \<and> is_temporary_name n")
    case False
    then have rest: "recover_entries p ns w = (Ok (), w')"
      using Cons.prems by (auto split: if_splits)
    show ?thesis
      using Cons.IH [OF rest] False by auto
  next
    case True
    then obtain m w1 where m: "symlink_metadata (path_join p n) w = (Ok m, w1)"
      and k: "(case m of FileNode _ _ \<Rightarrow>
            bindE (map_errE Io (remove_file (path_join p n))) (\<lambda>_. recover_entries p ns)
        | _ \<Rightarrow> throwE InvalidTemporaryEntry) w1 = (Ok (), w')"
      using Cons.prems by (auto simp: eff_Ok_iff)
    obtain w2 where d: "remove_file (path_join p n) w1 = (Ok (), w2)" and rest: "recover_entries p ns w2 = (Ok (), w')"
      using k by (cases m) (auto simp: eff_Ok_iff)
    have "map_of (nodes w2) = (map_of (nodes w))(path_join p n := None)"
      using remove_file_Ok [OF d] symlink_metadata_Ok(2) [OF m] by (simp add: delete_conv')
    then show ?thesis
      using Cons.IH [OF rest] True by auto
  qed
qed

lemma read_dir_Ok:
  assumes "read_dir d w = (Ok ns, w')"
  shows "nodes w' = nodes w" "map_of (nodes w) q \<noteq> None \<Longrightarrow> entry_name d q = Some n \<Longrightarrow> n \<in> set ns"
proof -
  show "nodes w' = nodes w"
    using assms unfolding read_dir_def by (elim syscall_Ok) (auto split: if_split_asm)
  have ns: "ns = remdups (List.map_filter (entry_name d) (map fst (nodes w)))"
    using assms unfolding read_dir_def by (elim syscall_Ok) (auto split: if_split_asm)
  show "n \<in> set ns" if "map_of (nodes w) q \<noteq> None" "entry_name d q = Some n"
  proof -
    have "q \<in> fst ` set (nodes w)"
      using that(1) by (auto simp: map_of_eq_None_iff)
    then show ?thesis
      using that(2) unfolding ns by (force simp: List.map_filter_def)
  qed
qed

lemma touches_validate_real_directory: "touches A (validate_real_directory p)"
  unfolding validate_real_directory_def by (rule touches_rules)+

lemma touches_ensure_records_directory: "p \<in> A \<Longrightarrow> touches A (ensure_records_directory p)"
  unfolding ensure_records_directory_def by (rule touches_rules touches_validate_real_directory | assumption)+

lemma open_store_Ok:
  assumes "open_store root w = (Ok st, w')"
  shows "records_root st = path_join root RECORDS_DIRECTORY"
    and "same_records st (nodes w) (nodes w')"
    and "is_temporary_name n \<Longrightarrow> valid_utf8 n \<Longrightarrow> CHR ''/'' \<notin> set n \<Longrightarrow>
      map_of (nodes w') (path_join (records_root st) n) = None"
proof -
  let ?d = "path_join root RECORDS_DIRECTORY"
  obtain w1 w2 w3 ns where st: "st = \<lparr>records_root = ?d\<rparr>"
    and v: "validate_real_directory root w = (Ok (), w1)"
    and e: "ensure_records_directory ?d w1 = (Ok (), w2)"
    and r: "read_dir ?d w2 = (Ok ns, w3)" and c: "recover_entries ?d ns w3 = (Ok (), w')"
    using assms by (auto simp: open_store_def recover_temporary_files_def Let_def eff_Ok_iff)
  show root: "records_root st = ?d"
    using st by simp
  have a: "agree {?d} (nodes w) (nodes w2)"
    using touches_agree [OF touches_validate_real_directory v] agree_trans
      touches_agree [OF touches_ensure_records_directory [of _ "{?d}"] e]
    by blast
  have "same_records st (nodes w) (nodes w2)"
    using a root_not_record [of st] root unfolding agree_def same_records_def by (metis singletonD)
  moreover have "same_records st (nodes w2) (nodes w')"
    unfolding same_records_def
  proof
    fix q
    assume "q \<in> record_files st"
    then have "\<not> (\<exists>n\<in>set ns. valid_utf8 n \<and> is_temporary_name n \<and> q = path_join ?d n)"
      using temporary_not_record [of _ st] root by auto
    then show "map_of (nodes w') q = map_of (nodes w2) q"
      using recover_entries_Ok [OF c, of q] read_dir_Ok(1) [OF r] by auto
  qed
  ultimately show "same_records st (nodes w) (nodes w')"
    by (rule same_records_trans)
  show "map_of (nodes w') (path_join (records_root st) n) = None"
    if "is_temporary_name n" "valid_utf8 n" "CHR ''/'' \<notin> set n"
  proof (rule ccontr)
    assume some: "map_of (nodes w') (path_join (records_root st) n) \<noteq> None"
    then have "map_of (nodes w2) (path_join ?d n) \<noteq> None"
      using recover_entries_Ok [OF c, of "path_join ?d n"] read_dir_Ok(1) [OF r] root by (auto split: if_splits)
    then have "n \<in> set ns"
      using read_dir_Ok(2) [OF r] entry_name_join temporary_plain [OF that(1)] that(3) by blast
    then show False
      using some recover_entries_Ok [OF c, of "path_join ?d n"] that(1,2) root by (auto split: if_splits)
  qed
qed


subsection \<open>The contract of the store\<close>

lemma file_store_contract:
  assumes "json_roundtrip J"
  shows "lifecycle_record_store (file_store J st) (stored J st) (\<lambda>_. True)"
proof
  fix w w' i r
  assume "load (file_store J st) i w = (Ok r, w')"
  then show "stored J st w i = Some r \<and> workload_id r = i"
    using load_record_Ok by (auto simp: file_store_def eff_Ok_iff)
next
  fix w w' i l
  assume "load (file_store J st) i w = (l, w')"
  then show "True \<and> stored J st w' = stored J st w"
    using load_record_frame by (auto simp: file_store_def map_errE_def split: prod.splits)
next
  fix w w' e n
  assume "replace (file_store J st) e n w = (Ok (), w')"
  then show "stored J st w (workload_id e) = Some e \<and> stored J st w' = (stored J st w)(workload_id e \<mapsto> n)"
    by (intro replace_record_stored(2) [OF assms _ refl]) (simp add: file_store_def eff_Ok_iff)
next
  fix w w' e n x
  assume "replace (file_store J st) e n w = (x, w')"
  then obtain r where "replace_record J st e n w = (r, w')"
    by (auto simp: file_store_def map_errE_def split: prod.splits)
  from replace_record_stored(1) [OF assms this]
  show "True \<and> (stored J st w' = stored J st w \<or>
      stored J st w (workload_id e) = Some e \<and> stored J st w' = (stored J st w)(workload_id e \<mapsto> n))"
    by blast
qed

end
