(* ===== verification/File_Store_Contract.thy ===== *)
theory File_Store_Contract
  imports File_Store
begin

section \<open>The file store meets the store contract\<close>

text \<open>
  The file store implements \<open>lifecycle_record_store\<close> for every JSON codec that reads back what it
  wrote. \<open>plain_codec\<close> is one such codec (hexadecimal and decimal fields between commas), so that the
  contract can be interpreted and the properties have concrete instances; the real codec is
  \<open>serde_json\<close>, which is not part of the repository.
\<close>

subsection \<open>A codec\<close>

definition hex_string :: "string \<Rightarrow> string" where
  "hex_string s = concat (map hex_byte s)"

definition unhex_digit :: "char \<Rightarrow> nat" where
  "unhex_digit c = (if 97 \<le> (of_char c :: nat) then of_char c - 87 else of_char c - 48)"

fun unhex :: "string \<Rightarrow> string" where
  "unhex (a # b # s) = char_of (16 * unhex_digit a + unhex_digit b) # unhex s"
| "unhex _ = []"

lemma length_hex_string [simp]: "length (hex_string s) = 2 * length s"
  unfolding hex_string_def by (induction s) auto

lemma unhex_digit: "n < 16 \<Longrightarrow> unhex_digit (hex_digit n) = n"
  by (simp add: unhex_digit_def hex_digit_def)

lemma unhex_hex_string: "unhex (hex_string s) = s"
  unfolding hex_string_def by (induction s) (simp_all add: hex_byte_def unhex_digit)

lemma hex_string_no_comma: "CHR '','' \<notin> set (hex_string s)"
proof -
  have ne: "CHR '','' \<noteq> hex_digit n" if "n < 16" for n
  proof -
    have "(of_char (hex_digit n) :: nat) \<ge> 48"
      using that by (simp add: hex_digit_def)
    then have "hex_digit n \<noteq> CHR '',''" by auto
    then show ?thesis by (rule not_sym)
  qed
  show ?thesis
    using ne [OF high_nibble] ne [of "of_char x mod 16" for x] by (auto simp: hex_string_def hex_byte_def)
qed

lemma show_nat_no_comma: "CHR '','' \<notin> set (show_nat n)"
  using show_nat_digits [of n] by (auto simp: list_all_iff is_ascii_digit_def byte_in_def)

definition state_codes :: "PersistedLifecycleState list" where
  "state_codes = [PRunning, PQuiescing, PFreezing, PFrozen, PCheckpointing, PHibernated, PThawing, PRestoring]"

definition decode_state :: "string \<Rightarrow> PersistedLifecycleState option" where
  "decode_state s = find (\<lambda>x. s = show_nat (length (takeWhile ((\<noteq>) x) state_codes))) state_codes"

definition encode_state :: "PersistedLifecycleState \<Rightarrow> string" where
  "encode_state x = show_nat (length (takeWhile ((\<noteq>) x) state_codes))"

definition plain_fields :: "LifecycleRecord \<Rightarrow> string list" where
  "plain_fields r =
     [hex_string (workload_id r), hex_string (assigned_node r), show_nat (unat (placement_epoch r)),
      show_nat (unat (runtime_epoch r)), show_nat (unat (fencing_token r)), show_nat (unat (revision r)),
      encode_state (state r), (if strategy r = PFreeze then ''f'' else ''h'')]
     @ (case checkpoint r of None \<Rightarrow> []
        | Some c \<Rightarrow> [hex_string (artifact_ref c), hex_string (digest c), hex_string (ckpt_format c)])"

definition plain_checkpoint :: "string list \<Rightarrow> LifecycleCheckpoint option" where
  "plain_checkpoint fs =
     (case fs of [a, d, f] \<Rightarrow> Some \<lparr>artifact_ref = unhex a, digest = unhex d, ckpt_format = unhex f\<rparr> | _ \<Rightarrow> None)"

definition plain_record :: "string list \<Rightarrow> LifecycleRecord option" where
  "plain_record fs =
     (case fs of
        w # n # pe # re # ft # rv # s # g # ck \<Rightarrow>
          (case (parse_u64 pe, parse_u64 re, parse_u64 ft, parse_u64 rv, decode_state s) of
             (Some pe', Some re', Some ft', Some rv', Some s') \<Rightarrow>
               Some \<lparr>workload_id = unhex w, assigned_node = unhex n, placement_epoch = pe', runtime_epoch = re',
                     fencing_token = ft', revision = rv', state = s',
                     strategy = (if g = ''f'' then PFreeze else PHibernate), checkpoint = plain_checkpoint ck\<rparr>
           | _ \<Rightarrow> None)
      | _ \<Rightarrow> None)"

definition plain_codec :: json_codec where
  "plain_codec =
     \<lparr>to_vec = (\<lambda>r. Some (join_byte (CHR '','') (plain_fields r))),
      from_slice = (\<lambda>b. plain_record (split_byte (CHR '','') b))\<rparr>"

lemma decode_encode_state: "decode_state (encode_state x) = Some x"
  by (cases x) (simp_all add: decode_state_def encode_state_def state_codes_def)

lemma plain_fields_no_comma: "p \<in> set (plain_fields r) \<Longrightarrow> CHR '','' \<notin> set p"
  by (auto simp: plain_fields_def encode_state_def hex_string_no_comma show_nat_no_comma
      split: option.splits if_splits)

lemma plain_record_fields: "plain_record (plain_fields r) = Some r"
  by (cases "checkpoint r"; cases "strategy r")
    (simp_all add: plain_record_def plain_fields_def plain_checkpoint_def parse_u64_show decode_encode_state
      unhex_hex_string)

lemma plain_codec_roundtrip: "json_roundtrip plain_codec"
proof -
  have "plain_fields r \<noteq> []" for r
    by (simp add: plain_fields_def)
  then have "split_byte (CHR '','') (join_byte (CHR '','') (plain_fields r)) = plain_fields r" for r
    using plain_fields_no_comma by (rule split_join_byte)
  then show ?thesis
    by (simp add: json_roundtrip_def plain_codec_def plain_record_fields)
qed

subsection \<open>Interpretation\<close>

interpretation fs: lifecycle_record_store "file_store plain_codec st" "stored plain_codec st" "\<lambda>_. True"
  for st
  by (rule file_store_contract [OF plain_codec_roundtrip])

subsection \<open>Successful replacements\<close>

text \<open>The system calls when nothing fails.\<close>

lemma calm_calls:
  assumes "faults w = []"
  shows "symlink_metadata p w = (case map_of (nodes w) p of None \<Rightarrow> (Err NotFound, w) | Some n \<Rightarrow> (Ok n, w))"
    and "map_of (nodes w) p = Some (FileNode b s) \<Longrightarrow> open_or_create p w = (Ok (), w)"
    and "map_of (nodes w) p = None \<Longrightarrow>
      open_or_create p w = (Ok (), set_nodes (AList.update p (FileNode [] False) (nodes w)) w)"
    and "map_of (nodes w) p = None \<Longrightarrow>
      create_new p w = (Ok (), set_nodes (AList.update p (FileNode [] False) (nodes w)) w)"
    and "write_all p b w = (Ok (), put_bytes p b w)"
    and "map_of (nodes w) p = Some (FileNode b s) \<Longrightarrow>
      sync_all p w = (Ok (), set_nodes (AList.update p (FileNode b True) (nodes w)) w)"
    and "map_of (nodes w) p = Some DirNode \<Longrightarrow> sync_all p w = (Ok (), w\<lparr>pending := []\<rparr>)"
    and "map_of (nodes w) p = Some DirNode \<Longrightarrow> open_existing p w = (Ok (), w)"
    and "map_of (nodes w) p = Some n \<Longrightarrow> map_of (nodes w) q \<noteq> Some DirNode \<Longrightarrow>
      rename p q w = (Ok (), set_nodes (AList.update q n (AList.delete p (nodes w))) w)"
    and "syscall (returnE ()) w = (Ok (), w)"
  using assms
  by (simp_all add: symlink_metadata_def open_or_create_def create_new_def write_all_def sync_all_def
      open_existing_def rename_def syscall_def returnE_def split: option.splits)

lemma set_nodes_simps [simp]:
  "nodes (set_nodes m w) = m" "faults (set_nodes m w) = faults w" "clock (set_nodes m w) = clock w"
  "pid (set_nodes m w) = pid w"
  "nodes (put_bytes p b w) = AList.update p (FileNode b False) (nodes w)" "faults (put_bytes p b w) = faults w"
  "clock (put_bytes p b w) = clock w" "pid (put_bytes p b w) = pid w"
  by (simp_all add: set_nodes_def put_bytes_def)

lemma acquire_workload_lock_calm:
  assumes "faults w = []" and "lock_path st i = Ok l"
    and "map_of (nodes w) l = None \<or> (\<exists>b s. map_of (nodes w) l = Some (FileNode b s))"
  shows "\<exists>w'. acquire_workload_lock st i w = (Ok (), w') \<and> faults w' = [] \<and> clock w' = clock w \<and> pid w' = pid w
    \<and> agree {l} (nodes w) (nodes w')"
  using assms(3)
proof (elim disjE exE)
  assume none: "map_of (nodes w) l = None"
  let ?w = "set_nodes (AList.update l (FileNode [] False) (nodes w)) w"
  have "acquire_workload_lock st i w = (Ok (), ?w)"
    using assms(1,2) none
    by (simp add: acquire_workload_lock_def eff_defs calm_calls update_conv' syscall_def)
  then show ?thesis
    using assms(1) agree_update [of l "{l}"] by (intro exI [of _ ?w]) auto
next
  fix b s
  assume "map_of (nodes w) l = Some (FileNode b s)"
  then have "acquire_workload_lock st i w = (Ok (), w)"
    using assms(1,2) by (simp add: acquire_workload_lock_def eff_defs calm_calls syscall_def)
  then show ?thesis
    using assms(1) by auto
qed

lemma now_nanos_calm: "None \<notin> set (clock w) \<Longrightarrow> \<exists>t c. now_nanos w = (Ok t, w\<lparr>clock := c\<rparr>)"
proof (cases "clock w")
  case Nil
  then have "now_nanos w = (Ok 0, w\<lparr>clock := clock w\<rparr>)"
    by (simp add: now_nanos_def)
  then show ?thesis by blast
next
  case (Cons x xs)
  moreover assume "None \<notin> set (clock w)"
  ultimately show ?thesis
    by (cases x) (auto simp: now_nanos_def)
qed

lemma write_temporary_calm:
  assumes "faults w = []" and "None \<notin> set (clock w)" and "workload_file_key (workload_id r) = Ok key"
    and fresh: "\<And>n. is_temporary_name n \<Longrightarrow> map_of (nodes w) (path_join (records_root st) n) = None"
  shows "\<exists>n w'. write_temporary st r b w = (Ok (path_join (records_root st) n), w') \<and> faults w' = []
    \<and> is_temporary_name n \<and> map_of (nodes w') (path_join (records_root st) n) = Some (FileNode b True)
    \<and> agree {path_join (records_root st) n} (nodes w) (nodes w')"
proof -
  obtain t c where t: "now_nanos w = (Ok t, w\<lparr>clock := c\<rparr>)"
    using now_nanos_calm [OF assms(2)] by blast
  let ?n = "temporary_name key (revision r) (pid w) t"
  let ?p = "path_join (records_root st) ?n"
  let ?w1 = "set_nodes (AList.update ?p (FileNode [] False) (nodes w)) (w\<lparr>clock := c\<rparr>)"
  let ?w2 = "put_bytes ?p b ?w1"
  let ?w3 = "set_nodes (AList.update ?p (FileNode b True) (nodes ?w2)) ?w2"
  have tmp: "is_temporary_name ?n"
    by (rule temporary_name_is_temporary)
  have none: "map_of (nodes (w\<lparr>clock := c\<rparr>)) ?p = None"
    using fresh [OF tmp] by simp
  have "create_new ?p (w\<lparr>clock := c\<rparr>) = (Ok (), ?w1)"
    using calm_calls(4) [OF _ none] assms(1) by simp
  moreover have "write_all ?p b ?w1 = (Ok (), ?w2)"
    using assms(1) by (intro calm_calls(5)) simp
  moreover have "sync_all ?p ?w2 = (Ok (), ?w3)"
    using assms(1) by (intro calm_calls(6) [where s = False]) (simp_all add: update_conv')
  ultimately have "write_synced_new ?p b (w\<lparr>clock := c\<rparr>) = (Ok (), ?w3)"
    by (simp only: write_synced_new_def bindE_def prod.case sum.case)
  then have "write_temporary st r b w = (Ok ?p, ?w3)"
    using t assms(3) by (simp add: write_temporary_def Let_def bindE_def liftE_def map_errE_def process_id_def returnE_def)
  moreover have "agree {?p} (nodes w) (nodes ?w3)"
    by (auto simp: agree_def update_conv')
  ultimately show ?thesis
    using assms(1) tmp by (intro exI [of _ ?n] exI [of _ ?w3]) (simp add: update_conv')
qed

text \<open>A store in the state that \<open>open_store\<close> leaves: no failure ahead and no temporary file around.\<close>

definition quiet_store :: "FileLifecycleRecordStore \<Rightarrow> string \<Rightarrow> 'x fs_scheme \<Rightarrow> bool" where
  "quiet_store st i w \<longleftrightarrow>
     faults w = [] \<and> None \<notin> set (clock w) \<and> map_of (nodes w) (records_root st) = Some DirNode
     \<and> (\<forall>n. is_temporary_name n \<longrightarrow> map_of (nodes w) (path_join (records_root st) n) = None)
     \<and> (\<forall>l. lock_path st i = Ok l \<longrightarrow> map_of (nodes w) l \<noteq> Some DirNode \<and> map_of (nodes w) l \<noteq> Some SymlinkNode)"

lemma publish_record_succeeds:
  assumes J: "json_roundtrip J" and b: "to_vec J n = Some b" "length b \<le> MAX_RECORD_BYTES"
    and v: "validate_record n = Ok ()" and p: "record_path st (workload_id n) = Ok p"
    and w: "faults w = []" "None \<notin> set (clock w)" "map_of (nodes w) (records_root st) = Some DirNode"
      "map_of (nodes w) p \<noteq> Some DirNode"
    and fresh: "\<And>t. is_temporary_name t \<Longrightarrow> map_of (nodes w) (path_join (records_root st) t) = None"
  shows "\<exists>w'. publish_record J st n w = (Ok (), w') \<and> faults w' = []"
proof -
  obtain key where key: "workload_file_key (workload_id n) = Ok key"
    using p by (auto simp: record_path_def bindR_Ok_iff)
  obtain t w1 where t: "write_temporary st n b w = (Ok (path_join (records_root st) t), w1)" "faults w1 = []"
    "is_temporary_name t" "map_of (nodes w1) (path_join (records_root st) t) = Some (FileNode b True)"
    "agree {path_join (records_root st) t} (nodes w) (nodes w1)"
    using write_temporary_calm [OF w(1,2) key fresh] by blast
  let ?t = "path_join (records_root st) t"
  have tp: "?t \<notin> record_files st" "?t \<noteq> records_root st"
    using temporary_not_record root_not_temporary t(3) by auto
  have pt: "p \<noteq> ?t"
    using tp(1) record_path_file [OF p] by blast
  have same: "map_of (nodes w1) q = map_of (nodes w) q" if "q \<noteq> ?t" for q
    using t(5) that by (simp add: agree_def)
  let ?w2 = "set_nodes (AList.update p (FileNode b True) (AList.delete ?t (nodes w1))) w1"
  have ren: "rename ?t p w1 = (Ok (), ?w2)"
    using t(2,4) w(4) same [of p] pt by (intro calm_calls(9)) auto
  have "p \<noteq> records_root st"
    using root_not_record record_path_file [OF p] by blast
  then have dir: "map_of (nodes ?w2) (records_root st) = Some DirNode" "faults ?w2 = []"
    using w(3) same [of "records_root st"] tp(2) t(2) by (simp_all add: update_conv' delete_conv')
  let ?w3 = "?w2\<lparr>pending := []\<rparr>"
  have sync: "sync_directory (records_root st) ?w2 = (Ok (), ?w3)"
    using calm_calls(7,8) [OF dir(2,1)] by (simp add: sync_directory_def bindE_def map_errE_def)
  have pub: "published_at st p b (nodes w) (nodes ?w2)"
    using tp(1) same by (auto simp: published_at_def update_conv' delete_conv')
  have "stored J st ?w3 (workload_id n) = Some n"
    using stored_in_published [OF J p b v pub] by simp
  then have "load_record J st (workload_id n) ?w3 = (Ok n, ?w3)"
    using dir(2) by (intro load_record_complete) simp_all
  then have "publish_record J st n w = (Ok (), ?w3)"
    using t(1) ren sync p b
    by (simp add: publish_record_def serialize_record_def bindE_def liftE_def catchE_def returnE_def)
  moreover have "faults ?w3 = []"
    using dir(2) by simp
  ultimately show ?thesis by blast
qed

lemma replace_record_succeeds:
  assumes J: "json_roundtrip J" and cur: "stored J st w (workload_id e) = Some e" and up: "update_ok e n"
    and b: "to_vec J n = Some b" "length b \<le> MAX_RECORD_BYTES" and calm: "quiet_store st (workload_id e) w"
  shows "\<exists>w'. replace_record J st e n w = (Ok (), w') \<and> faults w' = []"
proof -
  obtain p c s where p: "record_path st (workload_id e) = Ok p" "map_of (nodes w) p = Some (FileNode c s)"
    and ve: "validate_record e = Ok ()"
    using cur by (rule stored_in_Some)
  obtain key where key: "workload_file_key (workload_id e) = Ok key"
    using p(1) by (auto simp: record_path_def bindR_Ok_iff)
  have id: "workload_id n = workload_id e" and "valid_record n"
    using up by (auto simp: update_ok_def)
  then have vn: "validate_record n = Ok ()"
    using key by (simp add: validate_record_def validate_iff)
  obtain l where l: "lock_path st (workload_id e) = Ok l"
    using key by (simp add: lock_path_def)
  have lk: "map_of (nodes w) l = None \<or> (\<exists>b s. map_of (nodes w) l = Some (FileNode b s))"
  proof (cases "map_of (nodes w) l")
    case (Some x)
    then show ?thesis using calm l by (cases x) (auto simp: quiet_store_def)
  qed simp
  obtain w1 where w1: "acquire_workload_lock st (workload_id e) w = (Ok (), w1)" "faults w1 = []"
    "clock w1 = clock w" "agree {l} (nodes w) (nodes w1)"
    using acquire_workload_lock_calm [OF _ l lk] calm by (auto simp: quiet_store_def)
  have same: "map_of (nodes w1) q = map_of (nodes w) q" if "q \<noteq> l" for q
    using w1(4) that by (simp add: agree_def)
  have "same_records st (nodes w) (nodes w1)"
    using lock_path_not_record [OF l] same unfolding same_records_def by metis
  then have "stored J st w1 (workload_id e) = Some e"
    using cur stored_in_same by metis
  then have ld: "load_record J st (workload_id e) w1 = (Ok e, w1)"
    using w1(2) by (rule load_record_complete)
  have "p \<noteq> l"
    using lock_path_not_record [OF l] record_path_file [OF p(1)] by blast
  then have "\<exists>w'. publish_record J st n w1 = (Ok (), w') \<and> faults w' = []"
    using calm w1(2,3) same p id lock_not_root [OF l] lock_not_temporary [OF l]
    by (intro publish_record_succeeds [OF J b vn]) (auto simp: quiet_store_def)
  moreover have "validate_record_update e n = Ok ()"
    using up by (simp add: validate_record_update_iff)
  ultimately show ?thesis
    using ve vn w1(1) ld by (simp add: replace_record_def bindE_def liftE_def)
qed

lemma calm_link:
  assumes "faults w = []"
  shows "map_of (nodes w) p = Some n \<Longrightarrow> map_of (nodes w) q = None \<Longrightarrow>
      hard_link p q w = (Ok (), set_nodes (AList.update q n (nodes w)) w)"
    and "map_of (nodes w) p = Some (FileNode b s) \<Longrightarrow>
      remove_file p w = (Ok (), set_nodes (AList.delete p (nodes w)) w)"
  using assms by (simp_all add: hard_link_def remove_file_def syscall_def)

text \<open>The last steps of a new record: link the temporary file under its name, remove the temporary name, sync.\<close>

lemma publish_link_calm:
  fixes w :: "'x fs_scheme"
  defines "w3 \<equiv> \<lambda>p b. set_nodes (AList.update p (FileNode b True) (nodes w)) w"
  defines "w4 \<equiv> \<lambda>t p b. set_nodes (AList.delete t (nodes (w3 p b))) (w3 p b)"
  assumes calm: "faults w = []" and t: "map_of (nodes w) t = Some (FileNode b True)" and p: "map_of (nodes w) p = None"
    and ne: "p \<noteq> t" "t \<noteq> records_root st" "p \<noteq> records_root st" and root: "map_of (nodes w) (records_root st) = Some DirNode"
  shows "hard_link t p w = (Ok (), w3 p b)" and "cleanup_temporary t (w3 p b) = (Ok (), w4 t p b)"
    and "sync_directory (records_root st) (w4 t p b) = (Ok (), (w4 t p b)\<lparr>pending := []\<rparr>)"
proof -
  show "hard_link t p w = (Ok (), w3 p b)"
    using calm_link(1) [OF calm t] p by (simp add: w3_def)
  show "cleanup_temporary t (w3 p b) = (Ok (), w4 t p b)"
    using calm_link(2) [of "w3 p b" t b True] calm t ne(1)
    by (simp add: cleanup_temporary_def map_errE_def update_conv' w3_def w4_def)
  have dir: "faults (w4 t p b) = []" "map_of (nodes (w4 t p b)) (records_root st) = Some DirNode"
    using calm ne root by (simp_all add: update_conv' delete_conv' w3_def w4_def)
  then show "sync_directory (records_root st) (w4 t p b) = (Ok (), (w4 t p b)\<lparr>pending := []\<rparr>)"
    using calm_calls(7,8) [OF dir] by (simp add: sync_directory_def bindE_def map_errE_def)
qed

lemma initialize_succeeds:
  assumes J: "json_roundtrip J" and v: "validate_record n = Ok ()"
    and b: "to_vec J n = Some b" "length b \<le> MAX_RECORD_BYTES"
    and p: "record_path st (workload_id n) = Ok p" "map_of (nodes w) p = None"
    and calm: "quiet_store st (workload_id n) w"
  shows "\<exists>w'. initialize J st n w = (Ok (), w')"
proof -
  obtain key where key: "workload_file_key (workload_id n) = Ok key"
    using p(1) by (auto simp: record_path_def bindR_Ok_iff)
  obtain l where l: "lock_path st (workload_id n) = Ok l"
    using key by (simp add: lock_path_def)
  have lk: "map_of (nodes w) l = None \<or> (\<exists>b s. map_of (nodes w) l = Some (FileNode b s))"
  proof (cases "map_of (nodes w) l")
    case (Some x)
    then show ?thesis using calm l by (cases x) (auto simp: quiet_store_def)
  qed simp
  obtain w1 where w1: "acquire_workload_lock st (workload_id n) w = (Ok (), w1)" "faults w1 = []"
    "clock w1 = clock w" "agree {l} (nodes w) (nodes w1)"
    using acquire_workload_lock_calm [OF _ l lk] calm by (auto simp: quiet_store_def)
  have same1: "map_of (nodes w1) q = map_of (nodes w) q" if "q \<noteq> l" for q
    using w1(4) that by (simp add: agree_def)
  have pl: "p \<noteq> l"
    using lock_path_not_record [OF l] record_path_file [OF p(1)] by blast
  have absent: "path_exists p w1 = (Ok False, w1)"
    using same1 [OF pl] p(2) calm_calls(1) [OF w1(2), of p] by (simp add: path_exists_def eff_defs)
  obtain t w2 where t: "write_temporary st n b w1 = (Ok (path_join (records_root st) t), w2)" "faults w2 = []"
    "is_temporary_name t" "map_of (nodes w2) (path_join (records_root st) t) = Some (FileNode b True)"
    "agree {path_join (records_root st) t} (nodes w1) (nodes w2)"
    using write_temporary_calm [OF w1(2) _ key] w1(3) calm same1 lock_not_temporary [OF l]
    by (metis quiet_store_def)
  let ?t = "path_join (records_root st) t"
  have tp: "p \<noteq> ?t" "?t \<noteq> records_root st" "p \<noteq> records_root st"
    using temporary_not_record [OF t(3), of st] root_not_temporary [OF t(3)] record_path_file [OF p(1)]
      root_not_record [of st] by auto
  have same2: "map_of (nodes w2) q = map_of (nodes w) q" if "q \<noteq> l" "q \<noteq> ?t" for q
    using t(5) same1 [OF that(1)] that(2) by (simp add: agree_def)
  let ?w3 = "set_nodes (AList.update p (FileNode b True) (nodes w2)) w2"
  let ?w4 = "set_nodes (AList.delete ?t (nodes ?w3)) ?w3"
  have root: "map_of (nodes w2) (records_root st) = Some DirNode"
    using same2 [of "records_root st"] tp calm lock_not_root [OF l] by (simp add: quiet_store_def)
  note steps = publish_link_calm [OF t(2,4) _ tp root] same2 [OF pl tp(1)] p(2)
  have pub: "published_at st p b (nodes ?w3) (nodes ?w4)"
    using tp temporary_not_record [OF t(3), of st] by (auto simp: published_at_def update_conv' delete_conv')
  let ?w5 = "?w4\<lparr>pending := []\<rparr>"
  have "stored J st ?w5 (workload_id n) = Some n"
    using stored_in_published [OF J p(1) b v pub] by simp
  then have "load_record J st (workload_id n) ?w5 = (Ok n, ?w5)"
    using t(2) by (intro load_record_complete) simp_all
  then have "initialize J st n w = (Ok (), ?w5)"
    using v w1(1) p(1) absent b t(1) steps
    by (simp add: initialize_def serialize_record_def bindE_def liftE_def catchE_def returnE_def)
  then show ?thesis by blast
qed

subsection \<open>Properties\<close>

text \<open>
  a replacement is atomic when its process stops. Whatever fails in \<open>replace_record\<close>, and in whichever of
  the states it passes through it is stopped, the record files are those from before, or they
  differ from them only in the file of this workload, which then holds the complete synced encoding
  of the next record; the latter only if the expected record was the stored one and the pair passes
  \<open>validate_record_update\<close>. The states are the entries that the run appends to \<open>history\<close>, and the last.
\<close>

theorem replace_record_crash_atomic:
  "let w' = snd (replace_record J st e n w);
       pre = (stored J st w (workload_id e) = Some e \<and> update_ok e n)
   in take (length (history w)) (history w') = history w
      \<and> list_all (records_or_next J st pre n (nodes w)) (drop (length (history w)) (history w') @ [nodes w'])"
proof -
  define Q where "Q = records_or_next J st (stored J st w (workload_id e) = Some e \<and> update_ok e n) n (nodes w)"
  obtain r w' where run: "replace_record J st e n w = (r, w')"
    by fastforce
  have "extends Q w w'"
    using hoareE_D [OF replace_record_triple [OF Q_def] refl run] by (auto split: sum.splits)
  then show ?thesis
    using run by (auto simp: extends_def Q_def list_all_iff)
qed

text \<open>
  C31: \<open>replace_record\<close> implements a compare-and-set. For a JSON codec that reads back what it wrote, a
  replacement that succeeds found the expected record stored and changed the stored record of this
  workload to the next one and nothing else; one that fails either changed nothing or made that
  very change (when confirming it failed).
\<close>

theorem replace_record_refines_compare_and_set:
  assumes "json_roundtrip J" and "replace_record J st e n w = (r, w')"
  shows "(if r = Ok ()
      then stored J st w (workload_id e) = Some e \<and> stored J st w' = (stored J st w)(workload_id e \<mapsto> n)
      else stored J st w' = stored J st w \<or>
        stored J st w (workload_id e) = Some e \<and> stored J st w' = (stored J st w)(workload_id e \<mapsto> n))"
  using replace_record_stored [OF assms] by auto

text \<open>
  C32: with the right expectation a replacement goes through. If the expected record is stored, the
  pair passes \<open>validate_record_update\<close>, the encoding of the next record fits, no system call fails
  and the directory is as \<open>open_store\<close> leaves it, then \<open>replace_record\<close> returns \<open>Ok\<close>, \<open>load_record\<close> then
  returns the next record, and the records of all other workloads are as before.
\<close>

theorem replace_record_goes_through:
  assumes "json_roundtrip J" and "stored J st w (workload_id e) = Some e" and "validate_record_update e n = Ok ()"
    and "to_vec J n = Some b" and "length b \<le> MAX_RECORD_BYTES" and "quiet_store st (workload_id e) w"
  shows "\<exists>w'. replace_record J st e n w = (Ok (), w') \<and> load_record J st (workload_id n) w' = (Ok n, w')
    \<and> stored J st w' = (stored J st w)(workload_id n \<mapsto> n)"
proof -
  have up: "update_ok e n"
    using assms(3) by (simp add: validate_record_update_iff)
  then obtain w' where run: "replace_record J st e n w = (Ok (), w')" and calm: "faults w' = []"
    using replace_record_succeeds assms by blast
  have now: "stored J st w' = (stored J st w)(workload_id n \<mapsto> n)"
    using replace_record_stored(2) [OF assms(1) run refl] up by (simp add: update_ok_def)
  then have "load_record J st (workload_id n) w' = (Ok n, w')"
    using calm by (intro load_record_complete) simp_all
  then show ?thesis
    using run now by blast
qed

text \<open>
  first publication and read back. For a codec that reads back what it wrote, when
  \<open>initialize\<close> returns \<open>Ok\<close> there was no record of the workload, the records of all other workloads
  are as before, and a load without failures returns the initialised record.
\<close>

theorem initialize_then_load:
  assumes "json_roundtrip J" and "initialize J st r w = (Ok (), w')"
  shows "stored J st w (workload_id r) = None
    \<and> stored J st w' = (stored J st w)(workload_id r \<mapsto> r)
    \<and> load_record J st (workload_id r) (w'\<lparr>faults := []\<rparr>) = (Ok r, w'\<lparr>faults := []\<rparr>)"
proof -
  have "stored J st w (workload_id r) = None \<and> stored J st w' = (stored J st w)(workload_id r \<mapsto> r)"
    using initialize_stored(2) [OF assms refl] .
  moreover from this have "stored J st (w'\<lparr>faults := []\<rparr>) (workload_id r) = Some r"
    by simp
  ultimately show ?thesis
    using load_record_complete by fastforce
qed

text \<open>
  opening recovers from a crash. When \<open>open_store\<close> succeeds, no temporary file is left in the
  records directory and every record file is as it was.
\<close>

theorem open_store_removes_temporaries:
  assumes "open_store root w = (Ok st, w')"
  shows "records_root st = path_join root RECORDS_DIRECTORY
    \<and> same_records st (nodes w) (nodes w')
    \<and> (is_temporary_name n \<and> valid_utf8 n \<and> CHR ''/'' \<notin> set n \<longrightarrow>
         map_of (nodes w') (path_join (records_root st) n) = None)"
  using open_store_Ok [OF assms] by blast

text \<open>
  every workload has its own file. Two workload ids with the same record path are equal, and the
  record path is never the path of a lock or of a temporary file.
\<close>

theorem record_paths_do_not_collide:
  assumes "record_path st i = Ok p"
  shows "(record_path st j = Ok p \<longrightarrow> j = i) \<and> lock_path st j \<noteq> Ok p
    \<and> (is_temporary_name n \<longrightarrow> path_join (records_root st) n \<noteq> p)"
  using assms record_path_inj lock_path_not_record temporary_not_record record_path_file by metis

subsection \<open>Instances\<close>

definition sample_store :: FileLifecycleRecordStore where
  "sample_store = \<lparr>records_root = ''/r''\<rparr>"

definition sample_path :: string where
  "sample_path = path_join ''/r'' (hex_string ''tenant-42'' @ ''.json'')"

definition sample_fs :: fs where
  "sample_fs =
     \<lparr>nodes = [(''/r'', DirNode), (sample_path, FileNode (join_byte (CHR '','') (plain_fields (sample_record 13 19 11 PFrozen))) True)],
      history = [], pending = [], faults = [], clock = [], pid = 7\<rparr>"

lemma sample_key: "workload_file_key ''tenant-42'' = Ok (hex_string ''tenant-42'')"
  by (simp add: workload_file_key_def hex_string_def MAX_WORKLOAD_ID_BYTES_def is_ascii_alphanumeric_def
      is_ascii_digit_def is_ascii_lowercase_def is_ascii_uppercase_def byte_in_def)

lemma sample_record_path: "record_path sample_store ''tenant-42'' = Ok sample_path"
  by (simp add: record_path_def sample_key sample_store_def sample_path_def)

abbreviation frozen_sample :: LifecycleRecord where
  "frozen_sample \<equiv> sample_record 13 19 11 PFrozen"

abbreviation thawing_sample :: LifecycleRecord where
  "thawing_sample \<equiv> sample_record 13 19 12 PThawing"

abbreviation running_sample :: LifecycleRecord where
  "running_sample \<equiv> sample_record 13 19 11 PRunning"

lemma sample_workload [simp]: "workload_id (sample_record a b c s) = ''tenant-42''"
  by (simp add: sample_record_def)

lemma sample_update: "validate_record_update frozen_sample thawing_sample = Ok ()"
  by (simp add: validate_record_update_iff update_ok_def sample_record_valid) (simp add: sample_record_def)

lemma sample_length:
  "length (join_byte (CHR '','') (plain_fields frozen_sample)) \<le> MAX_RECORD_BYTES"
  "length (join_byte (CHR '','') (plain_fields thawing_sample)) \<le> MAX_RECORD_BYTES"
  "length (join_byte (CHR '','') (plain_fields running_sample)) \<le> MAX_RECORD_BYTES"
  by (simp_all add: plain_fields_def sample_record_def encode_state_def state_codes_def MAX_RECORD_BYTES_def
      show_nat.simps)

lemma sample_stored: "stored plain_codec sample_store sample_fs ''tenant-42'' = Some frozen_sample"
proof -
  have v: "validate_record frozen_sample = Ok ()"
    by (simp add: validate_record_def sample_key validate_iff sample_record_valid)
  have b: "to_vec plain_codec frozen_sample = Some (join_byte (CHR '','') (plain_fields frozen_sample))"
    by (simp add: plain_codec_def)
  have "from_slice plain_codec (join_byte (CHR '','') (plain_fields frozen_sample)) = Some frozen_sample"
    using plain_codec_roundtrip b unfolding json_roundtrip_def by blast
  moreover have "length (join_byte (CHR '','') (plain_fields frozen_sample)) \<le> MAX_RECORD_BYTES"
    by (simp add: sample_length)
  ultimately show ?thesis
    using v by (simp add: stored_in_def sample_record_path sample_fs_def sample_path_def path_join_def hex_string_def)
qed

lemma temporary_elsewhere:
  "is_temporary_name t \<Longrightarrow> path_join ''/r'' t \<noteq> ''/r'' \<and> path_join ''/r'' t \<noteq> sample_path"
  using root_not_temporary [of t sample_store] temporary_not_record [of t sample_store]
    record_path_file [OF sample_record_path] by (auto simp: sample_store_def)

lemma sample_lock: "lock_path sample_store ''tenant-42'' = Ok l \<Longrightarrow> l \<noteq> ''/r'' \<and> l \<noteq> sample_path"
  using lock_not_root [of sample_store] lock_path_not_record [of sample_store] record_path_file [OF sample_record_path]
  by (auto simp: sample_store_def)

lemma sample_calm:
  "quiet_store sample_store ''tenant-42'' sample_fs"
  "quiet_store sample_store ''tenant-42'' (sample_fs\<lparr>nodes := [(''/r'', DirNode)]\<rparr>)"
  using temporary_elsewhere sample_lock
  by (auto simp: quiet_store_def sample_fs_def sample_store_def)

theorem replace_record_goes_through_witness:
  "\<exists>w'. replace_record plain_codec sample_store frozen_sample thawing_sample sample_fs = (Ok (), w')
     \<and> load_record plain_codec sample_store ''tenant-42'' w' = (Ok thawing_sample, w')"
proof -
  have "to_vec plain_codec thawing_sample = Some (join_byte (CHR '','') (plain_fields thawing_sample))"
    by (simp add: plain_codec_def)
  from replace_record_goes_through [OF plain_codec_roundtrip _ sample_update this sample_length(2),
      where st = sample_store and w = sample_fs]
  show ?thesis using sample_stored sample_calm(1) by auto
qed

lemma sample_replace_runs:
  "\<exists>w'. replace_record plain_codec sample_store frozen_sample thawing_sample sample_fs = (Ok (), w') \<and> faults w' = []"
proof (rule replace_record_succeeds [OF plain_codec_roundtrip])
  show "to_vec plain_codec thawing_sample = Some (join_byte (CHR '','') (plain_fields thawing_sample))"
    by (simp add: plain_codec_def)
  show "update_ok frozen_sample thawing_sample"
    using sample_update by (simp add: validate_record_update_iff)
qed (use sample_stored sample_calm(1) sample_length(2) in simp_all)

theorem replace_record_refines_compare_and_set_witness:
  "\<exists>w'. replace_record plain_codec sample_store frozen_sample thawing_sample sample_fs = (Ok (), w')
     \<and> stored plain_codec sample_store w' =
         (stored plain_codec sample_store sample_fs)(''tenant-42'' \<mapsto> thawing_sample)"
proof -
  obtain w' where run:
    "replace_record plain_codec sample_store frozen_sample thawing_sample sample_fs = (Ok (), w')"
    using sample_replace_runs by blast
  from replace_record_refines_compare_and_set [OF plain_codec_roundtrip run] run
  show ?thesis by auto
qed

theorem initialize_then_load_witness:
  "\<exists>w'. initialize plain_codec sample_store running_sample (sample_fs\<lparr>nodes := [(''/r'', DirNode)]\<rparr>) = (Ok (), w')
     \<and> load_record plain_codec sample_store ''tenant-42'' (w'\<lparr>faults := []\<rparr>) = (Ok running_sample, w'\<lparr>faults := []\<rparr>)"
proof -
  have v: "validate_record running_sample = Ok ()"
    by (simp add: validate_record_def sample_key validate_iff sample_record_valid)
  have b: "to_vec plain_codec running_sample = Some (join_byte (CHR '','') (plain_fields running_sample))"
    by (simp add: plain_codec_def)
  have p: "record_path sample_store (workload_id running_sample) = Ok sample_path"
    "map_of (nodes (sample_fs\<lparr>nodes := [(''/r'', DirNode)]\<rparr>)) sample_path = None"
    using sample_record_path by (simp_all add: sample_path_def path_join_def starts_with_def hex_string_def)
  have c: "quiet_store sample_store (workload_id running_sample) (sample_fs\<lparr>nodes := [(''/r'', DirNode)]\<rparr>)"
    using sample_calm(2) by simp
  obtain w' where run: "initialize plain_codec sample_store running_sample (sample_fs\<lparr>nodes := [(''/r'', DirNode)]\<rparr>) = (Ok (), w')"
    using initialize_succeeds [OF plain_codec_roundtrip v b sample_length(3) p c] by blast
  from initialize_then_load [OF plain_codec_roundtrip run] run show ?thesis by auto
qed

theorem record_paths_do_not_collide_witness:
  "record_path sample_store ''tenant-42'' = Ok sample_path \<and> lock_path sample_store ''tenant-42'' \<noteq> Ok sample_path"
  using record_paths_do_not_collide [OF sample_record_path] sample_record_path by blast

text \<open>A directory with a left-over temporary file.\<close>

definition crashed_fs :: fs where
  "crashed_fs =
     \<lparr>nodes = [(''/d'', DirNode), (''/d/records'', DirNode), (''/d/records/.ores-lifecycle-1.tmp'', FileNode ''x'' False)],
      history = [], pending = [], faults = [], clock = [], pid = 7\<rparr>"

theorem open_store_removes_temporaries_witness:
  "\<exists>w'. open_store ''/d'' crashed_fs = (Ok \<lparr>records_root = ''/d/records''\<rparr>, w')
     \<and> map_of (nodes w') ''/d/records/.ores-lifecycle-1.tmp'' = None"
proof -
  let ?w = "set_nodes [(''/d'', DirNode), (''/d/records'', DirNode)] crashed_fs"
  have run: "open_store ''/d'' crashed_fs = (Ok \<lparr>records_root = ''/d/records''\<rparr>, ?w)"
    by (simp add: open_store_def crashed_fs_def validate_real_directory_def ensure_records_directory_def
        recover_temporary_files_def read_dir_def entry_name_def strip_prefix_def starts_with_def
        symlink_metadata_def remove_file_def path_join_def ends_with_def RECORDS_DIRECTORY_def eff_defs syscall_def
        List.map_filter_def is_temporary_name_def TEMP_PREFIX_def TEMP_SUFFIX_def valid_utf8_def utf8_lead_def Let_def)
  from open_store_removes_temporaries [OF run, of "''.ores-lifecycle-1.tmp''"] run
  show ?thesis
    by (simp add: is_temporary_name_def starts_with_def ends_with_def TEMP_PREFIX_def TEMP_SUFFIX_def
        path_join_def valid_utf8_ascii RECORDS_DIRECTORY_def)
qed

end
