(* ===== verification/Host_World.thy ===== *)
theory Host_World
  imports Posix_Fs
begin

section \<open>The host around the agent\<close>

text \<open>
  The agent talks to the kernel through the files of \<open>/proc\<close> and of a cgroup, and to the product and
  the host controller through Unix sockets. The record \<open>host\<close> extends the file system with this
  environment. The kernel answers a read, a \<open>symlink_metadata\<close> or a write of a control file with any
  function of the writes so far, the time and the path, so a file may change between two reads; each
  call takes the next of an arbitrary list of lags. The peer of a socket answers a request with any
  function of the requests sent so far: it may refuse the connection, fail at any point, and split
  its answer into any chunks. Time is counted in nanoseconds.
\<close>

type_synonym kernel_writes = "(nat \<times> string \<times> string) list"

record kernel =
  k_read :: "kernel_writes \<Rightarrow> nat \<Rightarrow> string \<Rightarrow> io_kind + string"
  k_stat :: "kernel_writes \<Rightarrow> nat \<Rightarrow> string \<Rightarrow> io_kind + node"
  k_write :: "kernel_writes \<Rightarrow> nat \<Rightarrow> string \<Rightarrow> string \<Rightarrow> io_kind + unit"

record socket_reply =
  accepts_request :: bool
  shuts_down :: bool
  chunks :: "(io_kind + bytes) list"

record socket_peer =
  connects :: bool
  timeouts_set :: bool
  replies :: "bytes \<Rightarrow> socket_reply"

record host = fs +
  now :: nat
  lags :: "nat list"
  writes :: kernel_writes
  sent :: "(string \<times> bytes) list"
  kernel_of :: kernel
  peer_of :: "(string \<times> bytes) list \<Rightarrow> string \<Rightarrow> socket_peer"

definition elapse :: "nat \<Rightarrow> 'x host_scheme \<Rightarrow> 'x host_scheme" where
  "elapse d w =
     (case lags w of
        [] \<Rightarrow> w\<lparr>now := now w + d\<rparr>
      | l # ls \<Rightarrow> w\<lparr>now := now w + d + l, lags := ls\<rparr>)"

definition read_to_string :: "string \<Rightarrow> ('x host_scheme, io_kind, string) eff" where
  "read_to_string p w =
     (bindR (k_read (kernel_of w) (writes w) (now w) p) (\<lambda>s. if valid_utf8 s then Ok s else Err OtherKind),
      elapse 0 w)"

definition lstat :: "string \<Rightarrow> ('x host_scheme, io_kind, node) eff" where
  "lstat p w = (k_stat (kernel_of w) (writes w) (now w) p, elapse 0 w)"

definition write_file :: "string \<Rightarrow> string \<Rightarrow> ('x host_scheme, io_kind, unit) eff" where
  "write_file p b w =
     (case k_write (kernel_of w) (writes w) (now w) p b of
        Err k \<Rightarrow> (Err k, elapse 0 w)
      | Ok _ \<Rightarrow> (Ok (), elapse 0 (w\<lparr>writes := writes w @ [(now w, p, b)]\<rparr>)))"

definition instant_now :: "('x host_scheme, 'e, nat) eff" where
  "instant_now w = (Ok (now w), w)"

definition sleep :: "nat \<Rightarrow> ('x host_scheme, 'e, unit) eff" where
  "sleep d w = (Ok (), elapse d w)"

text \<open>
  A connected \<open>UnixStream\<close> is the path of the socket and the peer behind it. Whatever is passed to
  \<open>write_all\<close> counts as sent, also when the call fails after a part of it.
\<close>

type_synonym unix_stream = "string \<times> socket_peer"

definition unix_connect :: "string \<Rightarrow> ('x host_scheme, io_kind, unix_stream) eff" where
  "unix_connect p w =
     (let peer = peer_of w (sent w) p in
      (if connects peer then Ok (p, peer) else Err OtherKind, elapse 0 w))"

definition set_timeouts :: "unix_stream \<Rightarrow> ('x host_scheme, io_kind, unit) eff" where
  "set_timeouts s = liftE (if timeouts_set (snd s) then Ok () else Err OtherKind)"

definition stream_write_all :: "unix_stream \<Rightarrow> bytes \<Rightarrow> ('x host_scheme, io_kind, unit) eff" where
  "stream_write_all s b w =
     (if accepts_request (replies (snd s) b) then Ok () else Err OtherKind,
      elapse 0 (w\<lparr>sent := sent w @ [(fst s, b)]\<rparr>))"

definition shutdown_write :: "unix_stream \<Rightarrow> bytes \<Rightarrow> ('x host_scheme, io_kind, unit) eff" where
  "shutdown_write s b = liftE (if shuts_down (replies (snd s) b) then Ok () else Err OtherKind)"

text \<open>A read of a stream takes at most the size of the buffer and leaves the rest of the chunk.\<close>

fun stream_read :: "nat \<Rightarrow> (io_kind + bytes) list \<Rightarrow> (io_kind + bytes) \<times> (io_kind + bytes) list" where
  "stream_read n [] = (Ok [], [])"
| "stream_read n (Err k # cs) = (Err k, cs)"
| "stream_read n (Ok b # cs) =
     (if b = [] then stream_read n cs
      else (Ok (take n b), if length b \<le> n then cs else Ok (drop n b) # cs))"

text \<open>The number of bytes that a stream can still deliver.\<close>

fun stream_bytes :: "(io_kind + bytes) list \<Rightarrow> nat" where
  "stream_bytes [] = 0"
| "stream_bytes (Err k # cs) = stream_bytes cs"
| "stream_bytes (Ok b # cs) = length b + stream_bytes cs"

lemma stream_read_decreases:
  "stream_read n cs = (Ok b, cs') \<Longrightarrow> b \<noteq> [] \<Longrightarrow> 0 < n \<Longrightarrow> stream_bytes cs' < stream_bytes cs"
  by (induction n cs rule: stream_read.induct) (auto split: if_splits)

lemma stream_read_size: "stream_read n cs = (Ok b, cs') \<Longrightarrow> length b \<le> n"
  by (induction n cs rule: stream_read.induct) (auto split: if_splits)

text \<open>The bytes that a stream delivers before it ends or fails, and whether it fails.\<close>

fun delivered :: "(io_kind + bytes) list \<Rightarrow> bytes" where
  "delivered [] = []"
| "delivered (Err k # cs) = []"
| "delivered (Ok b # cs) = b @ delivered cs"

fun breaks :: "(io_kind + bytes) list \<Rightarrow> bool" where
  "breaks [] = False"
| "breaks (Err k # cs) = True"
| "breaks (Ok b # cs) = breaks cs"

lemma stream_read_delivered:
  assumes "stream_read n cs = (r, cs')" and "0 < n"
  shows "case r of Err _ \<Rightarrow> breaks cs \<and> delivered cs = []
    | Ok b \<Rightarrow> if b = [] then delivered cs = [] \<and> \<not> breaks cs
        else delivered cs = b @ delivered cs' \<and> breaks cs' = breaks cs"
  using assms by (induction n cs arbitrary: r cs' rule: stream_read.induct)
    (auto split: if_splits sum.splits)

text \<open>
  A loop that reads a stream in buffers of \<open>size\<close> bytes, gives up when the peer fails or sends more than
  \<open>bound\<close> bytes, and finishes with what it collected when the peer closes. Its result depends only on
  the bytes that are delivered, not on the chunks in which they come.
\<close>

locale bounded_reader =
  fixes size :: nat and bound :: nat and broken :: 'e and too_large :: 'e
    and finish :: "bytes \<Rightarrow> 'e + 'a" and loop :: "(io_kind + bytes) list \<Rightarrow> bytes \<Rightarrow> 'e + 'a"
  assumes size_pos: "0 < size"
    and loop_eq: "loop cs b =
      (case stream_read size cs of
         (Err _, _) \<Rightarrow> Err broken
       | (Ok chunk, cs') \<Rightarrow>
           if chunk = [] then finish b
           else if length (b @ chunk) > bound then Err too_large
           else loop cs' (b @ chunk))"
begin

lemma loop_delivered:
  "length b \<le> bound \<Longrightarrow> loop cs b =
     (if length (b @ delivered cs) > bound then Err too_large
      else if breaks cs then Err broken
      else finish (b @ delivered cs))"
proof (induction "stream_bytes cs" arbitrary: cs b rule: less_induct)
  case less
  obtain r cs' where rd: "stream_read size cs = (r, cs')"
    by fastforce
  note del = stream_read_delivered [OF rd size_pos]
  show ?case
  proof (cases r)
    case (Inl k)
    then show ?thesis
      using less.prems rd del by (subst loop_eq) simp
  next
    case (Inr chunk)
    show ?thesis
    proof (cases "chunk = [] \<or> length (b @ chunk) > bound")
      case True
      then show ?thesis
        using less.prems rd del Inr by (subst loop_eq) auto
    next
      case False
      then have "loop cs b = loop cs' (b @ chunk)"
        using rd Inr by (subst loop_eq) simp
      moreover have "stream_bytes cs' < stream_bytes cs"
        using stream_read_decreases [of size cs chunk cs'] rd Inr False size_pos by simp
      ultimately show ?thesis
        using less.hyps [of cs' "b @ chunk"] False del Inr by auto
    qed
  qed
qed

end

subsection \<open>What the calls leave alone\<close>

lemma elapse_simps [simp]:
  "nodes (elapse d w) = nodes w" "history (elapse d w) = history w" "pending (elapse d w) = pending w" "faults (elapse d w) = faults w"
  "clock (elapse d w) = clock w" "writes (elapse d w) = writes w" "sent (elapse d w) = sent w"
  "kernel_of (elapse d w) = kernel_of w" "peer_of (elapse d w) = peer_of w"
  by (simp_all add: elapse_def split: list.splits)

lemma now_elapse: "now w + d \<le> now (elapse d w)"
  by (simp add: elapse_def split: list.splits)

lemma touches_host_calls:
  "touches A (read_to_string p)" "touches A (lstat p)" "touches A (write_file p b)" "touches A instant_now"
  "touches A (sleep d)" "touches A (unix_connect p)" "touches A (set_timeouts s)" "touches A (stream_write_all s b)"
  "touches A (shutdown_write s b)"
  by (auto simp: touches_def crash_points_def extends_def read_to_string_def lstat_def write_file_def instant_now_def sleep_def
      unix_connect_def set_timeouts_def stream_write_all_def shutdown_write_def liftE_def Let_def split: sum.splits)

text \<open>\<open>keeps_writes m\<close>: the call \<open>m\<close> writes no kernel file, and time does not run backwards.\<close>

definition keeps_writes :: "('x host_scheme, 'e, 'a) eff \<Rightarrow> bool" where
  "keeps_writes m \<longleftrightarrow>
     (\<forall>w r w'. m w = (r, w') \<longrightarrow> writes w' = writes w \<and> kernel_of w' = kernel_of w \<and> now w \<le> now w')"

lemma keeps_writesD:
  "keeps_writes m \<Longrightarrow> m w = (r, w') \<Longrightarrow> writes w' = writes w \<and> kernel_of w' = kernel_of w \<and> now w \<le> now w'"
  by (auto simp: keeps_writes_def)

lemma keeps_writes_calls:
  "keeps_writes (read_to_string p)" "keeps_writes (lstat p)" "keeps_writes instant_now" "keeps_writes (sleep d)"
  "keeps_writes (returnE a)" "keeps_writes (throwE e)" "keeps_writes (liftE r)"
  using now_elapse [where d = 0] now_elapse [THEN add_leD1]
  by (auto simp: keeps_writes_def read_to_string_def lstat_def instant_now_def sleep_def eff_defs)

lemma keeps_writes_socket:
  "keeps_writes (unix_connect p)" "keeps_writes (set_timeouts s)" "keeps_writes (stream_write_all s b)"
  "keeps_writes (shutdown_write s b)"
  using now_elapse [where d = 0]
  by (auto simp: keeps_writes_def unix_connect_def set_timeouts_def stream_write_all_def shutdown_write_def eff_defs Let_def
      intro: order_trans [OF _ now_elapse])

lemma keeps_writes_bindE:
  assumes "keeps_writes m" and "\<And>a. keeps_writes (k a)"
  shows "keeps_writes (bindE m k)"
  unfolding keeps_writes_def
proof (intro allI impI)
  fix w r w'
  assume run: "bindE m k w = (r, w')"
  obtain x w1 where m: "m w = (x, w1)"
    by fastforce
  show "writes w' = writes w \<and> kernel_of w' = kernel_of w \<and> now w \<le> now w'"
  proof (cases x)
    case (Inl e)
    then show ?thesis
      using run m keeps_writesD [OF assms(1) m] by (simp add: bindE_def)
  next
    case (Inr a)
    then have "k a w1 = (r, w')"
      using run m by (simp add: bindE_def)
    from keeps_writesD [OF assms(2) this] keeps_writesD [OF assms(1) m] show ?thesis
      by auto
  qed
qed

lemma keeps_writes_map_errE: "keeps_writes m \<Longrightarrow> keeps_writes (map_errE f m)"
  unfolding keeps_writes_def map_errE_def by (auto split: prod.split_asm)

lemma keeps_writes_if:
  "(b \<Longrightarrow> keeps_writes m) \<Longrightarrow> (\<not> b \<Longrightarrow> keeps_writes n) \<Longrightarrow> keeps_writes (if b then m else n)"
  by simp

lemmas keeps_writes_rules = keeps_writes_bindE keeps_writes_map_errE keeps_writes_if keeps_writes_calls keeps_writes_socket

end
