(* ===== verification/Env_Flags.thy ===== *)
theory Env_Flags
  imports Prelude
begin

section \<open>Command lines and environments\<close>

text \<open>
  What both executables take from the crate \<open>flags2env\<close>, whose source is not part of the repository: the
  audit of a contract file and the parsed command line, as the fields of a record that the definitions take as an
  argument. An environment is a map; the code merges its sources by extending one \<open>BTreeMap\<close>.
\<close>

type_synonym env_values = "string \<rightharpoonup> string"
type_synonym bindings = "(string \<times> string) list"

text \<open>\<open>BundledFlags2Env\<close>: whether the contract file passes its audit, and the parsed arguments.\<close>

record parsed_flags =
  pf_command :: string
  pf_errors :: "string list"
  pf_unknown_options :: "string list"
  pf_extras :: "string list"
  pf_flags :: bindings
  pf_dotenv :: bindings
  pf_dotenv_overrides :: bindings
  pf_provided_flags :: bindings

record flags2env =
  audit_config :: "string \<Rightarrow> bool"
  parse_structured :: "string list \<Rightarrow> string \<Rightarrow> parsed_flags option"

text \<open>Collecting pairs into a \<open>BTreeMap\<close>: a later pair replaces an earlier one.\<close>

definition collect_map :: "bindings \<Rightarrow> env_values" where
  "collect_map bs = map_of (rev bs)"

end
