(* ===== verification/Agent_Config.thy ===== *)
theory Agent_Config
  imports Host_World Env_Flags
begin

section \<open>Configuration of the lifecycle agent\<close>

text \<open>
  The errors of \<open>src/src/process_lifecycle_runtime.rs\<close> and the configuration of
  \<open>src/src/process_lifecycle_runtime/config.rs\<close>. The values are a map from variable names; the order of the
  source's \<open>BTreeMap\<close> plays no role here. The target system is the parameter \<open>target_linux\<close>.
\<close>

datatype LifecycleRuntimeError =
    InvalidCliConfiguration | InvalidArguments | InvalidProduct | InvalidIdentity | InvalidPath
  | InvalidProductSocket | InvalidHostControlSocket | InvalidReconcileSeconds | InvalidBoolean
  | InvalidConfigVersion | UnsupportedLeaseBackend | UnsupportedLeaseProvider | InvalidLeaseEndpoint
  | InvalidCredentialName | InvalidEffectsMode | MissingLeaseAuthority | UnsupportedHost | MissingCgroupV2
  | MissingHostDirectory | SymlinkHostDirectory | ProductControlUnavailable | ControlResponseTooLarge
  | InvalidControlResponse | InvalidControlRequest | ProductDrainTimeout | ProductDemandReturned
  | ProductLifecycleBusy | HostControlUnavailable | HostControlResponseTooLarge | InvalidHostControlResponse
  | InvalidHostControlRequest | HostIdentityMismatch | HostDemandChanged | MutationRuntimeNotEnabled

fun message :: "LifecycleRuntimeError \<Rightarrow> string" where
  "message InvalidCliConfiguration = ''lifecycle CLI contract is invalid''"
| "message InvalidArguments = ''lifecycle CLI arguments are invalid''"
| "message InvalidProduct = ''unsupported lifecycle product adapter''"
| "message InvalidIdentity = ''invalid lifecycle deployment identity''"
| "message InvalidPath = ''invalid lifecycle authority path''"
| "message InvalidProductSocket = ''product socket does not match the product contract''"
| "message InvalidHostControlSocket = ''host-control socket does not match the product contract''"
| "message InvalidReconcileSeconds = ''invalid lifecycle reconciliation cadence''"
| "message InvalidBoolean = ''invalid lifecycle boolean value''"
| "message InvalidConfigVersion = ''unsupported lifecycle configuration contract version''"
| "message UnsupportedLeaseBackend = ''unsupported v1 lifecycle lease backend''"
| "message UnsupportedLeaseProvider = ''unsupported lifecycle lease provider''"
| "message InvalidLeaseEndpoint = ''invalid lifecycle lease authority endpoint''"
| "message InvalidCredentialName = ''invalid lifecycle systemd credential name''"
| "message InvalidEffectsMode = ''unsupported lifecycle effects mode''"
| "message MissingLeaseAuthority = ''active lifecycle effects require a lease endpoint and credential name''"
| "message UnsupportedHost = ''process lifecycle agent requires Linux''"
| "message MissingCgroupV2 = ''cgroup v2 is unavailable''"
| "message MissingHostDirectory = ''required lifecycle host directory is missing''"
| "message SymlinkHostDirectory = ''lifecycle host directory must not be a symlink''"
| "message ProductControlUnavailable = ''product lifecycle control is unavailable''"
| "message ControlResponseTooLarge = ''product lifecycle response exceeded its bound''"
| "message InvalidControlResponse = ''product lifecycle response is invalid''"
| "message InvalidControlRequest = ''product lifecycle request is invalid''"
| "message ProductDrainTimeout = ''product runtime drain timed out''"
| "message ProductDemandReturned = ''product runtime observed returned demand''"
| "message ProductLifecycleBusy = ''product lifecycle control is busy''"
| "message HostControlUnavailable = ''trusted host lifecycle control is unavailable''"
| "message HostControlResponseTooLarge = ''trusted host lifecycle response exceeded its bound''"
| "message InvalidHostControlResponse = ''trusted host lifecycle response is invalid''"
| "message InvalidHostControlRequest = ''trusted host lifecycle request is invalid''"
| "message HostIdentityMismatch = ''trusted host lifecycle identity is stale or mismatched''"
| "message HostDemandChanged = ''trusted host lifecycle demand changed during transition''"
| "message MutationRuntimeNotEnabled =
     ''lifecycle effects require durable store, lease transport, attestation, and recovery wiring''"

type_synonym ('x, 'a) agent = "('x host_scheme, LifecycleRuntimeError, 'a) eff"

subsection \<open>Data\<close>

definition MIN_RECONCILE_SECONDS :: u64 where
  "MIN_RECONCILE_SECONDS = 1"

definition MAX_RECONCILE_SECONDS :: u64 where
  "MAX_RECONCILE_SECONDS = 3600"

definition DEFAULT_CONFIG_VERSION :: string where
  "DEFAULT_CONFIG_VERSION = ''v1''"

datatype LifecycleConfigVersion = V1 | V2
datatype LifecycleEffectsMode = ObserveOnly | FreezeThaw
datatype LifecycleLeaseProvider = CloudflareDurableObject
datatype LifecycleProduct = BeamScale | ScintillaRun

fun product_as_str :: "LifecycleProduct \<Rightarrow> string" where
  "product_as_str BeamScale = ''beamscale''"
| "product_as_str ScintillaRun = ''scintilla-run''"

fun required_socket :: "LifecycleProduct \<Rightarrow> string" where
  "required_socket BeamScale = ''/run/beamscale-lifecycle/product/control.sock''"
| "required_socket ScintillaRun = ''/run/scintilla-lifecycle/product/control.sock''"

fun required_host_control_socket :: "LifecycleProduct \<Rightarrow> string" where
  "required_host_control_socket BeamScale = ''/run/beamscale-lifecycle/host/control.sock''"
| "required_host_control_socket ScintillaRun = ''/run/scintilla-lifecycle/host/control.sock''"

fun lifecycle_lease_key_prefix :: "LifecycleProduct \<Rightarrow> string" where
  "lifecycle_lease_key_prefix BeamScale = ''beamscale/runtime-lifecycle''"
| "lifecycle_lease_key_prefix ScintillaRun = ''scintilla-run/runtime-lifecycle''"

record LifecycleAgentConfig =
  config_version :: LifecycleConfigVersion
  product :: LifecycleProduct
  cluster :: string
  environment :: "string option"
  region :: "string option"
  node_name :: string
  state_root :: string
  checkpoint_root :: string
  cgroup_root :: string
  product_socket :: string
  host_control_socket :: string
  reconcile_seconds :: u64
  lease_provider :: LifecycleLeaseProvider
  lease_endpoint :: "string option"
  credential_name :: "string option"
  effects_mode :: LifecycleEffectsMode
  hibernate_enabled :: bool
  effects_enabled :: bool

definition lease_key_prefix :: "LifecycleAgentConfig \<Rightarrow> string" where
  "lease_key_prefix c = lifecycle_lease_key_prefix (product c)"

subsection \<open>Values\<close>

definition optional_value :: "env_values \<Rightarrow> string \<Rightarrow> string option" where
  "optional_value vs key =
     (case vs key of None \<Rightarrow> None | Some v \<Rightarrow> if trim v = [] then None else Some (trim v))"

definition required_value :: "env_values \<Rightarrow> string \<Rightarrow> LifecycleRuntimeError + string" where
  "required_value vs key = ok_or InvalidArguments (optional_value vs key)"

definition reject_nonempty_legacy_value :: "env_values \<Rightarrow> string \<Rightarrow> LifecycleRuntimeError + unit" where
  "reject_nonempty_legacy_value vs key =
     (if optional_value vs key \<noteq> None then Err InvalidArguments else Ok ())"

definition parse_bool :: "string \<Rightarrow> LifecycleRuntimeError + bool" where
  "parse_bool v = (if v = ''true'' then Ok True else if v = ''false'' then Ok False else Err InvalidBoolean)"

text \<open>\<open>Option::map(f).transpose()\<close>\<close>

definition transpose_opt :: "('a \<Rightarrow> 'e + 'b) \<Rightarrow> 'a option \<Rightarrow> 'e + 'b option" where
  "transpose_opt f v = (case v of None \<Rightarrow> Ok None | Some a \<Rightarrow> bindR (f a) (\<lambda>b. Ok (Some b)))"

definition optional_bool :: "env_values \<Rightarrow> string \<Rightarrow> LifecycleRuntimeError + bool option" where
  "optional_bool vs key = transpose_opt parse_bool (optional_value vs key)"

definition effects_mode_from_bool :: "bool \<Rightarrow> LifecycleEffectsMode" where
  "effects_mode_from_bool enabled = (if enabled then FreezeThaw else ObserveOnly)"

definition parse_config_version :: "string \<Rightarrow> LifecycleRuntimeError + LifecycleConfigVersion" where
  "parse_config_version v = (if v = ''v1'' then Ok V1 else if v = ''v2'' then Ok V2 else Err InvalidConfigVersion)"

definition parse_product :: "string \<Rightarrow> LifecycleRuntimeError + LifecycleProduct" where
  "parse_product v =
     (if v = ''beamscale'' then Ok BeamScale
      else if v = ''scintilla-run'' then Ok ScintillaRun
      else Err InvalidProduct)"

definition parse_lease_provider :: "string \<Rightarrow> LifecycleRuntimeError + LifecycleLeaseProvider" where
  "parse_lease_provider v =
     (if v = ''cloudflare-do'' then Ok CloudflareDurableObject else Err UnsupportedLeaseProvider)"

definition parse_effects_mode :: "string \<Rightarrow> LifecycleRuntimeError + LifecycleEffectsMode" where
  "parse_effects_mode v =
     (if v = ''observe'' then Ok ObserveOnly
      else if v = ''freeze_thaw'' then Ok FreezeThaw
      else Err InvalidEffectsMode)"

definition identity_char :: "char \<Rightarrow> bool" where
  "identity_char c \<longleftrightarrow> is_ascii_alphanumeric c \<or> c \<in> {CHR ''-'', CHR ''_'', CHR ''.'', CHR '':''}"

definition identity_segment :: "string \<Rightarrow> bool" where
  "identity_segment v \<longleftrightarrow> v \<noteq> [] \<and> length v \<le> 96 \<and> list_all identity_char v"

definition validate_identity_segment :: "string \<Rightarrow> LifecycleRuntimeError + unit" where
  "validate_identity_segment v = (if \<not> identity_segment v then Err InvalidIdentity else Ok ())"

definition validate_credential_name :: "string \<Rightarrow> LifecycleRuntimeError + string" where
  "validate_credential_name v =
     (if \<not> (length v \<le> 128
            \<and> list_all (\<lambda>c. is_ascii_alphanumeric c \<or> c \<in> {CHR ''-'', CHR ''_'', CHR ''.''}) v)
         \<or> v = ''.'' \<or> v = ''..''
      then Err InvalidCredentialName else Ok v)"

definition validate_lease_endpoint :: "string \<Rightarrow> LifecycleRuntimeError + string" where
  "validate_lease_endpoint v =
     bindR (ok_or InvalidLeaseEndpoint (strip_prefix ''https://'' v)) (\<lambda>remainder.
     if \<not> (remainder \<noteq> [] \<and> \<not> starts_with ''/'' remainder \<and> \<not> list_ex is_ascii_whitespace v
            \<and> CHR ''@'' \<notin> set remainder \<and> CHR ''?'' \<notin> set remainder \<and> CHR ''#'' \<notin> set remainder)
     then Err InvalidLeaseEndpoint
     else Ok (trim_end_matches ((=) (CHR ''/'')) v))"

subsection \<open>Paths\<close>

definition validate_absolute_no_traversal :: "string \<Rightarrow> LifecycleRuntimeError + unit" where
  "validate_absolute_no_traversal p =
     (if \<not> is_absolute p then Err InvalidPath else if has_traversal p then Err InvalidPath else Ok ())"

definition parse_authority_path :: "string \<Rightarrow> LifecycleRuntimeError + string" where
  "parse_authority_path v =
     bindR (validate_absolute_no_traversal v) (\<lambda>_.
     if path_eq v ''/'' \<or> path_eq v ''/var'' \<or> path_eq v ''/var/lib'' then Err InvalidPath else Ok v)"

definition parse_cgroup_root :: "string \<Rightarrow> LifecycleRuntimeError + string" where
  "parse_cgroup_root v =
     bindR (validate_absolute_no_traversal v) (\<lambda>_.
     if path_eq v ''/sys/fs/cgroup'' \<or> \<not> path_starts_with ''/sys/fs/cgroup'' v then Err InvalidPath else Ok v)"

definition parse_product_socket :: "LifecycleProduct \<Rightarrow> string \<Rightarrow> LifecycleRuntimeError + string" where
  "parse_product_socket p v =
     (if v \<noteq> required_socket p then Err InvalidProductSocket
      else bindR (validate_absolute_no_traversal v) (\<lambda>_. Ok v))"

definition parse_host_control_socket :: "LifecycleProduct \<Rightarrow> string \<Rightarrow> LifecycleRuntimeError + string" where
  "parse_host_control_socket p v =
     (if v \<noteq> required_host_control_socket p then Err InvalidHostControlSocket
      else bindR (validate_absolute_no_traversal v) (\<lambda>_. Ok v))"

definition validate_socket_trust_split :: "string \<Rightarrow> string \<Rightarrow> LifecycleRuntimeError + unit" where
  "validate_socket_trust_split ps hs =
     (if path_eq ps hs then Err InvalidPath
      else
        bindR (ok_or InvalidPath (path_parent ps)) (\<lambda>pp.
        bindR (ok_or InvalidPath (path_parent hs)) (\<lambda>hp.
        if path_eq pp hp \<or> path_starts_with hp pp \<or> path_starts_with pp hp then Err InvalidPath else Ok ())))"

definition validate_existing_directory :: "string \<Rightarrow> ('x, unit) agent" where
  "validate_existing_directory p =
     bindE (map_errE (\<lambda>_. MissingHostDirectory) (lstat p)) (\<lambda>m.
     if m = SymlinkNode then throwE SymlinkHostDirectory
     else if m \<noteq> DirNode then throwE MissingHostDirectory
     else returnE ())"

subsection \<open>Building the configuration\<close>

record CommonConfig =
  cc_product :: LifecycleProduct
  cc_cluster :: string
  cc_node :: string
  cc_state_root :: string
  cc_cgroup_root :: string
  cc_reconcile_seconds :: u64

definition CommonConfig_from_values :: "env_values \<Rightarrow> LifecycleRuntimeError + CommonConfig" where
  "CommonConfig_from_values vs =
     bindR (bindR (required_value vs ''ORES_PROCESS_LIFECYCLE_PRODUCT'') parse_product) (\<lambda>prod.
     bindR (required_value vs ''ORES_PROCESS_LIFECYCLE_CLUSTER'') (\<lambda>clust.
     bindR (required_value vs ''ORES_PROCESS_LIFECYCLE_NODE'') (\<lambda>nd.
     bindR (validate_identity_segment clust) (\<lambda>_.
     bindR (validate_identity_segment nd) (\<lambda>_.
     bindR (bindR (required_value vs ''ORES_PROCESS_LIFECYCLE_STATE_ROOT'') parse_authority_path) (\<lambda>sroot.
     bindR (bindR (required_value vs ''ORES_PROCESS_LIFECYCLE_CGROUP_ROOT'') parse_cgroup_root) (\<lambda>croot.
     bindR (bindR (required_value vs ''ORES_PROCESS_LIFECYCLE_RECONCILE_SECONDS'')
              (\<lambda>v. ok_or InvalidReconcileSeconds (parse_u64 v))) (\<lambda>secs.
     if \<not> (MIN_RECONCILE_SECONDS \<le> secs \<and> secs \<le> MAX_RECONCILE_SECONDS) then Err InvalidReconcileSeconds
     else Ok \<lparr>cc_product = prod, cc_cluster = clust, cc_node = nd, cc_state_root = sroot,
              cc_cgroup_root = croot, cc_reconcile_seconds = secs\<rparr>))))))))"

definition parse_v2_deployment_identity :: "env_values \<Rightarrow> LifecycleRuntimeError + string \<times> string" where
  "parse_v2_deployment_identity vs =
     bindR (required_value vs ''ORES_PROCESS_LIFECYCLE_ENVIRONMENT'') (\<lambda>env.
     bindR (required_value vs ''ORES_PROCESS_LIFECYCLE_REGION'') (\<lambda>reg.
     bindR (validate_identity_segment env) (\<lambda>_.
     bindR (validate_identity_segment reg) (\<lambda>_. Ok (env, reg)))))"

definition parse_v2_lease_authority ::
  "env_values \<Rightarrow> LifecycleRuntimeError + LifecycleLeaseProvider \<times> LifecycleEffectsMode \<times> string option \<times> string option" where
  "parse_v2_lease_authority vs =
     bindR (bindR (required_value vs ''ORES_PROCESS_LIFECYCLE_LEASE_PROVIDER'') parse_lease_provider) (\<lambda>provider.
     bindR (bindR (required_value vs ''ORES_PROCESS_LIFECYCLE_EFFECTS'') parse_effects_mode) (\<lambda>mode.
     bindR (transpose_opt validate_lease_endpoint
              (optional_value vs ''ORES_PROCESS_LIFECYCLE_LEASE_ENDPOINT'')) (\<lambda>endpoint.
     bindR (transpose_opt validate_credential_name
              (optional_value vs ''ORES_PROCESS_LIFECYCLE_CREDENTIAL_NAME'')) (\<lambda>credential.
     if mode = FreezeThaw \<and> (endpoint = None \<or> credential = None) then Err MissingLeaseAuthority
     else Ok (provider, mode, endpoint, credential)))))"

definition reject_v2_legacy_mutation_switches :: "env_values \<Rightarrow> LifecycleRuntimeError + unit" where
  "reject_v2_legacy_mutation_switches vs =
     bindR (optional_bool vs ''ORES_PROCESS_LIFECYCLE_HIBERNATE_ENABLED'') (\<lambda>h.
     if h = Some True then Err InvalidArguments
     else
       bindR (optional_bool vs ''ORES_PROCESS_LIFECYCLE_EFFECTS_ENABLED'') (\<lambda>e.
       if e = Some True then Err InvalidArguments else Ok ()))"

definition from_v1 :: "env_values \<Rightarrow> LifecycleRuntimeError + LifecycleAgentConfig" where
  "from_v1 vs =
     bindR (CommonConfig_from_values vs) (\<lambda>common.
     bindR (bindR (required_value vs ''ORES_PROCESS_LIFECYCLE_CHECKPOINT_ROOT'') parse_authority_path) (\<lambda>ckroot.
     bindR (bindR (required_value vs ''ORES_PROCESS_LIFECYCLE_PRODUCT_SOCKET'')
              (parse_product_socket (cc_product common))) (\<lambda>ps.
     bindR (bindR (required_value vs ''ORES_PROCESS_LIFECYCLE_HOST_CONTROL_SOCKET'')
              (parse_host_control_socket (cc_product common))) (\<lambda>hs.
     bindR (validate_socket_trust_split ps hs) (\<lambda>_.
     if path_eq (cc_state_root common) ckroot then Err InvalidPath
     else
       bindR (required_value vs ''ORES_PROCESS_LIFECYCLE_LEASE_BACKEND'') (\<lambda>backend.
       if backend \<noteq> ''cloudflare-do'' then Err UnsupportedLeaseBackend
       else
         bindR (bindR (required_value vs ''ORES_PROCESS_LIFECYCLE_HIBERNATE_ENABLED'') parse_bool) (\<lambda>hib.
         bindR (bindR (required_value vs ''ORES_PROCESS_LIFECYCLE_EFFECTS_ENABLED'') parse_bool) (\<lambda>eff.
         Ok \<lparr>config_version = V1, product = cc_product common, cluster = cc_cluster common,
             environment = None, region = None, node_name = cc_node common,
             state_root = cc_state_root common, checkpoint_root = ckroot,
             cgroup_root = cc_cgroup_root common, product_socket = ps, host_control_socket = hs,
             reconcile_seconds = cc_reconcile_seconds common,
             lease_provider = CloudflareDurableObject, lease_endpoint = None, credential_name = None,
             effects_mode = effects_mode_from_bool eff, hibernate_enabled = hib,
             effects_enabled = eff\<rparr>))))))))"

definition from_v2 :: "env_values \<Rightarrow> LifecycleRuntimeError + LifecycleAgentConfig" where
  "from_v2 vs =
     bindR (CommonConfig_from_values vs) (\<lambda>common.
     bindR (parse_v2_deployment_identity vs) (\<lambda>(env, reg).
     bindR (reject_nonempty_legacy_value vs ''ORES_PROCESS_LIFECYCLE_PRODUCT_SOCKET'') (\<lambda>_.
     bindR (reject_nonempty_legacy_value vs ''ORES_PROCESS_LIFECYCLE_HOST_CONTROL_SOCKET'') (\<lambda>_.
     bindR (reject_v2_legacy_mutation_switches vs) (\<lambda>_.
     bindR (parse_v2_lease_authority vs) (\<lambda>(provider, mode, endpoint, credential).
     (let ps = required_socket (cc_product common); hs = required_host_control_socket (cc_product common) in
      bindR (validate_socket_trust_split ps hs) (\<lambda>_.
      Ok \<lparr>config_version = V2, product = cc_product common, cluster = cc_cluster common,
          environment = Some env, region = Some reg, node_name = cc_node common,
          state_root = cc_state_root common,
          checkpoint_root = path_join (cc_state_root common) ''checkpoints-disabled'',
          cgroup_root = cc_cgroup_root common, product_socket = ps, host_control_socket = hs,
          reconcile_seconds = cc_reconcile_seconds common,
          lease_provider = provider, lease_endpoint = endpoint, credential_name = credential,
          effects_mode = mode, hibernate_enabled = False,
          effects_enabled = (mode = FreezeThaw)\<rparr>))))))))"

definition from_values :: "env_values \<Rightarrow> LifecycleRuntimeError + LifecycleAgentConfig" where
  "from_values vs =
     bindR (parse_config_version
       (case optional_value vs ''ORES_PROCESS_LIFECYCLE_CONFIG_VERSION'' of
          None \<Rightarrow> DEFAULT_CONFIG_VERSION | Some v \<Rightarrow> v)) (\<lambda>version.
     case version of V1 \<Rightarrow> from_v1 vs | V2 \<Rightarrow> from_v2 vs)"

text \<open>\<open>Path::is_file\<close> of a kernel file, which is no symbolic link.\<close>

definition is_file :: "string \<Rightarrow> ('x, bool) agent" where
  "is_file p w =
     (case lstat p w of (r, w') \<Rightarrow> (Ok (case r of Ok (FileNode _ _) \<Rightarrow> True | _ \<Rightarrow> False), w'))"

definition preflight_socket :: "string \<Rightarrow> ('x, unit) agent" where
  "preflight_socket s =
     bindE (liftE (ok_or InvalidPath (path_parent s))) (\<lambda>parent. validate_existing_directory parent)"

definition preflight_host :: "bool \<Rightarrow> LifecycleAgentConfig \<Rightarrow> ('x, unit) agent" where
  "preflight_host target_linux c =
     (if \<not> target_linux then throwE UnsupportedHost
      else
        bindE (is_file ''/sys/fs/cgroup/cgroup.controllers'') (\<lambda>v2.
        if \<not> v2 then throwE MissingCgroupV2
        else
          bindE (validate_existing_directory (state_root c)) (\<lambda>_.
          bindE (validate_existing_directory (cgroup_root c)) (\<lambda>_.
          bindE (if config_version c = V1 \<or> hibernate_enabled c
                 then validate_existing_directory (checkpoint_root c) else returnE ()) (\<lambda>_.
          bindE (liftE (validate_socket_trust_split (product_socket c) (host_control_socket c))) (\<lambda>_.
          bindE (preflight_socket (product_socket c)) (\<lambda>_.
          preflight_socket (host_control_socket c))))))))"

subsection \<open>What an accepted configuration guarantees\<close>

definition authority_path :: "string \<Rightarrow> bool" where
  "authority_path p \<longleftrightarrow> is_absolute p \<and> \<not> has_traversal p \<and> components p \<noteq> [RootDir]
     \<and> components p \<noteq> [RootDir, Normal ''var''] \<and> components p \<noteq> [RootDir, Normal ''var'', Normal ''lib'']"

definition below_cgroup_mount :: "string \<Rightarrow> bool" where
  "below_cgroup_mount p \<longleftrightarrow>
     (\<exists>rest. rest \<noteq> [] \<and> ParentDir \<notin> set rest
        \<and> components p = [RootDir, Normal ''sys'', Normal ''fs'', Normal ''cgroup''] @ rest)"

definition https_endpoint :: "string \<Rightarrow> bool" where
  "https_endpoint v \<longleftrightarrow> (\<exists>host. v = ''https://'' @ host \<and> host \<noteq> [] \<and> \<not> ends_with ''/'' v
     \<and> (\<forall>c\<in>set host. c \<notin> {CHR ''@'', CHR ''?'', CHR ''#''} \<and> \<not> is_ascii_whitespace c))"

text \<open>Neither of two sockets lies in a directory of the other.\<close>

definition separate_directories :: "string \<Rightarrow> string \<Rightarrow> bool" where
  "separate_directories s t \<longleftrightarrow>
     (\<exists>p q. path_parent s = Some p \<and> path_parent t = Some q
        \<and> \<not> path_starts_with p q \<and> \<not> path_starts_with q p)"

definition credential_file_name :: "string \<Rightarrow> bool" where
  "credential_file_name v \<longleftrightarrow> length v \<le> 128 \<and> plain_name v"

definition well_formed_common :: "LifecycleAgentConfig \<Rightarrow> bool" where
  "well_formed_common c \<longleftrightarrow>
     identity_segment (cluster c) \<and> identity_segment (node_name c)
     \<and> authority_path (state_root c) \<and> below_cgroup_mount (cgroup_root c)
     \<and> 1 \<le> reconcile_seconds c \<and> reconcile_seconds c \<le> 3600
     \<and> product_socket c = required_socket (product c)
     \<and> host_control_socket c = required_host_control_socket (product c)
     \<and> separate_directories (product_socket c) (host_control_socket c)
     \<and> (effects_enabled c \<longleftrightarrow> effects_mode c = FreezeThaw)"

definition well_formed_v1 :: "LifecycleAgentConfig \<Rightarrow> bool" where
  "well_formed_v1 c \<longleftrightarrow>
     environment c = None \<and> region c = None \<and> lease_endpoint c = None \<and> credential_name c = None
     \<and> authority_path (checkpoint_root c) \<and> components (checkpoint_root c) \<noteq> components (state_root c)"

definition well_formed_v2 :: "LifecycleAgentConfig \<Rightarrow> bool" where
  "well_formed_v2 c \<longleftrightarrow>
     (\<exists>e. environment c = Some e \<and> identity_segment e) \<and> (\<exists>r. region c = Some r \<and> identity_segment r)
     \<and> \<not> hibernate_enabled c
     \<and> components (checkpoint_root c) = components (state_root c) @ [Normal ''checkpoints-disabled'']
     \<and> pred_option https_endpoint (lease_endpoint c)
     \<and> pred_option credential_file_name (credential_name c)
     \<and> (effects_enabled c \<longrightarrow> lease_endpoint c \<noteq> None \<and> credential_name c \<noteq> None)"

definition well_formed_config :: "LifecycleAgentConfig \<Rightarrow> bool" where
  "well_formed_config c \<longleftrightarrow> well_formed_common c
     \<and> (case config_version c of V1 \<Rightarrow> well_formed_v1 c | V2 \<Rightarrow> well_formed_v2 c)"

lemma validate_absolute_no_traversal_Ok [simp]:
  "validate_absolute_no_traversal p = Ok u \<longleftrightarrow> is_absolute p \<and> \<not> has_traversal p"
  by (auto simp: validate_absolute_no_traversal_def)

lemma validate_identity_segment_Ok [simp]: "validate_identity_segment v = Ok u \<longleftrightarrow> identity_segment v"
  by (simp add: validate_identity_segment_def)

lemma components_of_roots:
  "components ''/'' = [RootDir]"
  "components ''/var'' = [RootDir, Normal ''var'']"
  "components ''/var/lib'' = [RootDir, Normal ''var'', Normal ''lib'']"
  "components ''/sys/fs/cgroup'' = [RootDir, Normal ''sys'', Normal ''fs'', Normal ''cgroup'']"
  by (simp_all add: components_def is_absolute_def starts_with_def Let_def)

lemma parse_authority_path_Ok: "parse_authority_path v = Ok p \<longleftrightarrow> p = v \<and> authority_path v"
  by (auto simp: parse_authority_path_def bindR_Ok_iff authority_path_def path_eq_def components_of_roots)

lemma parse_cgroup_root_Ok:
  assumes "parse_cgroup_root v = Ok p"
  shows "p = v \<and> below_cgroup_mount p"
proof -
  from assms have v: "p = v" "\<not> has_traversal v" "path_starts_with ''/sys/fs/cgroup'' v"
      "\<not> path_eq v ''/sys/fs/cgroup''"
    by (auto simp: parse_cgroup_root_def bindR_Ok_iff split: if_splits)
  then obtain r where r: "components v = components ''/sys/fs/cgroup'' @ r"
    by (auto simp: path_starts_with_iff)
  moreover have "r \<noteq> []"
    using r v(4) by (auto simp: path_eq_def)
  moreover have "ParentDir \<notin> set r"
    using r v(2) by (auto simp: has_traversal_def list_ex_iff)
  ultimately show ?thesis
    using v(1) by (auto simp: below_cgroup_mount_def components_of_roots)
qed

lemma validate_socket_trust_split_Ok:
  "validate_socket_trust_split s t = Ok u \<Longrightarrow> separate_directories s t"
  by (auto simp: validate_socket_trust_split_def bindR_Ok_iff separate_directories_def split: if_splits)

lemma parse_sockets_Ok:
  "parse_product_socket p v = Ok s \<Longrightarrow> s = required_socket p"
  "parse_host_control_socket p v = Ok s \<Longrightarrow> s = required_host_control_socket p"
  by (auto simp: parse_product_socket_def parse_host_control_socket_def bindR_Ok_iff split: if_splits)

lemma trim_end_matches_keeps:
  assumes "\<not> P x"
  shows "\<exists>b'. trim_end_matches P (a @ x # b) = a @ x # b' \<and> set b' \<subseteq> set b"
proof -
  have "dropWhile P (rev b @ x # rev a) = dropWhile P (rev b) @ x # rev a"
    using assms by (metis dropWhile.simps(2) dropWhile_append dropWhile_append1 dropWhile_eq_Nil_conv append_Nil)
  then have "trim_end_matches P (a @ x # b) = a @ x # rev (dropWhile P (rev b))"
    by (simp add: trim_end_matches_def)
  moreover have "set (rev (dropWhile P (rev b))) \<subseteq> set b"
    using set_dropWhileD by fastforce
  ultimately show ?thesis by blast
qed

lemma trim_end_matches_last: "trim_end_matches P v \<noteq> [] \<Longrightarrow> \<not> P (last (trim_end_matches P v))"
  by (simp add: trim_end_matches_def last_rev hd_dropWhile)

lemma validate_lease_endpoint_Ok:
  assumes "validate_lease_endpoint v = Ok e"
  shows "https_endpoint e"
proof -
  from assms obtain r where r: "v = ''https://'' @ r" "r \<noteq> []" "\<not> starts_with ''/'' r"
      "\<forall>c\<in>set r. c \<notin> {CHR ''@'', CHR ''?'', CHR ''#''} \<and> \<not> is_ascii_whitespace c"
    and e: "e = trim_end_matches ((=) (CHR ''/'')) v"
    by (auto simp: validate_lease_endpoint_def bindR_Ok_iff strip_prefix_Some_iff list_ex_iff split: if_splits)
  obtain x xs where x: "r = x # xs" "x \<noteq> CHR ''/''"
    using r(2,3) by (cases r) (auto simp: starts_with_def)
  obtain b where b: "e = ''https://'' @ x # b" "set b \<subseteq> set xs"
    using trim_end_matches_keeps [of "(=) (CHR ''/'')" x "''https://''" xs] e r(1) x by auto
  have "\<not> ends_with ''/'' e"
    using trim_end_matches_last [of "(=) (CHR ''/'')" v] e b(1) by (auto simp: ends_with_iff)
  then show ?thesis
    using b r(4) x(1) unfolding https_endpoint_def by fastforce
qed

lemma validate_credential_name_Ok:
  assumes "validate_credential_name v = Ok n" and "v \<noteq> []"
  shows "credential_file_name n"
proof -
  have "\<not> is_ascii_alphanumeric (CHR ''/'')"
    by code_simp
  then show ?thesis
    using assms by (auto simp: validate_credential_name_def credential_file_name_def plain_name_def
        list_all_iff split: if_splits)
qed

lemma optional_value_nonempty: "optional_value vs k = Some v \<Longrightarrow> v \<noteq> []"
  by (auto simp: optional_value_def split: option.splits if_splits)

lemma transpose_opt_Ok:
  "transpose_opt f v = Ok w \<Longrightarrow> (\<And>a b. v = Some a \<Longrightarrow> f a = Ok b \<Longrightarrow> P b) \<Longrightarrow> pred_option P w"
  by (auto simp: transpose_opt_def bindR_Ok_iff split: option.splits)

lemma CommonConfig_from_values_Ok:
  assumes "CommonConfig_from_values vs = Ok k"
  shows "identity_segment (cc_cluster k) \<and> identity_segment (cc_node k) \<and> authority_path (cc_state_root k)
    \<and> below_cgroup_mount (cc_cgroup_root k) \<and> 1 \<le> cc_reconcile_seconds k \<and> cc_reconcile_seconds k \<le> 3600"
  using assms
  by (auto simp: CommonConfig_from_values_def bindR_Ok_iff parse_authority_path_Ok MIN_RECONCILE_SECONDS_def
      MAX_RECONCILE_SECONDS_def dest!: parse_cgroup_root_Ok split: if_splits)

lemma parse_v2_lease_authority_Ok:
  assumes "parse_v2_lease_authority vs = Ok (provider, mode, endpoint, credential)"
  shows "pred_option https_endpoint endpoint \<and> pred_option credential_file_name credential
    \<and> (mode = FreezeThaw \<longrightarrow> endpoint \<noteq> None \<and> credential \<noteq> None)"
  using assms
  by (auto simp: parse_v2_lease_authority_def bindR_Ok_iff split: if_splits
      elim!: transpose_opt_Ok intro: validate_lease_endpoint_Ok validate_credential_name_Ok [OF _ optional_value_nonempty])

lemma from_v1_well_formed: "from_v1 vs = Ok c \<Longrightarrow> config_version c = V1 \<and> well_formed_common c \<and> well_formed_v1 c"
  by (auto simp: from_v1_def bindR_Ok_iff parse_authority_path_Ok well_formed_common_def well_formed_v1_def
      path_eq_def effects_mode_from_bool_def
      dest!: CommonConfig_from_values_Ok parse_sockets_Ok validate_socket_trust_split_Ok split: if_splits)

lemma from_v2_well_formed:
  assumes "from_v2 vs = Ok c"
  shows "config_version c = V2 \<and> well_formed_common c \<and> well_formed_v2 c"
proof -
  obtain common env reg provider mode endpoint credential where
      common: "CommonConfig_from_values vs = Ok common"
    and ident: "parse_v2_deployment_identity vs = Ok (env, reg)"
    and lease: "parse_v2_lease_authority vs = Ok (provider, mode, endpoint, credential)"
    and split: "separate_directories (required_socket (cc_product common)) (required_host_control_socket (cc_product common))"
    and c: "c = \<lparr>config_version = V2, product = cc_product common, cluster = cc_cluster common,
          environment = Some env, region = Some reg, node_name = cc_node common,
          state_root = cc_state_root common,
          checkpoint_root = path_join (cc_state_root common) ''checkpoints-disabled'',
          cgroup_root = cc_cgroup_root common, product_socket = required_socket (cc_product common),
          host_control_socket = required_host_control_socket (cc_product common),
          reconcile_seconds = cc_reconcile_seconds common,
          lease_provider = provider, lease_endpoint = endpoint, credential_name = credential,
          effects_mode = mode, hibernate_enabled = False,
          effects_enabled = (mode = FreezeThaw)\<rparr>"
    using assms by (auto simp: from_v2_def bindR_Ok_iff Let_def dest!: validate_socket_trust_split_Ok)
  have "identity_segment env" "identity_segment reg"
    using ident by (auto simp: parse_v2_deployment_identity_def bindR_Ok_iff)
  moreover have "components (path_join (cc_state_root common) ''checkpoints-disabled'')
      = components (cc_state_root common) @ [Normal ''checkpoints-disabled'']"
    using CommonConfig_from_values_Ok [OF common]
    by (intro components_join_plain) (auto simp: plain_name_def authority_path_def is_absolute_def starts_with_def)
  ultimately show ?thesis
    using CommonConfig_from_values_Ok [OF common] parse_v2_lease_authority_Ok [OF lease] split c
    by (simp add: well_formed_common_def well_formed_v2_def)
qed

lemma from_values_well_formed:
  assumes "from_values vs = Ok c"
  shows "well_formed_config c"
proof -
  obtain ver where "(case ver of V1 \<Rightarrow> from_v1 vs | V2 \<Rightarrow> from_v2 vs) = Ok c"
    using assms by (auto simp: from_values_def bindR_Ok_iff)
  then show ?thesis
    using from_v1_well_formed from_v2_well_formed
    by (auto simp: well_formed_config_def split: LifecycleConfigVersion.splits)
qed

text \<open>
  A configuration that is accepted, from whatever values, is well formed. Its deployment names are
  identity segments; the state root is absolute, has no parent component and is none of /, /var and
  /var/lib; the cgroup root lies strictly below /sys/fs/cgroup; reconciliation runs every 1 to 3600
  seconds; the two control sockets are exactly those of the product and neither lies in the directory of
  the other. A version 2 configuration never enables hibernation, and enables effects only together with
  an https endpoint and a credential name that is a plain file name.
\<close>

theorem accepted_config_is_well_formed:
  assumes "from_values vs = Ok c"
  shows "well_formed_config c"
  using assms by (rule from_values_well_formed)

definition sample_bindings :: "(string \<times> string) list" where
  "sample_bindings =
     [(''ORES_PROCESS_LIFECYCLE_CONFIG_VERSION'', ''v2''),
      (''ORES_PROCESS_LIFECYCLE_PRODUCT'', ''beamscale''),
      (''ORES_PROCESS_LIFECYCLE_CLUSTER'', ''edge-1''),
      (''ORES_PROCESS_LIFECYCLE_NODE'', ''node-7''),
      (''ORES_PROCESS_LIFECYCLE_ENVIRONMENT'', ''prod''),
      (''ORES_PROCESS_LIFECYCLE_REGION'', ''eu''),
      (''ORES_PROCESS_LIFECYCLE_STATE_ROOT'', ''/var/lib/ores''),
      (''ORES_PROCESS_LIFECYCLE_CGROUP_ROOT'', ''/sys/fs/cgroup/ores''),
      (''ORES_PROCESS_LIFECYCLE_RECONCILE_SECONDS'', ''30''),
      (''ORES_PROCESS_LIFECYCLE_LEASE_PROVIDER'', ''cloudflare-do''),
      (''ORES_PROCESS_LIFECYCLE_EFFECTS'', ''freeze_thaw''),
      (''ORES_PROCESS_LIFECYCLE_LEASE_ENDPOINT'', ''https://lease.example/''),
      (''ORES_PROCESS_LIFECYCLE_CREDENTIAL_NAME'', ''lease-token'')]"

definition sample_values :: env_values where
  "sample_values = map_of sample_bindings"

definition sample_config :: LifecycleAgentConfig where
  "sample_config =
     \<lparr>config_version = V2, product = BeamScale, cluster = ''edge-1'', environment = Some ''prod'',
      region = Some ''eu'', node_name = ''node-7'', state_root = ''/var/lib/ores'',
      checkpoint_root = ''/var/lib/ores/checkpoints-disabled'', cgroup_root = ''/sys/fs/cgroup/ores'',
      product_socket = ''/run/beamscale-lifecycle/product/control.sock'',
      host_control_socket = ''/run/beamscale-lifecycle/host/control.sock'', reconcile_seconds = 30,
      lease_provider = CloudflareDurableObject, lease_endpoint = Some ''https://lease.example'',
      credential_name = Some ''lease-token'', effects_mode = FreezeThaw, hibernate_enabled = False,
      effects_enabled = True\<rparr>"

lemma optional_value_word:
  "vs k = Some v \<Longrightarrow> v \<noteq> [] \<Longrightarrow> list_all is_ascii_graphic v \<Longrightarrow> optional_value vs k = Some v"
  by (simp add: optional_value_def trim_word)

lemma sample_optional_values:
  "optional_value sample_values ''ORES_PROCESS_LIFECYCLE_CONFIG_VERSION'' = Some ''v2''"
  "optional_value sample_values ''ORES_PROCESS_LIFECYCLE_PRODUCT'' = Some ''beamscale''"
  "optional_value sample_values ''ORES_PROCESS_LIFECYCLE_CLUSTER'' = Some ''edge-1''"
  "optional_value sample_values ''ORES_PROCESS_LIFECYCLE_NODE'' = Some ''node-7''"
  "optional_value sample_values ''ORES_PROCESS_LIFECYCLE_ENVIRONMENT'' = Some ''prod''"
  "optional_value sample_values ''ORES_PROCESS_LIFECYCLE_REGION'' = Some ''eu''"
  "optional_value sample_values ''ORES_PROCESS_LIFECYCLE_STATE_ROOT'' = Some ''/var/lib/ores''"
  "optional_value sample_values ''ORES_PROCESS_LIFECYCLE_CGROUP_ROOT'' = Some ''/sys/fs/cgroup/ores''"
  "optional_value sample_values ''ORES_PROCESS_LIFECYCLE_RECONCILE_SECONDS'' = Some ''30''"
  "optional_value sample_values ''ORES_PROCESS_LIFECYCLE_LEASE_PROVIDER'' = Some ''cloudflare-do''"
  "optional_value sample_values ''ORES_PROCESS_LIFECYCLE_EFFECTS'' = Some ''freeze_thaw''"
  "optional_value sample_values ''ORES_PROCESS_LIFECYCLE_LEASE_ENDPOINT'' = Some ''https://lease.example/''"
  "optional_value sample_values ''ORES_PROCESS_LIFECYCLE_CREDENTIAL_NAME'' = Some ''lease-token''"
  by (rule optional_value_word; code_simp)+

lemma sample_absent_values:
  "optional_value sample_values ''ORES_PROCESS_LIFECYCLE_PRODUCT_SOCKET'' = None"
  "optional_value sample_values ''ORES_PROCESS_LIFECYCLE_HOST_CONTROL_SOCKET'' = None"
  "optional_value sample_values ''ORES_PROCESS_LIFECYCLE_HIBERNATE_ENABLED'' = None"
  "optional_value sample_values ''ORES_PROCESS_LIFECYCLE_EFFECTS_ENABLED'' = None"
  by code_simp+

lemma sample_config_checks:
  "identity_segment ''edge-1''" "identity_segment ''node-7''" "identity_segment ''prod''" "identity_segment ''eu''"
  "parse_authority_path ''/var/lib/ores'' = Ok ''/var/lib/ores''"
  "parse_cgroup_root ''/sys/fs/cgroup/ores'' = Ok ''/sys/fs/cgroup/ores''"
  "validate_lease_endpoint ''https://lease.example/'' = Ok ''https://lease.example''"
  "validate_credential_name ''lease-token'' = Ok ''lease-token''"
  "path_join ''/var/lib/ores'' ''checkpoints-disabled'' = ''/var/lib/ores/checkpoints-disabled''"
  "validate_socket_trust_split (required_socket BeamScale) (required_host_control_socket BeamScale) = Ok ()"
  by code_simp+

lemma parse_u64_30: "parse_u64 ''30'' = Some 30"
  by (simp add: parse_u64_def parse_unsigned_def is_ascii_digit_def byte_in_def digits_value_def digit_value_def)

lemma sample_common:
  "CommonConfig_from_values sample_values = Ok
     \<lparr>cc_product = BeamScale, cc_cluster = ''edge-1'', cc_node = ''node-7'', cc_state_root = ''/var/lib/ores'',
      cc_cgroup_root = ''/sys/fs/cgroup/ores'', cc_reconcile_seconds = 30\<rparr>"
  by (simp add: CommonConfig_from_values_def required_value_def sample_optional_values sample_config_checks
      parse_u64_30 parse_product_def validate_identity_segment_def MIN_RECONCILE_SECONDS_def MAX_RECONCILE_SECONDS_def)

lemma sample_values_accepted: "from_values sample_values = Ok sample_config"
  using sample_config_checks(9,10)
  by (simp add: from_values_def parse_config_version_def sample_optional_values sample_absent_values
      from_v2_def sample_common parse_v2_deployment_identity_def required_value_def sample_config_checks
      validate_identity_segment_def reject_nonempty_legacy_value_def reject_v2_legacy_mutation_switches_def
      optional_bool_def transpose_opt_def parse_v2_lease_authority_def parse_lease_provider_def
      parse_effects_mode_def sample_config_def)

theorem accepted_config_is_well_formed_witness:
  "from_values sample_values = Ok sample_config \<and> well_formed_config sample_config"
  using accepted_config_is_well_formed [OF sample_values_accepted] sample_values_accepted by simp

end
