(* ===== verification/Product_Control.thy ===== *)
theory Product_Control
  imports Agent_Config Lifecycle_Agent
begin

section \<open>The cooperative product socket\<close>

text \<open>
  \<open>ProductControlClient\<close> of \<open>src/src/process_lifecycle_runtime/product_control.rs\<close> and its adapter to
  \<open>ProductLifecycleControl\<close> in \<open>src/src/adapters/process_lifecycle_product_control.rs\<close>. A request is one
  line; the answer is read in buffers of 256 bytes until the peer closes, at most 1024 bytes, and has to
  be one line too. The theorems say that the way the peer splits its answer does not matter, that the
  status answer is read back as it was printed, and what a quiesce request reports.
\<close>

definition MAX_CONTROL_RESPONSE_BYTES :: nat where
  "MAX_CONTROL_RESPONSE_BYTES = 1024"

datatype CooperativeAdmission = Accepting | Quiescing_admission | Sealed | Unavailable

record CooperativeProductStatus =
  admission :: CooperativeAdmission
  status_in_flight :: u64
  status_queue_depth :: u64
  status_idle_for_ms :: u64

record ProductControlClient =
  product_socket_path :: string

definition ProductControlClient_new :: "LifecycleAgentConfig \<Rightarrow> ProductControlClient" where
  "ProductControlClient_new c = \<lparr>product_socket_path = product_socket c\<rparr>"

subsection \<open>Reading the answer\<close>

definition product_finish_response :: "bytes \<Rightarrow> LifecycleRuntimeError + string" where
  "product_finish_response b =
     (if b = [] \<or> last b \<noteq> CHR 0x0A then Err InvalidControlResponse
      else
        (let line = butlast b in
         if line = [] \<or> CHR 0x0A \<in> set line \<or> CHR 0x0D \<in> set line then Err InvalidControlResponse
         else if \<not> valid_utf8 line then Err InvalidControlResponse
         else if trim line \<noteq> line then Err InvalidControlResponse
         else Ok line))"

function product_read_response :: "(io_kind + bytes) list \<Rightarrow> bytes \<Rightarrow> LifecycleRuntimeError + string" where
  "product_read_response cs b =
     (case stream_read 256 cs of
        (Err _, _) \<Rightarrow> Err ProductControlUnavailable
      | (Ok chunk, cs') \<Rightarrow>
          if chunk = [] then product_finish_response b
          else if length (b @ chunk) > MAX_CONTROL_RESPONSE_BYTES then Err ControlResponseTooLarge
          else product_read_response cs' (b @ chunk))"
  by pat_completeness auto
termination
proof (relation "measure (\<lambda>(cs, _). stream_bytes cs)", goal_cases)
  case (2 cs b x cs' chunk)
  then show ?case
    using stream_read_decreases [of 256 cs chunk cs'] by auto
qed simp

declare product_read_response.simps [simp del]

subsection \<open>Requests\<close>

definition product_configure_timeouts :: "unix_stream \<Rightarrow> ('x, unit) agent" where
  "product_configure_timeouts s = map_errE (\<lambda>_. ProductControlUnavailable) (set_timeouts s)"

definition product_write_request :: "unix_stream \<Rightarrow> bytes \<Rightarrow> ('x, string) agent" where
  "product_write_request s req =
     bindE (map_errE (\<lambda>_. ProductControlUnavailable) (stream_write_all s req)) (\<lambda>_.
     bindE (map_errE (\<lambda>_. ProductControlUnavailable) (shutdown_write s req)) (\<lambda>_.
     liftE (product_read_response (chunks (replies (snd s) req)) [])))"

definition product_request :: "ProductControlClient \<Rightarrow> bytes \<Rightarrow> ('x, string) agent" where
  "product_request c req =
     bindE (map_errE (\<lambda>_. ProductControlUnavailable) (unix_connect (product_socket_path c))) (\<lambda>s.
     bindE (product_configure_timeouts s) (\<lambda>_. product_write_request s req))"

definition parse_admission :: "string \<Rightarrow> LifecycleRuntimeError + CooperativeAdmission" where
  "parse_admission v =
     (if v = ''accepting'' then Ok Accepting
      else if v = ''quiescing'' then Ok Quiescing_admission
      else if v = ''sealed'' then Ok Sealed
      else if v = ''unavailable'' then Ok Unavailable
      else Err InvalidControlResponse)"

text \<open>\<open>i64::MAX as u64\<close>\<close>

definition I64_MAX :: u64 where
  "I64_MAX = 0x7FFFFFFFFFFFFFFF"

definition parse_bounded_counter :: "string \<Rightarrow> LifecycleRuntimeError + u64" where
  "parse_bounded_counter v =
     bindR (ok_or InvalidControlResponse (parse_u64 v)) (\<lambda>n.
     if n > I64_MAX then Err InvalidControlResponse else Ok n)"

definition parse_status_response :: "string \<Rightarrow> LifecycleRuntimeError + CooperativeProductStatus" where
  "parse_status_response response =
     (let parts = split_ascii_whitespace response in
      if length parts \<noteq> 6 \<or> parts ! 0 \<noteq> ''ok'' \<or> parts ! 1 \<noteq> ''status'' then Err InvalidControlResponse
      else
        bindR (parse_admission (parts ! 2)) (\<lambda>a.
        bindR (parse_bounded_counter (parts ! 3)) (\<lambda>i.
        bindR (parse_bounded_counter (parts ! 4)) (\<lambda>q.
        bindR (parse_bounded_counter (parts ! 5)) (\<lambda>d.
        Ok \<lparr>admission = a, status_in_flight = i, status_queue_depth = q, status_idle_for_ms = d\<rparr>)))))"

definition product_status :: "ProductControlClient \<Rightarrow> ('x, CooperativeProductStatus) agent" where
  "product_status c =
     bindE (product_request c (''v1 status'' @ [CHR 0x0A])) (\<lambda>response. liftE (parse_status_response response))"

definition quiesce_request :: "u64 \<Rightarrow> bytes" where
  "quiesce_request timeout_ms = ''v1 quiesce '' @ show_nat (unat timeout_ms) @ [CHR 0x0A]"

definition product_quiesce :: "ProductControlClient \<Rightarrow> u64 \<Rightarrow> ('x, unit) agent" where
  "product_quiesce c timeout_ms =
     (if timeout_ms > 300000 then throwE InvalidControlRequest
      else
        bindE (product_request c (quiesce_request timeout_ms)) (\<lambda>response.
        if response = ''ok sealed'' then returnE ()
        else if response = ''error drain_timeout'' then throwE ProductDrainTimeout
        else if response = ''error demand_returned'' then throwE ProductDemandReturned
        else if response = ''error lifecycle_busy'' then throwE ProductLifecycleBusy
        else throwE InvalidControlResponse))"

definition product_resume :: "ProductControlClient \<Rightarrow> ('x, unit) agent" where
  "product_resume c =
     bindE (product_request c (''v1 resume'' @ [CHR 0x0A])) (\<lambda>response.
     if response = ''ok running'' then returnE () else throwE InvalidControlResponse)"

subsection \<open>The adapter to the agent\<close>

definition QUIESCE_TIMEOUT_MS :: u64 where
  "QUIESCE_TIMEOUT_MS = 30000"

fun map_quiesce_result :: "LifecycleRuntimeError + unit \<Rightarrow> string + ProductQuiesceOutcome" where
  "map_quiesce_result (Ok ()) = Ok Drained"
| "map_quiesce_result (Err error) =
     (if error = ProductDemandReturned then Ok DemandReturned else Err (message error))"

definition product_control :: "ProductControlClient \<Rightarrow> ('x host_scheme) ProductLifecycleControl" where
  "product_control c =
     \<lparr>quiesce = (\<lambda>w. case product_quiesce c QUIESCE_TIMEOUT_MS w of (r, w') \<Rightarrow> (map_quiesce_result r, w')),
      cancel_quiesce = map_errE message (product_resume c)\<rparr>"

subsection \<open>Splitting of the answer\<close>

interpretation product_reader: bounded_reader 256 MAX_CONTROL_RESPONSE_BYTES ProductControlUnavailable
  ControlResponseTooLarge product_finish_response product_read_response
  by unfold_locales (simp, rule product_read_response.simps)

lemma product_read_response_eq:
  "product_read_response cs [] =
     (if length (delivered cs) > MAX_CONTROL_RESPONSE_BYTES then Err ControlResponseTooLarge
      else if breaks cs then Err ProductControlUnavailable
      else product_finish_response (delivered cs))"
  using product_reader.loop_delivered [of "[]" cs] by simp

text \<open>One line: not empty, without line breaks, UTF-8, without surrounding white space.\<close>

definition one_line :: "string \<Rightarrow> bool" where
  "one_line s \<longleftrightarrow> s \<noteq> [] \<and> CHR 0x0A \<notin> set s \<and> CHR 0x0D \<notin> set s \<and> valid_utf8 s \<and> trim s = s"

lemma product_finish_response_Ok: "product_finish_response b = Ok s \<longleftrightarrow> b = s @ [CHR 0x0A] \<and> one_line s"
  by (cases b rule: rev_cases) (auto simp: product_finish_response_def Let_def one_line_def)

text \<open>The peer of a socket answers a request with this line and nothing else.\<close>

definition answers_line :: "'x host_scheme \<Rightarrow> string \<Rightarrow> bytes \<Rightarrow> string \<Rightarrow> bool" where
  "answers_line w path req line \<longleftrightarrow>
     (let peer = peer_of w (sent w) path; reply = replies peer req in
      connects peer \<and> timeouts_set peer \<and> accepts_request reply \<and> shuts_down reply
      \<and> \<not> breaks (chunks reply) \<and> delivered (chunks reply) = line @ [CHR 0x0A])"

lemma product_request_Ok:
  "fst (product_request c req w) = Ok line \<longleftrightarrow>
     answers_line w (product_socket_path c) req line \<and> one_line line \<and> length line < MAX_CONTROL_RESPONSE_BYTES"
  by (auto simp: product_request_def product_configure_timeouts_def product_write_request_def eff_defs
      unix_connect_def set_timeouts_def stream_write_all_def shutdown_write_def Let_def answers_line_def
      product_read_response_eq product_finish_response_Ok)

lemma product_request_sent:
  "sent (snd (product_request c req w)) \<in> {sent w, sent w @ [(product_socket_path c, req)]}"
  by (auto simp: product_request_def product_configure_timeouts_def product_write_request_def eff_defs
      unix_connect_def set_timeouts_def stream_write_all_def shutdown_write_def Let_def)

subsection \<open>Printing the status line\<close>

fun admission_word :: "CooperativeAdmission \<Rightarrow> string" where
  "admission_word Accepting = ''accepting''"
| "admission_word Quiescing_admission = ''quiescing''"
| "admission_word Sealed = ''sealed''"
| "admission_word Unavailable = ''unavailable''"

text \<open>The status line of the protocol, as the source's tests write it.\<close>

definition status_line :: "CooperativeProductStatus \<Rightarrow> string" where
  "status_line s = join_byte (CHR '' '')
     [''ok'', ''status'', admission_word (admission s), show_nat (unat (status_in_flight s)),
      show_nat (unat (status_queue_depth s)), show_nat (unat (status_idle_for_ms s))]"

lemma graphic_not_whitespace: "is_ascii_graphic c \<Longrightarrow> \<not> is_ascii_whitespace c"
  by (auto simp: is_ascii_graphic_def is_ascii_whitespace_def byte_in_def)

lemma words_from_word:
  "list_all is_ascii_graphic v \<Longrightarrow> words_from is_ascii_whitespace acc (v @ s) = words_from is_ascii_whitespace (rev v @ acc) s"
  by (induction v arbitrary: acc) (auto simp: graphic_not_whitespace)

lemma words_from_join:
  assumes "\<forall>v\<in>set ws. v \<noteq> [] \<and> list_all is_ascii_graphic v"
  shows "split_ascii_whitespace (join_byte (CHR '' '') ws) = ws"
  unfolding split_ascii_whitespace_def using assms
proof (induction "CHR '' ''" ws rule: join_byte.induct)
  case (2 v)
  then show ?case
    using words_from_word [of v "[]" "[]"] by simp
next
  case (3 v u us)
  then show ?case
    using words_from_word [of v "[]"] by (simp add: is_ascii_whitespace_def)
qed simp

lemma parse_admission_word: "parse_admission (admission_word a) = Ok a"
  by (cases a) (simp_all add: parse_admission_def)

lemma parse_bounded_counter_show: "n \<le> I64_MAX \<Longrightarrow> parse_bounded_counter (show_nat (unat n)) = Ok n"
  by (simp add: parse_bounded_counter_def parse_u64_show)

lemma parse_status_line:
  assumes "status_in_flight s \<le> I64_MAX" and "status_queue_depth s \<le> I64_MAX" and "status_idle_for_ms s \<le> I64_MAX"
  shows "parse_status_response (status_line s) = Ok s"
proof -
  have digits: "list_all is_ascii_graphic (show_nat n)" for n
    using show_nat_digits [of n] is_ascii_digit_graphic by (auto simp: list_all_iff)
  have word: "list_all is_ascii_graphic (admission_word a)" "admission_word a \<noteq> []" for a
    by (cases a; simp add: is_ascii_graphic_def byte_in_def)+
  have fixed: "list_all is_ascii_graphic ''ok''" "list_all is_ascii_graphic ''status''"
    by (simp_all add: is_ascii_graphic_def byte_in_def)
  have "split_ascii_whitespace (status_line s) =
     [''ok'', ''status'', admission_word (admission s), show_nat (unat (status_in_flight s)),
      show_nat (unat (status_queue_depth s)), show_nat (unat (status_idle_for_ms s))]"
    unfolding status_line_def using digits word fixed by (intro words_from_join) simp
  then show ?thesis
    using assms by (simp add: parse_status_response_def parse_admission_word parse_bounded_counter_show)
qed

lemma one_line_answers:
  "one_line ''ok sealed''" "one_line ''error demand_returned''" "one_line ''ok running''"
  by code_simp+

lemma product_request_no_demand: "fst (product_request c req w) \<noteq> Err ProductDemandReturned"
  by (auto simp: product_request_def product_configure_timeouts_def product_write_request_def eff_defs
      unix_connect_def set_timeouts_def stream_write_all_def shutdown_write_def Let_def
      product_read_response_eq product_finish_response_def)

lemma quiesce_result:
  "fst (quiesce (product_control c) w) =
     (case fst (product_request c (quiesce_request QUIESCE_TIMEOUT_MS) w) of
        Err e \<Rightarrow> Err (message e)
      | Ok line \<Rightarrow>
          if line = ''ok sealed'' then Ok Drained
          else if line = ''error demand_returned'' then Ok DemandReturned
          else if line = ''error drain_timeout'' then Err (message ProductDrainTimeout)
          else if line = ''error lifecycle_busy'' then Err (message ProductLifecycleBusy)
          else Err (message InvalidControlResponse))"
  "snd (quiesce (product_control c) w) = snd (product_request c (quiesce_request QUIESCE_TIMEOUT_MS) w)"
proof -
  have t: "\<not> QUIESCE_TIMEOUT_MS > 300000"
    by (simp add: QUIESCE_TIMEOUT_MS_def)
  obtain r w' where rw: "product_request c (quiesce_request QUIESCE_TIMEOUT_MS) w = (r, w')"
    by fastforce
  have nd: "r \<noteq> Err ProductDemandReturned"
    using product_request_no_demand [of c "quiesce_request QUIESCE_TIMEOUT_MS" w] rw by simp
  have q: "quiesce (product_control c) w = (map_quiesce_result (fst (product_quiesce c QUIESCE_TIMEOUT_MS w)),
      snd (product_quiesce c QUIESCE_TIMEOUT_MS w))"
    by (simp add: product_control_def split: prod.splits)
  have p: "product_quiesce c QUIESCE_TIMEOUT_MS w =
     (case r of Err e \<Rightarrow> (Err e, w') | Ok line \<Rightarrow>
       (if line = ''ok sealed'' then Ok () else if line = ''error drain_timeout'' then Err ProductDrainTimeout
        else if line = ''error demand_returned'' then Err ProductDemandReturned
        else if line = ''error lifecycle_busy'' then Err ProductLifecycleBusy else Err InvalidControlResponse, w'))"
    unfolding product_quiesce_def using t rw by (simp add: bindE_def returnE_def throwE_def split: sum.splits)
  show "fst (quiesce (product_control c) w) =
     (case fst (product_request c (quiesce_request QUIESCE_TIMEOUT_MS) w) of
        Err e \<Rightarrow> Err (message e)
      | Ok line \<Rightarrow>
          if line = ''ok sealed'' then Ok Drained
          else if line = ''error demand_returned'' then Ok DemandReturned
          else if line = ''error drain_timeout'' then Err (message ProductDrainTimeout)
          else if line = ''error lifecycle_busy'' then Err (message ProductLifecycleBusy)
          else Err (message InvalidControlResponse))"
    using nd unfolding q p rw by (cases r) auto
  show "snd (quiesce (product_control c) w) = snd (product_request c (quiesce_request QUIESCE_TIMEOUT_MS) w)"
    unfolding q p rw by (cases r) auto
qed

lemma cancel_result:
  "fst (cancel_quiesce (product_control c) w) = Ok () \<longleftrightarrow>
     fst (product_request c (''v1 resume'' @ [CHR 0x0A]) w) = Ok ''ok running''"
  "snd (cancel_quiesce (product_control c) w) = snd (product_request c (''v1 resume'' @ [CHR 0x0A]) w)"
  by (simp_all add: product_control_def product_resume_def bindE_def map_errE_def returnE_def throwE_def
      split: prod.splits sum.splits)

lemma quiesce_request_text: "quiesce_request QUIESCE_TIMEOUT_MS = ''v1 quiesce 30000'' @ [CHR 0x0A]"
proof -
  have "digit_char 3 = CHR ''3''" "digit_char 0 = CHR ''0''"
    by code_simp+
  then show ?thesis
    by (simp add: quiesce_request_def QUIESCE_TIMEOUT_MS_def show_nat.simps [of 30000] show_nat.simps [of 3000]
        show_nat.simps [of 300] show_nat.simps [of 30] show_nat.simps [of 3])
qed

text \<open>
  The product is believed only on its exact answers. A quiesce of the product adapter asks once, with a
  drain timeout of 30 s; it reports the product drained if and only if the product took the request and
  answered exactly \<open>ok sealed\<close>, and returned demand if and only if it answered exactly
  \<open>error demand_returned\<close>; whatever else happens on the socket is an error. Reopening admission succeeds if
  and only if the answer is exactly \<open>ok running\<close>. At most the one request is sent.
\<close>

theorem product_believed_on_exact_answers:
  "let s = product_socket_path c; q = ''v1 quiesce 30000'' @ [CHR 0x0A]; r = ''v1 resume'' @ [CHR 0x0A] in
   (fst (quiesce (product_control c) w) = Ok Drained \<longleftrightarrow> answers_line w s q ''ok sealed'')
   \<and> (fst (quiesce (product_control c) w) = Ok DemandReturned \<longleftrightarrow> answers_line w s q ''error demand_returned'')
   \<and> (fst (cancel_quiesce (product_control c) w) = Ok () \<longleftrightarrow> answers_line w s r ''ok running'')
   \<and> sent (snd (quiesce (product_control c) w)) \<in> {sent w, sent w @ [(s, q)]}
   \<and> sent (snd (cancel_quiesce (product_control c) w)) \<in> {sent w, sent w @ [(s, r)]}"
proof -
  have ok: "fst (quiesce (product_control c) w) = Ok Drained \<longleftrightarrow>
      fst (product_request c (quiesce_request QUIESCE_TIMEOUT_MS) w) = Ok ''ok sealed''"
    "fst (quiesce (product_control c) w) = Ok DemandReturned \<longleftrightarrow>
      fst (product_request c (quiesce_request QUIESCE_TIMEOUT_MS) w) = Ok ''error demand_returned''"
    by (auto simp: quiesce_result(1) split: sum.splits)
  have short: "length ''ok sealed'' < MAX_CONTROL_RESPONSE_BYTES" "length ''error demand_returned'' < MAX_CONTROL_RESPONSE_BYTES"
      "length ''ok running'' < MAX_CONTROL_RESPONSE_BYTES"
    by (simp_all add: MAX_CONTROL_RESPONSE_BYTES_def)
  show ?thesis
    unfolding Let_def ok cancel_result quiesce_result(2) product_request_Ok quiesce_request_text
    using product_request_sent one_line_answers short by blast
qed

end
