(* ===== verification/Process_Identity.thy ===== *)
theory Process_Identity
  imports Host_World
begin

section \<open>Process identity attestation (\<open>src/src/adapters/process_lifecycle_identity.rs\<close>)\<close>

text \<open>
  The attestor reads the start time and the cgroup of a process before and after it looks the process
  up in the \<open>cgroup.procs\<close> file of the managed cgroup. The kernel files may change between any two
  reads. A cgroup path from \<open>/proc\<close> is compared by components, as \<open>Path\<close> equality does; the expected
  path is therefore kept as its components.
\<close>

definition DEFAULT_PROC_ROOT :: string where
  "DEFAULT_PROC_ROOT = ''/proc''"

definition DEFAULT_CGROUP_MOUNT :: string where
  "DEFAULT_CGROUP_MOUNT = ''/sys/fs/cgroup''"

definition PROC_STAT_STARTTIME_INDEX_AFTER_COMM :: nat where
  "PROC_STAT_STARTTIME_INDEX_AFTER_COMM = 19"

record ExpectedLinuxProcessIdentity =
  expected_pid :: u32
  expected_start_ticks :: u64
  expected_cgroup :: string

record LinuxProcessIdentityAttestor =
  proc_root :: string
  cgroup_mount :: string

definition LinuxProcessIdentityAttestor_new :: "string \<Rightarrow> string \<Rightarrow> LinuxProcessIdentityAttestor" where
  [simp]: "LinuxProcessIdentityAttestor_new root mount = \<lparr>proc_root = root, cgroup_mount = mount\<rparr>"

definition default_attestor :: LinuxProcessIdentityAttestor where
  "default_attestor = LinuxProcessIdentityAttestor_new DEFAULT_PROC_ROOT DEFAULT_CGROUP_MOUNT"

datatype LinuxProcessIdentityError =
    InvalidExpectedIdentity
  | ProcessUnavailable
  | InvalidProcessDirectory
  | InvalidProcStat
  | ProcessStartMismatch
  | InvalidProcCgroup
  | ProcessCgroupMismatch
  | ManagedCgroupUnavailable
  | InvalidManagedCgroupDirectory
  | InvalidCgroupProcs
  | ProcessNotInManagedCgroup
  | IdentityChangedDuringAttestation

fun LinuxProcessIdentityError_fmt :: "LinuxProcessIdentityError \<Rightarrow> string" where
  "LinuxProcessIdentityError_fmt InvalidExpectedIdentity = ''invalid expected Linux process lifecycle identity''"
| "LinuxProcessIdentityError_fmt ProcessUnavailable = ''expected Linux process identity is unavailable''"
| "LinuxProcessIdentityError_fmt InvalidProcessDirectory = ''expected Linux process directory is invalid''"
| "LinuxProcessIdentityError_fmt InvalidProcStat = ''Linux process stat identity is invalid''"
| "LinuxProcessIdentityError_fmt ProcessStartMismatch = ''Linux process start identity does not match''"
| "LinuxProcessIdentityError_fmt InvalidProcCgroup = ''Linux process cgroup identity is invalid''"
| "LinuxProcessIdentityError_fmt ProcessCgroupMismatch = ''Linux process cgroup identity does not match''"
| "LinuxProcessIdentityError_fmt ManagedCgroupUnavailable = ''managed lifecycle cgroup is unavailable''"
| "LinuxProcessIdentityError_fmt InvalidManagedCgroupDirectory = ''managed lifecycle cgroup directory is invalid''"
| "LinuxProcessIdentityError_fmt InvalidCgroupProcs = ''managed lifecycle cgroup.procs is invalid''"
| "LinuxProcessIdentityError_fmt ProcessNotInManagedCgroup = ''expected process is not in the managed lifecycle cgroup''"
| "LinuxProcessIdentityError_fmt IdentityChangedDuringAttestation =
     ''Linux process identity changed during lifecycle attestation''"

type_synonym ('x, 'a) attest_op = "('x host_scheme, LinuxProcessIdentityError, 'a) eff"

subsection \<open>Parsers\<close>

definition find_byte :: "char \<Rightarrow> string \<Rightarrow> nat option" where
  "find_byte c s = (if c \<in> set s then Some (length (takeWhile ((\<noteq>) c) s)) else None)"

definition rfind_byte :: "char \<Rightarrow> string \<Rightarrow> nat option" where
  "rfind_byte c s = (if c \<in> set s then Some (length s - 1 - length (takeWhile ((\<noteq>) c) (rev s))) else None)"

definition nth_opt :: "'a list \<Rightarrow> nat \<Rightarrow> 'a option" where
  "nth_opt xs n = (if n < length xs then Some (xs ! n) else None)"

definition parse_proc_stat_start_ticks :: "string \<Rightarrow> u32 \<Rightarrow> LinuxProcessIdentityError + u64" where
  "parse_proc_stat_start_ticks input pid' =
     bindR (ok_or InvalidProcStat (find_byte (CHR ''('') input)) (\<lambda>op.
     bindR (ok_or InvalidProcStat (rfind_byte (CHR '')'') input)) (\<lambda>cl.
     if cl \<le> op then Err InvalidProcStat
     else
       bindR (ok_or InvalidProcStat (parse_u32 (trim (take op input)))) (\<lambda>p.
       if p \<noteq> pid' then Err InvalidProcStat
       else
         bindR (ok_or InvalidProcStat
           (nth_opt (split_whitespace (drop (cl + 1) input)) PROC_STAT_STARTTIME_INDEX_AFTER_COMM)) (\<lambda>field.
         bindR (ok_or InvalidProcStat (parse_u64 field)) (\<lambda>ticks.
         if ticks = 0 then Err InvalidProcStat else Ok ticks)))))"

definition parse_proc_cgroup_v2_path :: "string \<Rightarrow> LinuxProcessIdentityError + string" where
  "parse_proc_cgroup_v2_path input =
     (case List.map_filter (strip_prefix ''0::'') (lines input) of
        [v] \<Rightarrow>
          (if v = [] then Err InvalidProcCgroup
           else if \<not> is_absolute v \<or> has_traversal v then Err InvalidProcCgroup
           else Ok v)
      | _ \<Rightarrow> Err InvalidProcCgroup)"

definition procs_line :: "u32 \<Rightarrow> bool \<Rightarrow> string \<Rightarrow> LinuxProcessIdentityError + bool" where
  "procs_line pid' found line =
     (if line = [] then Ok found
      else bindR (ok_or InvalidCgroupProcs (parse_u32 line)) (\<lambda>p. Ok (found \<or> p = pid')))"

definition validate_absolute_root :: "string \<Rightarrow> LinuxProcessIdentityError + unit" where
  "validate_absolute_root p = (if \<not> is_absolute p \<or> has_traversal p then Err InvalidExpectedIdentity else Ok ())"

definition validate_managed_cgroup_path :: "string \<Rightarrow> string \<Rightarrow> LinuxProcessIdentityError + unit" where
  "validate_managed_cgroup_path p mount =
     (if \<not> is_absolute p \<or> path_eq p mount \<or> \<not> path_starts_with mount p \<or> has_traversal p
      then Err InvalidExpectedIdentity else Ok ())"

definition require_start_ticks :: "u64 \<Rightarrow> u64 \<Rightarrow> LinuxProcessIdentityError + unit" where
  "require_start_ticks expected observed = (if expected \<noteq> observed then Err ProcessStartMismatch else Ok ())"

definition require_cgroup :: "path_component list \<Rightarrow> string \<Rightarrow> LinuxProcessIdentityError + unit" where
  "require_cgroup expected observed = (if expected \<noteq> components observed then Err ProcessCgroupMismatch else Ok ())"

subsection \<open>The attestor\<close>

definition proc_file :: "LinuxProcessIdentityAttestor \<Rightarrow> u32 \<Rightarrow> string" where
  "proc_file a pid' = path_join (proc_root a) (show_nat (unat pid'))"

definition validate_expected ::
  "LinuxProcessIdentityAttestor \<Rightarrow> ExpectedLinuxProcessIdentity \<Rightarrow> LinuxProcessIdentityError + unit" where
  "validate_expected a e =
     (if expected_pid e = 0 \<or> expected_start_ticks e = 0 then Err InvalidExpectedIdentity
      else
        bindR (validate_absolute_root (proc_root a)) (\<lambda>_.
        bindR (validate_absolute_root (cgroup_mount a)) (\<lambda>_.
        validate_managed_cgroup_path (expected_cgroup e) (cgroup_mount a))))"

definition validate_process_directory :: "LinuxProcessIdentityAttestor \<Rightarrow> u32 \<Rightarrow> ('x, unit) attest_op" where
  "validate_process_directory a pid' =
     bindE (map_errE (\<lambda>_. ProcessUnavailable) (lstat (proc_file a pid'))) (\<lambda>m.
     if m \<noteq> DirNode then throwE InvalidProcessDirectory else returnE ())"

definition validate_managed_cgroup_directory :: "string \<Rightarrow> ('x, unit) attest_op" where
  "validate_managed_cgroup_directory p =
     bindE (map_errE (\<lambda>_. ManagedCgroupUnavailable) (lstat p)) (\<lambda>m.
     if m \<noteq> DirNode then throwE InvalidManagedCgroupDirectory else returnE ())"

definition read_process_start_ticks :: "LinuxProcessIdentityAttestor \<Rightarrow> u32 \<Rightarrow> ('x, u64) attest_op" where
  "read_process_start_ticks a pid' =
     bindE (map_errE (\<lambda>_. ProcessUnavailable) (read_to_string (path_join (proc_file a pid') ''stat''))) (\<lambda>input.
     liftE (parse_proc_stat_start_ticks input pid'))"

definition read_process_cgroup :: "LinuxProcessIdentityAttestor \<Rightarrow> u32 \<Rightarrow> ('x, string) attest_op" where
  "read_process_cgroup a pid' =
     bindE (map_errE (\<lambda>_. ProcessUnavailable) (read_to_string (path_join (proc_file a pid') ''cgroup''))) (\<lambda>input.
     liftE (parse_proc_cgroup_v2_path input))"

definition expected_proc_cgroup_path ::
  "LinuxProcessIdentityAttestor \<Rightarrow> string \<Rightarrow> LinuxProcessIdentityError + path_component list" where
  "expected_proc_cgroup_path a managed =
     bindR (ok_or InvalidExpectedIdentity (path_strip_prefix (cgroup_mount a) managed)) (\<lambda>relative.
     Ok (RootDir # relative))"

definition require_cgroup_membership :: "string \<Rightarrow> u32 \<Rightarrow> ('x, unit) attest_op" where
  "require_cgroup_membership managed pid' =
     bindE (map_errE (\<lambda>_. ManagedCgroupUnavailable) (read_to_string (path_join managed ''cgroup.procs''))) (\<lambda>input.
     bindE (liftE (try_fold (procs_line pid') False (lines input))) (\<lambda>found.
     if \<not> found then throwE ProcessNotInManagedCgroup else returnE ()))"

definition attest ::
  "LinuxProcessIdentityAttestor \<Rightarrow> ExpectedLinuxProcessIdentity \<Rightarrow> ('x, ExpectedLinuxProcessIdentity) attest_op" where
  "attest a e =
     bindE (liftE (validate_expected a e)) (\<lambda>_.
     bindE (validate_process_directory a (expected_pid e)) (\<lambda>_.
     bindE (validate_managed_cgroup_directory (expected_cgroup e)) (\<lambda>_.
     bindE (read_process_start_ticks a (expected_pid e)) (\<lambda>first_start.
     bindE (liftE (require_start_ticks (expected_start_ticks e) first_start)) (\<lambda>_.
     bindE (read_process_cgroup a (expected_pid e)) (\<lambda>first_cgroup.
     bindE (liftE (expected_proc_cgroup_path a (expected_cgroup e))) (\<lambda>expected_path.
     bindE (liftE (require_cgroup expected_path first_cgroup)) (\<lambda>_.
     bindE (require_cgroup_membership (expected_cgroup e) (expected_pid e)) (\<lambda>_.
     bindE (read_process_start_ticks a (expected_pid e)) (\<lambda>second_start.
     bindE (read_process_cgroup a (expected_pid e)) (\<lambda>second_cgroup.
     bindE (liftE (require_start_ticks (expected_start_ticks e) second_start)) (\<lambda>_.
     bindE (liftE (require_cgroup expected_path second_cgroup)) (\<lambda>_.
     if first_start \<noteq> second_start \<or> components first_cgroup \<noteq> components second_cgroup
     then throwE IdentityChangedDuringAttestation
     else returnE e)))))))))))))"

subsection \<open>Lemmas\<close>

lemmas attest_defs =
  attest_def validate_process_directory_def validate_managed_cgroup_directory_def read_process_start_ticks_def
  read_process_cgroup_def require_cgroup_membership_def

lemma touches_attest: "touches A (attest a e)"
  unfolding attest_defs by (rule touches_rules touches_host_calls)+

lemma keeps_writes_attest: "keeps_writes (attest a e)"
  unfolding attest_defs by (rule keeps_writes_rules)+

lemma read_to_string_Ok:
  assumes "read_to_string p w = (Ok s, w')"
  shows "k_read (kernel_of w) (writes w) (now w) p = Ok s" "now w \<le> now w'" "writes w' = writes w"
    "kernel_of w' = kernel_of w"
  using assms now_elapse [of w 0] by (auto simp: read_to_string_def bindR_Ok_iff split: if_splits)

lemma lstat_Ok:
  assumes "lstat p w = (Ok n, w')"
  shows "now w \<le> now w'" "writes w' = writes w" "kernel_of w' = kernel_of w"
  using assms now_elapse [of w 0] by (auto simp: lstat_def)

text \<open>The pids listed in a \<open>cgroup.procs\<close> file.\<close>

definition lists_pid :: "string \<Rightarrow> u32 \<Rightarrow> bool" where
  "lists_pid input pid' \<longleftrightarrow> (\<exists>l\<in>set (lines input). l \<noteq> [] \<and> parse_u32 l = Some pid')"

lemma procs_fold: "try_fold (procs_line p) found ls = Ok b \<Longrightarrow>
  b \<longleftrightarrow> found \<or> (\<exists>l\<in>set ls. l \<noteq> [] \<and> parse_u32 l = Some p)"
proof (induction ls arbitrary: found)
  case (Cons l ls)
  from Cons.prems obtain f where f: "procs_line p found l = Ok f" "try_fold (procs_line p) f ls = Ok b"
    by (auto simp: bindR_Ok_iff)
  have "f \<longleftrightarrow> found \<or> l \<noteq> [] \<and> parse_u32 l = Some p"
    using f(1) by (auto simp: procs_line_def bindR_Ok_iff split: if_splits)
  with Cons.IH [OF f(2)] show ?case by auto
qed simp

lemma attest_Ok:
  assumes "attest a e w = (Ok r, w')"
  obtains w1 w2 w3 w4 w5 w6 n1 n2 i1 i2 i3 i4 i5 c1 c2 where
    "lstat (proc_file a (expected_pid e)) w = (Ok n1, w1)" "lstat (expected_cgroup e) w1 = (Ok n2, w2)"
    "read_to_string (path_join (proc_file a (expected_pid e)) ''stat'') w2 = (Ok i1, w3)"
    "parse_proc_stat_start_ticks i1 (expected_pid e) = Ok (expected_start_ticks e)"
    "read_to_string (path_join (proc_file a (expected_pid e)) ''cgroup'') w3 = (Ok i2, w4)"
    "parse_proc_cgroup_v2_path i2 = Ok c1" "components c1 = components c2"
    "read_to_string (path_join (expected_cgroup e) ''cgroup.procs'') w4 = (Ok i3, w5)"
    "try_fold (procs_line (expected_pid e)) False (lines i3) = Ok True"
    "read_to_string (path_join (proc_file a (expected_pid e)) ''stat'') w5 = (Ok i4, w6)"
    "parse_proc_stat_start_ticks i4 (expected_pid e) = Ok (expected_start_ticks e)"
    "read_to_string (path_join (proc_file a (expected_pid e)) ''cgroup'') w6 = (Ok i5, w')"
    "parse_proc_cgroup_v2_path i5 = Ok c2" "r = e" "validate_expected a e = Ok ()"
proof -
  from assms that show thesis
    unfolding attest_defs
    by (simp only: eff_Ok_iff require_start_ticks_def require_cgroup_def)
      (auto simp: eff_Ok_iff split: if_split_asm)
qed

lemma attest_sound:
  assumes run: "attest a e w = (Ok r, w')"
    and truthful: "\<And>t s v. k_read (kernel_of w) (writes w) t (path_join (proc_file a (expected_pid e)) ''stat'') = Ok s \<Longrightarrow>
      parse_proc_stat_start_ticks s (expected_pid e) = Ok v \<Longrightarrow> incarnation t = Some v"
    and no_reuse: "\<And>t1 t t2 v. t1 \<le> t \<Longrightarrow> t \<le> t2 \<Longrightarrow> incarnation t1 = Some v \<Longrightarrow> incarnation t2 = Some v \<Longrightarrow>
      incarnation t = Some v"
  shows "r = e \<and> (\<exists>t s. now w \<le> t \<and> t \<le> now w' \<and> incarnation t = Some (expected_start_ticks e)
    \<and> k_read (kernel_of w) (writes w) t (path_join (expected_cgroup e) ''cgroup.procs'') = Ok s
    \<and> lists_pid s (expected_pid e))"
  using run
proof (rule attest_Ok)
  fix w1 w2 w3 w4 w5 w6 n1 n2 i1 i2 i3 i4 i5 c1 c2
  assume steps: "lstat (proc_file a (expected_pid e)) w = (Ok n1, w1)" "lstat (expected_cgroup e) w1 = (Ok n2, w2)"
    "read_to_string (path_join (proc_file a (expected_pid e)) ''stat'') w2 = (Ok i1, w3)"
    "read_to_string (path_join (proc_file a (expected_pid e)) ''cgroup'') w3 = (Ok i2, w4)"
    "read_to_string (path_join (expected_cgroup e) ''cgroup.procs'') w4 = (Ok i3, w5)"
    "read_to_string (path_join (proc_file a (expected_pid e)) ''stat'') w5 = (Ok i4, w6)"
    "read_to_string (path_join (proc_file a (expected_pid e)) ''cgroup'') w6 = (Ok i5, w')"
    and p1: "parse_proc_stat_start_ticks i1 (expected_pid e) = Ok (expected_start_ticks e)"
    and p2: "parse_proc_stat_start_ticks i4 (expected_pid e) = Ok (expected_start_ticks e)"
    and procs: "try_fold (procs_line (expected_pid e)) False (lines i3) = Ok True" and r: "r = e"
  note l = lstat_Ok [OF steps(1)] lstat_Ok [OF steps(2)]
  note rd = read_to_string_Ok [OF steps(3)] read_to_string_Ok [OF steps(4)] read_to_string_Ok [OF steps(5)]
    read_to_string_Ok [OF steps(6)] read_to_string_Ok [OF steps(7)]
  have "incarnation (now w2) = Some (expected_start_ticks e)" "incarnation (now w5) = Some (expected_start_ticks e)"
    using truthful p1 p2 l rd by auto
  then have "incarnation (now w4) = Some (expected_start_ticks e)"
    using no_reuse [of "now w2" "now w4" "now w5"] rd by simp
  moreover have "k_read (kernel_of w) (writes w) (now w4) (path_join (expected_cgroup e) ''cgroup.procs'') = Ok i3"
    using l rd by simp
  moreover have "now w \<le> now w4" "now w4 \<le> now w'"
    using l rd by linarith+
  moreover have "lists_pid i3 (expected_pid e)"
    using procs_fold [OF procs] by (simp add: lists_pid_def)
  ultimately show ?thesis
    using r by blast
qed

text \<open>A \<open>/proc/<pid>/stat\<close> line: the command name is in parentheses and may contain any bytes.\<close>

definition stat_line :: "u32 \<Rightarrow> string \<Rightarrow> string list \<Rightarrow> string" where
  "stat_line p comm ws =
     show_nat (unat p) @ '' ('' @ comm @ '')'' @ concat (map ((#) (CHR 0x20)) ws) @ [CHR 0x0A]"

lemma takeWhile_first: "c \<notin> set s \<Longrightarrow> takeWhile ((\<noteq>) c) (s @ c # t) = s"
  by (induction s) auto

lemma find_first: "c \<notin> set s \<Longrightarrow> find_byte c (s @ c # t) = Some (length s)"
  by (simp add: find_byte_def takeWhile_first)

lemma rfind_last: "c \<notin> set t \<Longrightarrow> rfind_byte c (s @ c # t) = Some (length s)"
  using takeWhile_first [of c "rev t" "rev s"] by (simp add: rfind_byte_def)

lemma drop_after: "drop (length h + 1) (h @ c # r) = r"
  by simp

lemma show_nat_plain: "list_all is_ascii_graphic (show_nat n)" "CHR ''('' \<notin> set (show_nat n)"
  using show_nat_digits [of n] is_ascii_digit_graphic
  by (auto simp: list_all_iff is_ascii_digit_def byte_in_def)

lemma parse_stat_line:
  assumes ws: "\<And>v. v \<in> set ws \<Longrightarrow> v \<noteq> [] \<and> list_all is_ascii_graphic v \<and> CHR '')'' \<notin> set v"
    and len: "19 < length ws" and t: "ws ! 19 = show_nat (unat t)" "t \<noteq> 0"
  shows "parse_proc_stat_start_ticks (stat_line p comm ws) p = Ok t"
proof -
  let ?rest = "concat (map ((#) (CHR 0x20)) ws) @ [CHR 0x0A]"
  let ?head = "show_nat (unat p) @ '' ('' @ comm"
  have line: "stat_line p comm ws = ?head @ CHR '')'' # ?rest"
    "stat_line p comm ws = (show_nat (unat p) @ '' '') @ CHR ''('' # (comm @ CHR '')'' # ?rest)"
    by (simp_all add: stat_line_def)
  have "CHR '')'' \<notin> set ?rest"
    using ws by auto
  then have cl: "rfind_byte (CHR '')'') (stat_line p comm ws) = Some (length ?head)"
    unfolding line(1) by (rule rfind_last)
  have op: "find_byte (CHR ''('') (stat_line p comm ws) = Some (length (show_nat (unat p)) + 1)"
    unfolding line(2) using show_nat_plain(2) find_first [of "CHR ''(''" "show_nat (unat p) @ '' ''"] by simp
  have tk: "take (length (show_nat (unat p)) + 1) (stat_line p comm ws) = show_nat (unat p) @ [CHR 0x20]"
    by (simp add: stat_line_def)
  have dr: "drop (length ?head + 1) (stat_line p comm ws) = ?rest"
    unfolding line(1) by (rule drop_after)
  have words: "split_whitespace ?rest = ws"
    using ws by (intro split_whitespace_words) auto
  have pid: "parse_u32 (trim (show_nat (unat p) @ [CHR 0x20])) = Some p"
    using trim_word_space [OF show_nat_nonempty show_nat_plain(1)] parse_u32_show by simp
  show ?thesis
    using op cl tk dr words pid len t
    by (simp add: parse_proc_stat_start_ticks_def nth_opt_def PROC_STAT_STARTTIME_INDEX_AFTER_COMM_def parse_u64_show)
qed

subsection \<open>Properties\<close>

text \<open>
  a successful attestation names one live process. Suppose the \<open>stat\<close> file of the pid, whenever it
  is read, shows the start time of the process that then has this pid, and a start time that is
  seen at two instants belonged to the pid at every instant between them (a pid is not reused
  within one clock tick). If \<open>attest\<close> succeeds, then at some instant during the attestation the pid
  belonged to exactly the expected incarnation and was listed in the managed cgroup's
  \<open>cgroup.procs\<close>.
\<close>

theorem attested_process_is_member:
  assumes "attest a e w = (Ok r, w')"
    and "\<And>t s v. k_read (kernel_of w) (writes w) t (path_join (proc_file a (expected_pid e)) ''stat'') = Ok s \<Longrightarrow>
      parse_proc_stat_start_ticks s (expected_pid e) = Ok v \<Longrightarrow> incarnation t = Some v"
    and "\<And>t1 t t2 v. t1 \<le> t \<Longrightarrow> t \<le> t2 \<Longrightarrow> incarnation t1 = Some v \<Longrightarrow> incarnation t2 = Some v \<Longrightarrow>
      incarnation t = Some v"
  shows "r = e \<and> (\<exists>t s. now w \<le> t \<and> t \<le> now w' \<and> incarnation t = Some (expected_start_ticks e)
    \<and> k_read (kernel_of w) (writes w) t (path_join (expected_cgroup e) ''cgroup.procs'') = Ok s
    \<and> lists_pid s (expected_pid e))"
  using assms by (rule attest_sound)

text \<open>
  a hostile command name cannot forge the start time. Whatever bytes the command name in a
  \<open>stat\<close> line holds, parentheses, spaces and line feeds included, the parser returns the twentieth
  field after it.
\<close>

theorem stat_parser_ignores_command_name:
  assumes "\<forall>v\<in>set ws. v \<noteq> [] \<and> list_all is_ascii_graphic v \<and> CHR '')'' \<notin> set v"
    and "19 < length ws" and "ws ! 19 = show_nat (unat t)" and "t \<noteq> 0"
  shows "parse_proc_stat_start_ticks (stat_line p comm ws) p = Ok t"
  using assms by (intro parse_stat_line) auto

theorem stat_parser_ignores_command_name_witness:
  "parse_proc_stat_start_ticks (stat_line 42 '') 42 (x) S 1 2'' (replicate 19 ''7'' @ [''123''] @ [''9''])) 42 = Ok 123"
proof -
  let ?ws = "replicate 19 ''7'' @ [''123''] @ [''9'']"
  have "show_nat (unat (123 :: u64)) = ''123''"
    by code_simp
  then show ?thesis
    by (intro stat_parser_ignores_command_name)
      (auto simp: nth_append is_ascii_graphic_def byte_in_def)
qed

text \<open>A kernel with one process in its cgroup; the cgroup freezes and thaws as soon as it is told to.\<close>

definition sample_identity :: ExpectedLinuxProcessIdentity where
  "sample_identity = \<lparr>expected_pid = 42, expected_start_ticks = 123, expected_cgroup = ''/sys/fs/cgroup/t''\<rparr>"

definition sample_stat :: string where
  "sample_stat = stat_line 42 ''a) (b'' (replicate 19 ''7'' @ [''123''])"

definition sample_kernel :: kernel where
  "sample_kernel =
     \<lparr>k_read = (\<lambda>ws _ p.
        if p = ''/proc/42/stat'' then Ok sample_stat
        else if p = ''/proc/42/cgroup'' then Ok ''0::/t''
        else if p = ''/sys/fs/cgroup/t/cgroup.procs'' then Ok ''42''
        else if p = ''/sys/fs/cgroup/t/cgroup.events'' 
          then Ok (''populated 1'' @ [CHR 0x0A] @ ''frozen '' @ (if ws = [] then ''0'' else take 1 (snd (snd (last ws)))))
        else Err NotFound),
      k_stat = (\<lambda>_ _ _. Ok DirNode),
      k_write = (\<lambda>_ _ _ _. Ok ())\<rparr>"

definition sample_host :: host where
  "sample_host =
     \<lparr>nodes = [], history = [], pending = [], faults = [], clock = [], pid = 7, now = 5, lags = [1, 2, 3], writes = [], sent = [],
      kernel_of = sample_kernel, peer_of = (\<lambda>_ _. \<lparr>connects = False, timeouts_set = False,
        replies = (\<lambda>_. \<lparr>accepts_request = False, shuts_down = False, chunks = []\<rparr>)\<rparr>)\<rparr>"

lemma sample_stat_ticks: "parse_proc_stat_start_ticks sample_stat 42 = Ok 123"
proof -
  have "show_nat (unat (123 :: u64)) = ''123''"
    by code_simp
  then show ?thesis
    unfolding sample_stat_def
    by (intro parse_stat_line) (auto simp: nth_append is_ascii_graphic_def byte_in_def)
qed

lemma sample_stat_utf8: "valid_utf8 sample_stat"
  by code_simp

lemma sample_paths:
  "path_join (proc_file default_attestor 42) ''stat'' = ''/proc/42/stat''"
  "path_join (proc_file default_attestor 42) ''cgroup'' = ''/proc/42/cgroup''"
  "path_join ''/sys/fs/cgroup/t'' ''cgroup.procs'' = ''/sys/fs/cgroup/t/cgroup.procs''"
  by code_simp+

lemma sample_pid: "parse_u32 ''42'' = Some 42"
proof -
  have "show_nat (unat (42 :: u32)) = ''42''"
    by code_simp
  then show ?thesis
    using parse_u32_show [of 42] by simp
qed

lemma sample_checks:
  "validate_expected default_attestor sample_identity = Ok ()"
  "parse_proc_cgroup_v2_path ''0::/t'' = Ok ''/t''"
  "expected_proc_cgroup_path default_attestor ''/sys/fs/cgroup/t'' = Ok (components ''/t'')"
  "try_fold (procs_line 42) False (lines ''42'') = Ok True"
  "valid_utf8 ''0::/t''" "valid_utf8 ''42''"
  by (simp_all add: validate_expected_def default_attestor_def sample_identity_def validate_absolute_root_def
      validate_managed_cgroup_path_def DEFAULT_PROC_ROOT_def DEFAULT_CGROUP_MOUNT_def is_absolute_def
      starts_with_def has_traversal_def components_def path_eq_def path_starts_with_def path_strip_prefix_def
      parse_proc_cgroup_v2_path_def List.map_filter_def lines_def strip_prefix_def expected_proc_cgroup_path_def
      procs_line_def sample_pid valid_utf8_ascii)

lemma sample_attests:
  assumes k: "kernel_of w = sample_kernel"
  shows "fst (attest default_attestor sample_identity w) = Ok sample_identity"
proof -
  have id: "expected_pid sample_identity = 42" "expected_start_ticks sample_identity = 123"
    "expected_cgroup sample_identity = ''/sys/fs/cgroup/t''"
    by (simp_all add: sample_identity_def)
  show ?thesis
    unfolding attest_defs id sample_paths
    by (simp add: bindE_def map_errE_def liftE_def returnE_def lstat_def read_to_string_def k sample_kernel_def
        sample_checks sample_stat_ticks sample_stat_utf8 require_start_ticks_def require_cgroup_def)
qed

theorem attested_process_is_member_witness:
  "\<exists>w' t s. attest default_attestor sample_identity sample_host = (Ok sample_identity, w')
     \<and> 5 \<le> t \<and> k_read sample_kernel [] t ''/sys/fs/cgroup/t/cgroup.procs'' = Ok s \<and> lists_pid s 42"
proof -
  obtain w' where run: "attest default_attestor sample_identity sample_host = (Ok sample_identity, w')"
    using sample_attests [of sample_host] by (metis (no_types, lifting) host.select_convs(5) prod.collapse sample_host_def)
  have "sample_identity = sample_identity \<and> (\<exists>t s. now sample_host \<le> t \<and> t \<le> now w' \<and>
      Some 123 = Some (expected_start_ticks sample_identity) \<and>
      k_read (kernel_of sample_host) (writes sample_host) t
        (path_join (expected_cgroup sample_identity) ''cgroup.procs'') = Ok s
      \<and> lists_pid s (expected_pid sample_identity))"
    by (rule attested_process_is_member [OF run, of "\<lambda>_. Some 123"])
      (auto simp: sample_host_def sample_kernel_def sample_identity_def sample_paths sample_stat_ticks)
  then have "\<exists>t s. 5 \<le> t \<and> k_read sample_kernel [] t ''/sys/fs/cgroup/t/cgroup.procs'' = Ok s \<and> lists_pid s 42"
    by (auto simp: sample_host_def sample_identity_def sample_paths)
  then show ?thesis
    using run by blast
qed

end
