(* ===== verification/Cgroup_Freeze.thy ===== *)
theory Cgroup_Freeze
  imports Process_Identity Lifecycle_Agent
begin

section \<open>Cgroup freeze effects\<close>

text \<open>
  \<open>CgroupV2Controller\<close> of \<open>src/src/adapters/linux_process_lifecycle.rs\<close>, the freeze-only effects of
  \<open>src/src/adapters/process_lifecycle_freeze.rs\<close> and their attested variant of
  \<open>src/src/adapters/process_lifecycle_attested_freeze.rs\<close>. Durations and instants are unbounded
  numbers of nanoseconds, so that the panic of \<open>Instant + Duration\<close> on overflow is not modelled. The
  text of an I/O error is that of the platform: it is the parameter \<open>io_text\<close>. The CRIU controller
  of the first file is in \<open>Criu\<close>.
\<close>

subsection \<open>The cgroup controller\<close>

definition CGROUP_FREEZE_FILE :: string where
  "CGROUP_FREEZE_FILE = ''cgroup.freeze''"

definition CGROUP_EVENTS_FILE :: string where
  "CGROUP_EVENTS_FILE = ''cgroup.events''"

record CgroupV2Status =
  cg_populated :: bool
  cg_frozen :: bool

record CgroupV2Controller =
  cgroup_dir :: string

definition CgroupV2Controller_new :: "string \<Rightarrow> CgroupV2Controller" where
  [simp]: "CgroupV2Controller_new d = \<lparr>cgroup_dir = d\<rparr>"

datatype LinuxLifecycleError =
    LinuxIo io_kind
  | MissingCgroupEvent string
  | InvalidCgroupEvent string
  | InvalidPollInterval
  | FreezeTimeout
  | ThawTimeout

fun LinuxLifecycleError_fmt :: "(io_kind \<Rightarrow> string) \<Rightarrow> LinuxLifecycleError \<Rightarrow> string" where
  "LinuxLifecycleError_fmt io_text (LinuxIo k) = ''linux lifecycle I/O failed: '' @ io_text k"
| "LinuxLifecycleError_fmt io_text (MissingCgroupEvent key) = ''cgroup.events is missing '' @ key"
| "LinuxLifecycleError_fmt io_text (InvalidCgroupEvent key) = ''cgroup.events has invalid '' @ key"
| "LinuxLifecycleError_fmt io_text InvalidPollInterval = ''cgroup freeze poll interval must be positive''"
| "LinuxLifecycleError_fmt io_text FreezeTimeout = ''cgroup did not reach frozen state before timeout''"
| "LinuxLifecycleError_fmt io_text ThawTimeout = ''cgroup did not reach thawed state before timeout''"

type_synonym ('x, 'a) linux = "('x host_scheme, LinuxLifecycleError, 'a) eff"

text \<open>The value of the first line \<open><key> <value>\<close> with this key.\<close>

fun find_event :: "string \<Rightarrow> string list \<Rightarrow> string option" where
  "find_event key [] = None"
| "find_event key (l # ls) =
     (case split_once (CHR '' '') l of
        None \<Rightarrow> find_event key ls
      | Some (candidate, v) \<Rightarrow> if candidate = key then Some v else find_event key ls)"

definition parse_event_flag :: "string \<Rightarrow> string \<Rightarrow> LinuxLifecycleError + bool" where
  "parse_event_flag input key =
     (case find_event key (lines input) of
        None \<Rightarrow> Err (MissingCgroupEvent key)
      | Some v \<Rightarrow>
          (if v = ''0'' then Ok False
           else if v = ''1'' then Ok True
           else Err (InvalidCgroupEvent key)))"

definition request_freeze :: "CgroupV2Controller \<Rightarrow> ('x, unit) linux" where
  "request_freeze c =
     map_errE LinuxIo (write_file (path_join (cgroup_dir c) CGROUP_FREEZE_FILE) (''1'' @ [CHR 0x0A]))"

definition request_thaw :: "CgroupV2Controller \<Rightarrow> ('x, unit) linux" where
  "request_thaw c =
     map_errE LinuxIo (write_file (path_join (cgroup_dir c) CGROUP_FREEZE_FILE) (''0'' @ [CHR 0x0A]))"

definition status :: "CgroupV2Controller \<Rightarrow> ('x, CgroupV2Status) linux" where
  "status c =
     bindE (map_errE LinuxIo (read_to_string (path_join (cgroup_dir c) CGROUP_EVENTS_FILE))) (\<lambda>input.
     bindE (liftE (parse_event_flag input ''populated'')) (\<lambda>populated.
     bindE (liftE (parse_event_flag input ''frozen'')) (\<lambda>frozen.
     returnE \<lparr>cg_populated = populated, cg_frozen = frozen\<rparr>)))"

lemma now_status: "now w \<le> now (snd (status c w))"
  using now_elapse [of w 0]
  by (simp add: status_def bindE_def map_errE_def liftE_def returnE_def read_to_string_def split: sum.splits)

text \<open>The polling loop; \<open>Suc p\<close> is the poll interval, which is not zero.\<close>

function wait_loop :: "CgroupV2Controller \<Rightarrow> bool \<Rightarrow> nat \<Rightarrow> nat \<Rightarrow> ('x, unit) linux" where
  "wait_loop c expected_frozen deadline p w =
     (case status c w of
        (Err e, w1) \<Rightarrow> (Err e, w1)
      | (Ok s, w1) \<Rightarrow>
          (if cg_frozen s = expected_frozen then (Ok (), w1)
           else if deadline \<le> now w1 then (Err (if expected_frozen then FreezeTimeout else ThawTimeout), w1)
           else wait_loop c expected_frozen deadline p (elapse (Suc p) w1)))"
  by pat_completeness auto
termination
proof (relation "measure (\<lambda>(c, b, deadline, p, w). deadline - now w)", goal_cases)
  case (2 c b deadline p w y w1 s)
  have "now w \<le> now w1"
    using now_status [of w c] 2(1) by (metis snd_conv)
  moreover have "now w1 + Suc p \<le> now (elapse (Suc p) w1)"
    by (rule now_elapse)
  ultimately show ?case
    using 2 by auto
qed simp

declare wait_loop.simps [simp del]

definition wait_for_frozen_state ::
  "CgroupV2Controller \<Rightarrow> bool \<Rightarrow> nat \<Rightarrow> nat \<Rightarrow> ('x, unit) linux" where
  "wait_for_frozen_state c expected_frozen timeout poll_interval =
     (case poll_interval of
        0 \<Rightarrow> throwE InvalidPollInterval
      | Suc p \<Rightarrow> bindE instant_now (\<lambda>t. wait_loop c expected_frozen (t + timeout) p))"

definition wait_until_frozen :: "CgroupV2Controller \<Rightarrow> nat \<Rightarrow> nat \<Rightarrow> ('x, unit) linux" where
  "wait_until_frozen c = wait_for_frozen_state c True"

definition wait_until_thawed :: "CgroupV2Controller \<Rightarrow> nat \<Rightarrow> nat \<Rightarrow> ('x, unit) linux" where
  "wait_until_thawed c = wait_for_frozen_state c False"

subsection \<open>Freeze-only effects\<close>

definition DEFAULT_EFFECT_TIMEOUT :: nat where
  "DEFAULT_EFFECT_TIMEOUT = 5 * 1000000000"

definition DEFAULT_POLL_INTERVAL :: nat where
  "DEFAULT_POLL_INTERVAL = 20 * 1000000"

definition HIBERNATE_DISABLED :: string where
  "HIBERNATE_DISABLED = ''hibernate effects are disabled for freeze-only lifecycle adapter''"

record FreezeOnlyCgroupEffects =
  controller :: CgroupV2Controller
  effect_timeout :: nat
  poll_interval :: nat

definition FreezeOnlyCgroupEffects_new :: "CgroupV2Controller \<Rightarrow> FreezeOnlyCgroupEffects" where
  "FreezeOnlyCgroupEffects_new c =
     \<lparr>controller = c, effect_timeout = DEFAULT_EFFECT_TIMEOUT, poll_interval = DEFAULT_POLL_INTERVAL\<rparr>"

definition with_timing :: "CgroupV2Controller \<Rightarrow> nat \<Rightarrow> nat \<Rightarrow> FreezeOnlyCgroupEffects" where
  [simp]: "with_timing c timeout poll = \<lparr>controller = c, effect_timeout = timeout, poll_interval = poll\<rparr>"

definition freeze_effect :: "(io_kind \<Rightarrow> string) \<Rightarrow> FreezeOnlyCgroupEffects \<Rightarrow> ('x host_scheme, string, unit) eff" where
  "freeze_effect T f =
     bindE (map_errE (LinuxLifecycleError_fmt T) (request_freeze (controller f))) (\<lambda>_.
     map_errE (LinuxLifecycleError_fmt T) (wait_until_frozen (controller f) (effect_timeout f) (poll_interval f)))"

definition thaw_effect :: "(io_kind \<Rightarrow> string) \<Rightarrow> FreezeOnlyCgroupEffects \<Rightarrow> ('x host_scheme, string, unit) eff" where
  "thaw_effect T f =
     bindE (map_errE (LinuxLifecycleError_fmt T) (request_thaw (controller f))) (\<lambda>_.
     map_errE (LinuxLifecycleError_fmt T) (wait_until_thawed (controller f) (effect_timeout f) (poll_interval f)))"

definition freeze_status_effect ::
  "(io_kind \<Rightarrow> string) \<Rightarrow> FreezeOnlyCgroupEffects \<Rightarrow> ('x host_scheme, string, FreezeTransitionStatus) eff" where
  "freeze_status_effect T f =
     bindE (map_errE (LinuxLifecycleError_fmt T) (status (controller f))) (\<lambda>s.
     returnE \<lparr>status_populated = cg_populated s, status_frozen = cg_frozen s\<rparr>)"

text \<open>\<open>impl LifecycleEffects\<close> and \<open>FreezeTransitionEffects for FreezeOnlyCgroupEffects\<close>\<close>

definition freeze_only_effects ::
  "(io_kind \<Rightarrow> string) \<Rightarrow> FreezeOnlyCgroupEffects \<Rightarrow> 'x host_scheme FreezeTransitionEffects" where
  "freeze_only_effects T f =
     \<lparr>freeze = freeze_effect T f, thaw = thaw_effect T f,
      checkpoint_and_terminate = throwE HIBERNATE_DISABLED,
      restore = (\<lambda>_. throwE HIBERNATE_DISABLED),
      freeze_status = freeze_status_effect T f\<rparr>"

subsection \<open>Attested effects\<close>

definition IDENTITY_PREFIX :: string where
  "IDENTITY_PREFIX = ''lifecycle process identity attestation failed''"

record AttestedFreezeOnlyCgroupEffects =
  expected :: ExpectedLinuxProcessIdentity
  attestor :: LinuxProcessIdentityAttestor
  effects :: FreezeOnlyCgroupEffects

definition AttestedFreezeOnlyCgroupEffects_new :: "ExpectedLinuxProcessIdentity \<Rightarrow> AttestedFreezeOnlyCgroupEffects" where
  "AttestedFreezeOnlyCgroupEffects_new e =
     \<lparr>expected = e, attestor = default_attestor,
      effects = FreezeOnlyCgroupEffects_new (CgroupV2Controller_new (expected_cgroup e))\<rparr>"

definition with_attestor_and_timing ::
  "ExpectedLinuxProcessIdentity \<Rightarrow> LinuxProcessIdentityAttestor \<Rightarrow> nat \<Rightarrow> nat \<Rightarrow> AttestedFreezeOnlyCgroupEffects" where
  "with_attestor_and_timing e a timeout poll =
     \<lparr>expected = e, attestor = a,
      effects = with_timing (CgroupV2Controller_new (expected_cgroup e)) timeout poll\<rparr>"

definition attest_self :: "AttestedFreezeOnlyCgroupEffects \<Rightarrow> ('x host_scheme, string, unit) eff" where
  "attest_self x =
     map_errE (\<lambda>e. IDENTITY_PREFIX @ '': '' @ LinuxProcessIdentityError_fmt e)
       (bindE (attest (attestor x) (expected x)) (\<lambda>_. returnE ()))"

definition guarded_effect ::
  "AttestedFreezeOnlyCgroupEffects \<Rightarrow> ('x host_scheme, string, unit) eff \<Rightarrow> ('x host_scheme, string, unit) eff" where
  "guarded_effect x effect = bindE (attest_self x) (\<lambda>_. bindE effect (\<lambda>_. attest_self x))"

definition attested_effects ::
  "(io_kind \<Rightarrow> string) \<Rightarrow> AttestedFreezeOnlyCgroupEffects \<Rightarrow> 'x host_scheme FreezeTransitionEffects" where
  "attested_effects T x =
     \<lparr>freeze = guarded_effect x (freeze (freeze_only_effects T (effects x))),
      thaw = guarded_effect x (thaw (freeze_only_effects T (effects x))),
      checkpoint_and_terminate = checkpoint_and_terminate (freeze_only_effects T (effects x)),
      restore = restore (freeze_only_effects T (effects x)),
      freeze_status =
        bindE (attest_self x) (\<lambda>_.
        bindE (freeze_status (freeze_only_effects T (effects x))) (\<lambda>s.
        bindE (attest_self x) (\<lambda>_. returnE s)))\<rparr>"

subsection \<open>Lemmas\<close>

lemma touches_status: "touches A (status c)"
  unfolding status_def by (rule touches_rules touches_host_calls)+

lemma keeps_writes_status: "keeps_writes (status c)"
  unfolding status_def by (rule keeps_writes_rules)+

text \<open>What the loop leaves: nothing is written, time passes, and its result is what it last read.\<close>

lemma status_frame:
  assumes "status c w = (x, w1)"
  shows "writes w1 = writes w" and "kernel_of w1 = kernel_of w" and "nodes w1 = nodes w" and "history w1 = history w" and "pending w1 = pending w"
    and "now w \<le> now w1"
  using assms now_status [of w c]
  by (auto simp: status_def bindE_def map_errE_def liftE_def returnE_def read_to_string_def split: sum.splits)

lemma status_error: "status c w = (Err e, w1) \<Longrightarrow> e \<noteq> FreezeTimeout \<and> e \<noteq> ThawTimeout"
  by (auto simp: status_def eff_defs read_to_string_def parse_event_flag_def map_err_Err_iff
      split: sum.split_asm option.split_asm if_split_asm)

lemma wait_loop_post:
  assumes "wait_loop c b deadline p w = (r, w')"
  shows "writes w' = writes w \<and> kernel_of w' = kernel_of w \<and> nodes w' = nodes w \<and> history w' = history w \<and> pending w' = pending w
    \<and> now w \<le> now w'
    \<and> (r = Ok () \<longrightarrow> (\<exists>v s. now w \<le> now v \<and> writes v = writes w \<and> kernel_of v = kernel_of w
          \<and> status c v = (Ok s, w') \<and> cg_frozen s = b))
    \<and> (r = Err (if b then FreezeTimeout else ThawTimeout) \<longrightarrow> deadline \<le> now w')"
  using assms
proof (induction c b deadline p w rule: wait_loop.induct)
  case (1 c b deadline p w)
  note IH = 1(1) and run = 1(2)
  obtain x w1 where st: "status c w = (x, w1)"
    by fastforce
  note same = status_frame [OF st]
  show ?case
  proof (cases x)
    case (Inl e)
    then show ?thesis
      using run st same status_error [of c w e w1] by (auto simp: wait_loop.simps [of c b deadline p w])
  next
    case (Inr s)
    show ?thesis
    proof (cases "cg_frozen s = b \<or> deadline \<le> now w1")
      case True
      then show ?thesis
        using run st Inr same by (auto simp: wait_loop.simps [of c b deadline p w] split: if_splits)
    next
      case False
      then have go: "cg_frozen s \<noteq> b" "\<not> deadline \<le> now w1"
        by simp_all
      then have "wait_loop c b deadline p (elapse (Suc p) w1) = (r, w')"
        using run st Inr by (simp add: wait_loop.simps [of c b deadline p w])
      from IH [OF st [symmetric] Inr go this]
      have ih: "writes w' = writes w1 \<and> kernel_of w' = kernel_of w1 \<and> nodes w' = nodes w1 \<and> history w' = history w1 \<and> pending w' = pending w1
        \<and> now (elapse (Suc p) w1) \<le> now w'
        \<and> (r = Ok () \<longrightarrow> (\<exists>v s. now (elapse (Suc p) w1) \<le> now v \<and> writes v = writes w1 \<and> kernel_of v = kernel_of w1
              \<and> status c v = (Ok s, w') \<and> cg_frozen s = b))
        \<and> (r = Err (if b then FreezeTimeout else ThawTimeout) \<longrightarrow> deadline \<le> now w')"
        by simp
      have "now w \<le> now (elapse (Suc p) w1)"
        using same(6) now_elapse [of w1 "Suc p"] by linarith
      then show ?thesis
        using ih same by (auto intro: order_trans)
    qed
  qed
qed

lemma wait_for_frozen_state_post:
  assumes "wait_for_frozen_state c b timeout poll w = (r, w')"
  shows "writes w' = writes w \<and> kernel_of w' = kernel_of w \<and> nodes w' = nodes w \<and> history w' = history w \<and> pending w' = pending w
    \<and> now w \<le> now w'
    \<and> (r = Ok () \<longrightarrow> (\<exists>v s. now w \<le> now v \<and> writes v = writes w \<and> kernel_of v = kernel_of w
          \<and> status c v = (Ok s, w') \<and> cg_frozen s = b))
    \<and> (r = Err (if b then FreezeTimeout else ThawTimeout) \<longrightarrow> now w + timeout \<le> now w')"
proof (cases poll)
  case 0
  then show ?thesis
    using assms by (auto simp: wait_for_frozen_state_def throwE_def)
next
  case (Suc p)
  then have "wait_loop c b (now w + timeout) p w = (r, w')"
    using assms by (simp add: wait_for_frozen_state_def instant_now_def bindE_def)
  from wait_loop_post [OF this] show ?thesis .
qed

lemma touches_same_files:
  "(\<And>w. nodes (snd (m w)) = nodes w \<and> history (snd (m w)) = history w \<and> pending (snd (m w)) = pending w) \<Longrightarrow>
   touches A m"
  by (simp add: touches_def extends_same_files)

lemma touches_wait: "touches A (wait_for_frozen_state c b timeout poll)"
  using wait_for_frozen_state_post [OF surjective_pairing] by (intro touches_same_files) blast

lemma keeps_writes_wait: "keeps_writes (wait_for_frozen_state c b timeout poll)"
  unfolding keeps_writes_def using wait_for_frozen_state_post by blast

lemma touches_freeze_only:
  "touches A (freeze (freeze_only_effects T f))" "touches A (thaw (freeze_only_effects T f))"
  "touches A (checkpoint_and_terminate (freeze_only_effects T f))" "touches A (restore (freeze_only_effects T f) k)"
  "touches A (freeze_status (freeze_only_effects T f))"
  unfolding freeze_only_effects_def freeze_effect_def thaw_effect_def freeze_status_effect_def
    request_freeze_def request_thaw_def wait_until_frozen_def wait_until_thawed_def
  by (simp_all, (rule touches_rules touches_host_calls touches_wait touches_status)+)

lemma touches_attest_self: "touches A (attest_self x)"
  unfolding attest_self_def by (rule touches_rules touches_attest)+

lemma touches_attested:
  "touches A (freeze (attested_effects T x))" "touches A (thaw (attested_effects T x))"
  "touches A (checkpoint_and_terminate (attested_effects T x))" "touches A (restore (attested_effects T x) k)"
  "touches A (freeze_status (attested_effects T x))"
  unfolding attested_effects_def guarded_effect_def
  by (simp_all, (rule touches_rules touches_freeze_only touches_attest_self)+)

text \<open>What a cgroup write and the wait for its completion do to the kernel files.\<close>

lemma write_file_cases:
  assumes "write_file p b w = (r, w')"
  shows "kernel_of w' = kernel_of w \<and> now w \<le> now w' \<and>
    (is_Err r \<and> writes w' = writes w \<or> r = Ok () \<and> writes w' = writes w @ [(now w, p, b)])"
  using assms now_elapse [of w 0] now_elapse [of "w\<lparr>writes := writes w @ [(now w, p, b)]\<rparr>" 0]
  by (cases "k_write (kernel_of w) (writes w) (now w) p b") (auto simp: write_file_def is_Err_def split: sum.splits)

definition confirmed :: "CgroupV2Controller \<Rightarrow> bool \<Rightarrow> 'x host_scheme \<Rightarrow> nat \<Rightarrow> 'x host_scheme \<Rightarrow> bool" where
  "confirmed c b w t w' \<longleftrightarrow>
     (\<exists>t' s. t \<le> t' \<and> t' \<le> now w'
        \<and> k_read (kernel_of w) (writes w') t' (path_join (cgroup_dir c) CGROUP_EVENTS_FILE) = Ok s
        \<and> parse_event_flag s ''frozen'' = Ok b)"

lemma status_read:
  assumes "status c v = (Ok s, w')"
  shows "\<exists>i. k_read (kernel_of v) (writes v) (now v) (path_join (cgroup_dir c) CGROUP_EVENTS_FILE) = Ok i
    \<and> parse_event_flag i ''frozen'' = Ok (cg_frozen s) \<and> now v \<le> now w'"
proof -
  obtain i w1 where i: "read_to_string (path_join (cgroup_dir c) CGROUP_EVENTS_FILE) v = (Ok i, w1)"
    "parse_event_flag i ''frozen'' = Ok (cg_frozen s)" "w1 = w'"
    using assms by (auto simp: status_def eff_Ok_iff)
  then show ?thesis
    using read_to_string_Ok [OF i(1)] by auto
qed

lemma effect_post:
  assumes "bindE (map_errE (LinuxLifecycleError_fmt T)
        (map_errE LinuxIo (write_file (path_join (cgroup_dir c) CGROUP_FREEZE_FILE) v))) (\<lambda>_.
      map_errE (LinuxLifecycleError_fmt T) (wait_for_frozen_state c b timeout poll)) w = (r, w')"
  shows "kernel_of w' = kernel_of w \<and> now w \<le> now w' \<and>
    (is_Err r \<and> writes w' = writes w \<or>
     writes w' = writes w @ [(now w, path_join (cgroup_dir c) CGROUP_FREEZE_FILE, v)]
       \<and> (r = Ok () \<longrightarrow> confirmed c b w (now w) w'))"
proof -
  obtain x w1 where wr: "write_file (path_join (cgroup_dir c) CGROUP_FREEZE_FILE) v w = (x, w1)"
    by fastforce
  note wc = write_file_cases [OF wr]
  show ?thesis
  proof (cases x)
    case (Inl e)
    then show ?thesis
      using assms wr wc by (auto simp: bindE_def map_errE_def)
  next
    case (Inr u)
    obtain y where wait: "wait_for_frozen_state c b timeout poll w1 = (y, w')" and r: "r = map_err (LinuxLifecycleError_fmt T) y"
      using assms wr Inr by (auto simp: bindE_def map_errE_def split: prod.splits)
    note post = wait_for_frozen_state_post [OF wait]
    have ws: "writes w1 = writes w @ [(now w, path_join (cgroup_dir c) CGROUP_FREEZE_FILE, v)]"
      using wc Inr by auto
    have "confirmed c b w (now w) w'" if ok: "r = Ok ()"
    proof -
      have "y = Ok ()"
        using r ok by (cases y) auto
      then obtain z s where z: "now w1 \<le> now z" "writes z = writes w1" "kernel_of z = kernel_of w1"
        "status c z = (Ok s, w')" "cg_frozen s = b"
        using post by blast
      obtain i where i: "k_read (kernel_of z) (writes z) (now z) (path_join (cgroup_dir c) CGROUP_EVENTS_FILE) = Ok i"
        "parse_event_flag i ''frozen'' = Ok (cg_frozen s)" "now z \<le> now w'"
        using status_read [OF z(4)] by blast
      have "k_read (kernel_of w) (writes w') (now z) (path_join (cgroup_dir c) CGROUP_EVENTS_FILE) = Ok i"
        using i(1) z wc post by simp
      moreover have "now w \<le> now z"
        using wc z(1) by linarith
      ultimately show ?thesis
        unfolding confirmed_def using i(2,3) z(5) by blast
    qed
    then show ?thesis
      using post wc ws by auto
  qed
qed

lemma attest_self_post:
  assumes "attest_self x w = (r, w')"
  shows "writes w' = writes w \<and> kernel_of w' = kernel_of w \<and> now w \<le> now w'"
    "r = Ok () \<Longrightarrow> fst (attest (attestor x) (expected x) w) = Ok (expected x)"
proof -
  have "keeps_writes (attest_self x)"
    unfolding attest_self_def by (rule keeps_writes_rules keeps_writes_attest)+
  then show "writes w' = writes w \<and> kernel_of w' = kernel_of w \<and> now w \<le> now w'"
    using assms by (rule keeps_writesD)
  show "fst (attest (attestor x) (expected x) w) = Ok (expected x)" if ok: "r = Ok ()"
  proof -
    obtain y v where run: "attest (attestor x) (expected x) w = (Ok y, v)"
      using assms ok by (auto simp: attest_self_def eff_Ok_iff)
    have "y = expected x"
      using run by (rule attest_Ok)
    with run show ?thesis by simp
  qed
qed

text \<open>The controller of attested effects is always that of the attested cgroup.\<close>

definition bound_effects :: "AttestedFreezeOnlyCgroupEffects \<Rightarrow> bool" where
  "bound_effects x \<longleftrightarrow> cgroup_dir (controller (effects x)) = expected_cgroup (expected x)"

lemma bound_effects_constructors:
  "bound_effects (AttestedFreezeOnlyCgroupEffects_new e)" "bound_effects (with_attestor_and_timing e a t p)"
  by (simp_all add: bound_effects_def AttestedFreezeOnlyCgroupEffects_new_def FreezeOnlyCgroupEffects_new_def
      with_attestor_and_timing_def)

lemma guarded_write_post:
  assumes run: "guarded_effect x (bindE (map_errE (LinuxLifecycleError_fmt T)
        (map_errE LinuxIo (write_file (path_join (cgroup_dir c) CGROUP_FREEZE_FILE) v))) (\<lambda>_.
      map_errE (LinuxLifecycleError_fmt T) (wait_for_frozen_state c b timeout poll))) w = (r, w')"
  shows "is_Err r \<and> writes w' = writes w \<or>
    fst (attest (attestor x) (expected x) w) = Ok (expected x)
    \<and> (\<exists>t. now w \<le> t \<and> writes w' = writes w @ [(t, path_join (cgroup_dir c) CGROUP_FREEZE_FILE, v)]
        \<and> (r = Ok () \<longrightarrow> (\<exists>w2. kernel_of w2 = kernel_of w \<and> writes w2 = writes w' \<and> confirmed c b w t w2
              \<and> fst (attest (attestor x) (expected x) w2) = Ok (expected x))))"
proof -
  let ?m = "bindE (map_errE (LinuxLifecycleError_fmt T)
        (map_errE LinuxIo (write_file (path_join (cgroup_dir c) CGROUP_FREEZE_FILE) v))) (\<lambda>_.
      map_errE (LinuxLifecycleError_fmt T) (wait_for_frozen_state c b timeout poll))"
  obtain y1 w1 where a1: "attest_self x w = (y1, w1)"
    by fastforce
  note p1 = attest_self_post [OF a1]
  show ?thesis
  proof (cases y1)
    case (Inl e)
    then show ?thesis
      using run a1 p1 by (auto simp: guarded_effect_def bindE_def)
  next
    case (Inr u1)
    obtain y2 w2 where m: "?m w1 = (y2, w2)"
      by fastforce
    note p2 = effect_post [OF m]
    have att: "fst (attest (attestor x) (expected x) w) = Ok (expected x)"
      using p1(2) Inr by simp
    show ?thesis
    proof (cases y2)
      case (Inl e)
      then have "r = Err e" "w' = w2"
        using run a1 Inr m by (auto simp: guarded_effect_def bindE_def [of "attest_self x"] bindE_def [of ?m])
      then show ?thesis
        using p1 p2 att Inl by auto
    next
      case Inr2: (Inr u2)
      have last: "attest_self x w2 = (r, w')"
        using run a1 Inr m Inr2 by (simp add: guarded_effect_def bindE_def [of "attest_self x"] bindE_def [of ?m])
      note p3 = attest_self_post [OF last]
      have "confirmed c b w (now w1) w2"
        using p1 p2 Inr2 by (auto simp: confirmed_def)
      then show ?thesis
        using p1 p2 p3 att Inr2 by auto
    qed
  qed
qed

subsection \<open>The wait is bounded\<close>

definition time_budget :: "'x host_scheme \<Rightarrow> nat" where
  "time_budget w = now w + sum_list (lags w)"

lemma elapse_budget:
  "time_budget (elapse d w) = time_budget w + d" "sum_list (lags (elapse d w)) \<le> sum_list (lags w)"
  by (auto simp: time_budget_def elapse_def split: list.splits)

lemma status_budget:
  "time_budget (snd (status c w)) = time_budget w" "sum_list (lags (snd (status c w))) \<le> sum_list (lags w)"
  using elapse_budget [of 0 w]
  by (simp_all add: status_def bindE_def map_errE_def liftE_def returnE_def read_to_string_def split: sum.splits)

lemma wait_loop_budget:
  assumes "time_budget w \<le> B" and "deadline + p + sum_list (lags w) \<le> B"
  shows "time_budget (snd (wait_loop c b deadline p w)) \<le> B"
  using assms
proof (induction c b deadline p w rule: wait_loop.induct)
  case (1 c b deadline p w)
  obtain x w1 where st: "status c w = (x, w1)"
    by fastforce
  have bud: "time_budget w1 = time_budget w" "sum_list (lags w1) \<le> sum_list (lags w)"
    using status_budget [where c = c and w = w] st by auto
  show ?case
  proof (cases "\<exists>s. x = Ok s \<and> cg_frozen s \<noteq> b \<and> \<not> deadline \<le> now w1")
    case False
    then show ?thesis
      using st bud 1(2) by (auto simp: wait_loop.simps [of c b deadline p w] split: sum.split)
  next
    case True
    then obtain s where s: "x = Ok s" "cg_frozen s \<noteq> b" "\<not> deadline \<le> now w1"
      by blast
    have "time_budget (elapse (Suc p) w1) \<le> B"
      using s(3) bud(2) 1(3) elapse_budget(1) [of "Suc p" w1] by (simp add: time_budget_def)
    moreover have "deadline + p + sum_list (lags (elapse (Suc p) w1)) \<le> B"
      using elapse_budget(2) [of "Suc p" w1] bud(2) 1(3) by linarith
    ultimately show ?thesis
      using 1(1) [OF st [symmetric] s] st s by (simp add: wait_loop.simps [of c b deadline p w])
  qed
qed

subsection \<open>Properties\<close>

text \<open>
  C37: waiting for the kernel ends. The polling loop of \<open>wait_for_frozen_state\<close> returns, and no later
  than one poll interval after its deadline, plus the time that the host takes away from it (the sum
  of the lags).
\<close>

theorem wait_for_frozen_state_bounded:
  "now (snd (wait_for_frozen_state c b timeout poll w)) \<le> now w + timeout + poll + sum_list (lags w)"
proof (cases poll)
  case 0
  then show ?thesis by (simp add: wait_for_frozen_state_def throwE_def)
next
  case (Suc p)
  let ?w = "snd (wait_loop c b (now w + timeout) p w)"
  have "time_budget ?w \<le> now w + timeout + poll + sum_list (lags w)"
    using Suc by (intro wait_loop_budget) (simp_all add: time_budget_def)
  then show ?thesis
    using Suc by (simp add: wait_for_frozen_state_def instant_now_def bindE_def time_budget_def)
qed

text \<open>
  C38: a freeze acts only on the attested process's own cgroup. For every kernel: when the attested
  effect returns, either it failed and wrote nothing, or the attestation before it succeeded and the
  only write is \<open>1\<close> to \<open>cgroup.freeze\<close> of the cgroup that was attested. If it returns \<open>Ok\<close>, the kernel
  reported the cgroup frozen after the write, and the process was attested again after that.
\<close>

theorem attested_freeze_is_confined:
  assumes "x = with_attestor_and_timing e a timeout poll" and "freeze (attested_effects T x) w = (r, w')"
  shows "is_Err r \<and> writes w' = writes w \<or>
    fst (attest a e w) = Ok e
    \<and> (\<exists>t. now w \<le> t
        \<and> writes w' = writes w @ [(t, path_join (expected_cgroup e) CGROUP_FREEZE_FILE, ''1'' @ [CHR 0x0A])]
        \<and> (r = Ok () \<longrightarrow> (\<exists>w2. writes w2 = writes w' \<and> confirmed \<lparr>cgroup_dir = expected_cgroup e\<rparr> True w t w2
              \<and> fst (attest a e w2) = Ok e)))"
proof -
  have x: "expected x = e" "attestor x = a" "controller (effects x) = \<lparr>cgroup_dir = expected_cgroup e\<rparr>"
    using assms(1) by (simp_all add: with_attestor_and_timing_def)
  have "guarded_effect x (bindE (map_errE (LinuxLifecycleError_fmt T) (map_errE LinuxIo
        (write_file (path_join (cgroup_dir \<lparr>cgroup_dir = expected_cgroup e\<rparr>) CGROUP_FREEZE_FILE) (''1'' @ [CHR 0x0A])))) (\<lambda>_.
      map_errE (LinuxLifecycleError_fmt T) (wait_for_frozen_state \<lparr>cgroup_dir = expected_cgroup e\<rparr> True
        (effect_timeout (effects x)) (poll_interval (effects x))))) w = (r, w')"
    using assms(2) x by (simp add: attested_effects_def freeze_only_effects_def freeze_effect_def request_freeze_def
        wait_until_frozen_def)
  from guarded_write_post [OF this] show ?thesis
    using x by auto
qed

text \<open>
  a thaw acts only on the attested process's own cgroup, in the same sense, with \<open>0\<close> written and
  the cgroup confirmed thawed.
\<close>

theorem attested_thaw_is_confined:
  assumes "x = with_attestor_and_timing e a timeout poll" and "thaw (attested_effects T x) w = (r, w')"
  shows "is_Err r \<and> writes w' = writes w \<or>
    fst (attest a e w) = Ok e
    \<and> (\<exists>t. now w \<le> t
        \<and> writes w' = writes w @ [(t, path_join (expected_cgroup e) CGROUP_FREEZE_FILE, ''0'' @ [CHR 0x0A])]
        \<and> (r = Ok () \<longrightarrow> (\<exists>w2. writes w2 = writes w' \<and> confirmed \<lparr>cgroup_dir = expected_cgroup e\<rparr> False w t w2
              \<and> fst (attest a e w2) = Ok e)))"
proof -
  have x: "expected x = e" "attestor x = a" "controller (effects x) = \<lparr>cgroup_dir = expected_cgroup e\<rparr>"
    using assms(1) by (simp_all add: with_attestor_and_timing_def)
  have "guarded_effect x (bindE (map_errE (LinuxLifecycleError_fmt T) (map_errE LinuxIo
        (write_file (path_join (cgroup_dir \<lparr>cgroup_dir = expected_cgroup e\<rparr>) CGROUP_FREEZE_FILE) (''0'' @ [CHR 0x0A])))) (\<lambda>_.
      map_errE (LinuxLifecycleError_fmt T) (wait_for_frozen_state \<lparr>cgroup_dir = expected_cgroup e\<rparr> False
        (effect_timeout (effects x)) (poll_interval (effects x))))) w = (r, w')"
    using assms(2) x by (simp add: attested_effects_def freeze_only_effects_def thaw_effect_def request_thaw_def
        wait_until_thawed_def)
  from guarded_write_post [OF this] show ?thesis
    using x by auto
qed

definition sample_effects :: AttestedFreezeOnlyCgroupEffects where
  "sample_effects = with_attestor_and_timing sample_identity default_attestor 5 1"

lemma sample_attest_self:
  assumes "kernel_of w = sample_kernel"
  shows "\<exists>w'. attest_self sample_effects w = (Ok (), w') \<and> kernel_of w' = sample_kernel \<and> writes w' = writes w"
proof -
  obtain r w' where run: "attest_self sample_effects w = (r, w')"
    by fastforce
  have "r = Ok ()"
    using run sample_attests [OF assms]
    by (auto simp: sample_effects_def with_attestor_and_timing_def attest_self_def eff_defs split: prod.splits)
  then show ?thesis
    using run attest_self_post(1) [OF run] assms by auto
qed

lemma sample_events:
  "parse_event_flag (''populated 1'' @ [CHR 0x0A] @ ''frozen '' @ ''1'') ''frozen'' = Ok True"
  "parse_event_flag (''populated 1'' @ [CHR 0x0A] @ ''frozen '' @ ''1'') ''populated'' = Ok True"
  "parse_event_flag (''populated 1'' @ [CHR 0x0A] @ ''frozen '' @ ''0'') ''frozen'' = Ok False"
  "parse_event_flag (''populated 1'' @ [CHR 0x0A] @ ''frozen '' @ ''0'') ''populated'' = Ok True"
  "valid_utf8 (''populated 1'' @ [CHR 0x0A] @ ''frozen '' @ ''0'')"
  "valid_utf8 (''populated 1'' @ [CHR 0x0A] @ ''frozen '' @ ''1'')"
  "path_join ''/sys/fs/cgroup/t'' CGROUP_EVENTS_FILE = ''/sys/fs/cgroup/t/cgroup.events''"
  by code_simp+

lemma sample_status:
  assumes "kernel_of w = sample_kernel" and "writes w = ws @ [(t, p, v)]" and "take 1 v = (if b then ''1'' else ''0'')"
  shows "status \<lparr>cgroup_dir = ''/sys/fs/cgroup/t''\<rparr> w = (Ok \<lparr>cg_populated = True, cg_frozen = b\<rparr>, elapse 0 w)"
proof -
  have "read_to_string ''/sys/fs/cgroup/t/cgroup.events'' w =
      (Ok (''populated 1'' @ [CHR 0x0A] @ ''frozen '' @ (if b then ''1'' else ''0'')), elapse 0 w)"
    using assms sample_events(5,6) by (simp add: read_to_string_def sample_kernel_def)
  then show ?thesis
    using sample_events by (cases b) (simp_all add: status_def bindE_def map_errE_def liftE_def returnE_def)
qed

lemma sample_run:
  assumes "kernel_of w = sample_kernel" and "take 1 v = (if b then ''1'' else ''0'')"
  shows "\<exists>w'. guarded_effect sample_effects (bindE (map_errE (LinuxLifecycleError_fmt T)
        (map_errE LinuxIo (write_file p v))) (\<lambda>_.
      map_errE (LinuxLifecycleError_fmt T) (wait_for_frozen_state \<lparr>cgroup_dir = ''/sys/fs/cgroup/t''\<rparr> b 5 1))) w = (Ok (), w')"
proof -
  obtain w1 where w1: "attest_self sample_effects w = (Ok (), w1)" "kernel_of w1 = sample_kernel"
    using sample_attest_self [OF assms(1)] by blast
  let ?w2 = "elapse 0 (w1\<lparr>writes := writes w1 @ [(now w1, p, v)]\<rparr>)"
  have wr: "write_file p v w1 = (Ok (), ?w2)"
    using w1(2) by (simp add: write_file_def sample_kernel_def)
  have k2: "kernel_of ?w2 = sample_kernel"
    using w1(2) by simp
  have "status \<lparr>cgroup_dir = ''/sys/fs/cgroup/t''\<rparr> ?w2 = (Ok \<lparr>cg_populated = True, cg_frozen = b\<rparr>, elapse 0 ?w2)"
    using k2 assms(2) by (intro sample_status) auto
  then have wait: "wait_for_frozen_state \<lparr>cgroup_dir = ''/sys/fs/cgroup/t''\<rparr> b 5 1 ?w2 = (Ok (), elapse 0 ?w2)"
    by (simp add: wait_for_frozen_state_def instant_now_def bindE_def wait_loop.simps)
  obtain w3 where "attest_self sample_effects (elapse 0 ?w2) = (Ok (), w3)"
    using sample_attest_self [of "elapse 0 ?w2"] k2 by auto
  then show ?thesis
    using w1(1) wr wait by (simp add: guarded_effect_def bindE_def map_errE_def)
qed

theorem attested_freeze_is_confined_witness:
  "\<exists>w' t. freeze (attested_effects (\<lambda>_. []) sample_effects) sample_host = (Ok (), w')
     \<and> writes w' = [(t, ''/sys/fs/cgroup/t/cgroup.freeze'', ''1'' @ [CHR 0x0A])]"
proof -
  have "kernel_of sample_host = sample_kernel"
    by (simp add: sample_host_def)
  then obtain w' where run: "freeze (attested_effects (\<lambda>_. []) sample_effects) sample_host = (Ok (), w')"
    using sample_run [of sample_host "''1'' @ [CHR 0x0A]" True]
    by (auto simp: attested_effects_def freeze_only_effects_def freeze_effect_def request_freeze_def
        wait_until_frozen_def sample_effects_def with_attestor_and_timing_def sample_identity_def)
  have "path_join (expected_cgroup sample_identity) CGROUP_FREEZE_FILE = ''/sys/fs/cgroup/t/cgroup.freeze''"
    by code_simp
  with attested_freeze_is_confined [OF sample_effects_def run] run show ?thesis
    by (auto simp: sample_host_def)
qed

theorem attested_thaw_is_confined_witness:
  "\<exists>w' t. thaw (attested_effects (\<lambda>_. []) sample_effects) sample_host = (Ok (), w')
     \<and> writes w' = [(t, ''/sys/fs/cgroup/t/cgroup.freeze'', ''0'' @ [CHR 0x0A])]"
proof -
  have "kernel_of sample_host = sample_kernel"
    by (simp add: sample_host_def)
  then obtain w' where run: "thaw (attested_effects (\<lambda>_. []) sample_effects) sample_host = (Ok (), w')"
    using sample_run [of sample_host "''0'' @ [CHR 0x0A]" False]
    by (auto simp: attested_effects_def freeze_only_effects_def thaw_effect_def request_thaw_def
        wait_until_thawed_def sample_effects_def with_attestor_and_timing_def sample_identity_def)
  have "path_join (expected_cgroup sample_identity) CGROUP_FREEZE_FILE = ''/sys/fs/cgroup/t/cgroup.freeze''"
    by code_simp
  with attested_thaw_is_confined [OF sample_effects_def run] run show ?thesis
    by (auto simp: sample_host_def)
qed

end
