(* ===== verification/Host_Control.thy ===== *)
theory Host_Control
  imports Product_Control Cgroup_Freeze
begin

section \<open>The trusted host controller\<close>

text \<open>
  \<open>TrustedHostControlClient\<close> of \<open>src/src/process_lifecycle_runtime/host_control.rs\<close> and the adapter that pins one
  workload, \<open>src/src/adapters/process_lifecycle_host_control.rs\<close>. A snapshot of the host is read from its
  socket, decoded and checked; the decoder and the encoder of \<open>serde_json\<close> are the parameter \<open>host_json\<close>.
  The theorems characterise the snapshots that pass the check, say that the splitting of an answer into
  chunks does not matter, and that observations and admissions concern exactly the pinned incarnation.
\<close>

definition HOST_PROTOCOL_VERSION :: u32 where
  "HOST_PROTOCOL_VERSION = 2"

definition MAX_HOST_RESPONSE_BYTES :: nat where
  "MAX_HOST_RESPONSE_BYTES = 256 * 1024"

definition MAX_HOST_REQUEST_BYTES :: nat where
  "MAX_HOST_REQUEST_BYTES = 16 * 1024"

definition MAX_WORKLOADS :: nat where
  "MAX_WORKLOADS = 1024"

definition MAX_HOST_IDENTITY_BYTES :: nat where
  "MAX_HOST_IDENTITY_BYTES = 96"

definition POLICY_DIGEST_BYTES :: nat where
  "POLICY_DIGEST_BYTES = 71"

record TrustedWorkloadSnapshot =
  tw_workload_id :: string
  tw_assigned_node :: string
  tw_runtime_epoch :: u64
  tw_placement_epoch :: u64
  tw_pid :: u32
  tw_process_start_ticks :: u64
  tw_managed_cgroup :: string
  tw_isolation_policy_digest :: string
  tw_queue_depth :: u64
  tw_in_flight :: u64
  tw_idle_for_ms :: u64
  tw_routable :: bool

record TrustedHostSnapshot =
  snap_version :: u32
  workloads :: "TrustedWorkloadSnapshot list"

record TrustedHostAdmission =
  ta_workload_id :: string
  ta_assigned_node :: string
  ta_runtime_epoch :: u64
  ta_placement_epoch :: u64
  ta_pid :: u32
  ta_process_start_ticks :: u64
  ta_managed_cgroup :: string
  ta_isolation_policy_digest :: string
  ta_fencing_token :: u64

record TrustedHostControlClient =
  host_socket_path :: string
  host_cgroup_root :: string
  expected_node :: string

record host_json =
  decode_snapshot :: "string \<Rightarrow> TrustedHostSnapshot option"
  encode_admission :: "TrustedHostAdmission \<Rightarrow> string option"

definition TrustedHostControlClient_new :: "LifecycleAgentConfig \<Rightarrow> TrustedHostControlClient" where
  "TrustedHostControlClient_new c =
     \<lparr>host_socket_path = host_control_socket c, host_cgroup_root = cgroup_root c, expected_node = node_name c\<rparr>"

subsection \<open>Checks\<close>

definition validate_managed_cgroup :: "string \<Rightarrow> string \<Rightarrow> LifecycleRuntimeError + unit" where
  "validate_managed_cgroup p root =
     (if \<not> is_absolute p \<or> path_eq p root \<or> \<not> path_starts_with root p then Err InvalidHostControlResponse
      else if has_traversal p then Err InvalidHostControlResponse
      else Ok ())"

definition validate_policy_digest :: "string \<Rightarrow> LifecycleRuntimeError + unit" where
  "validate_policy_digest v =
     (if length v \<noteq> POLICY_DIGEST_BYTES \<or> \<not> starts_with ''sha256:'' v then Err InvalidHostControlResponse
      else
        (let digest = drop 7 v in
         if length digest \<noteq> 64 \<or> \<not> list_all (\<lambda>c. is_ascii_hexdigit c \<and> \<not> is_ascii_uppercase c) digest
         then Err InvalidHostControlResponse else Ok ()))"

definition validate_identity :: "string \<Rightarrow> LifecycleRuntimeError + unit" where
  "validate_identity v =
     (if \<not> (v \<noteq> [] \<and> length v \<le> MAX_HOST_IDENTITY_BYTES
            \<and> list_all (\<lambda>c. is_ascii_alphanumeric c \<or> c \<in> {CHR ''-'', CHR ''_'', CHR ''.'', CHR '':''}) v)
      then Err InvalidHostControlResponse else Ok ())"

definition validate_workload ::
  "TrustedWorkloadSnapshot \<Rightarrow> string \<Rightarrow> string \<Rightarrow> LifecycleRuntimeError + unit" where
  "validate_workload t root node =
     bindR (validate_identity (tw_workload_id t)) (\<lambda>_.
     bindR (validate_identity (tw_assigned_node t)) (\<lambda>_.
     if tw_assigned_node t \<noteq> node then Err HostIdentityMismatch
     else if tw_runtime_epoch t = 0 \<or> tw_placement_epoch t = 0 \<or> tw_pid t = 0 \<or> tw_process_start_ticks t = 0
     then Err InvalidHostControlResponse
     else if tw_queue_depth t > I64_MAX \<or> tw_in_flight t > I64_MAX \<or> tw_idle_for_ms t > I64_MAX
     then Err InvalidHostControlResponse
     else
       bindR (validate_policy_digest (tw_isolation_policy_digest t)) (\<lambda>_.
       validate_managed_cgroup (tw_managed_cgroup t) root)))"

text \<open>
  The source collects ids, process identities and cgroups into \<open>BTreeSet\<close>s and compares the sizes with the
  number of workloads. Paths are compared by their components.
\<close>

definition validate_snapshot :: "TrustedHostSnapshot \<Rightarrow> string \<Rightarrow> string \<Rightarrow> LifecycleRuntimeError + unit" where
  "validate_snapshot s root node =
     (if snap_version s \<noteq> HOST_PROTOCOL_VERSION \<or> length (workloads s) > MAX_WORKLOADS
      then Err InvalidHostControlResponse
      else
        bindR (check_all (\<lambda>t. validate_workload t root node) (workloads s)) (\<lambda>_.
        if card (set (map tw_workload_id (workloads s))) \<noteq> length (workloads s)
           \<or> card (set (map (\<lambda>t. (tw_pid t, tw_process_start_ticks t)) (workloads s))) \<noteq> length (workloads s)
           \<or> card (set (map (components \<circ> tw_managed_cgroup) (workloads s))) \<noteq> length (workloads s)
        then Err InvalidHostControlResponse else Ok ()))"

subsection \<open>Reading the answer\<close>

definition host_finish_response :: "bytes \<Rightarrow> LifecycleRuntimeError + string" where
  "host_finish_response b =
     (if b = [] \<or> last b \<noteq> CHR 0x0A then Err InvalidHostControlResponse
      else
        (let line = butlast b in
         if line = [] \<or> CHR 0x0A \<in> set line \<or> CHR 0x0D \<in> set line then Err InvalidHostControlResponse
         else if \<not> valid_utf8 line then Err InvalidHostControlResponse
         else if trim line \<noteq> line then Err InvalidHostControlResponse
         else Ok line))"

function host_read_response :: "(io_kind + bytes) list \<Rightarrow> bytes \<Rightarrow> LifecycleRuntimeError + string" where
  "host_read_response cs b =
     (case stream_read 4096 cs of
        (Err _, _) \<Rightarrow> Err HostControlUnavailable
      | (Ok chunk, cs') \<Rightarrow>
          if chunk = [] then host_finish_response b
          else if length (b @ chunk) > MAX_HOST_RESPONSE_BYTES then Err HostControlResponseTooLarge
          else host_read_response cs' (b @ chunk))"
  by pat_completeness auto
termination
proof (relation "measure (\<lambda>(cs, _). stream_bytes cs)", goal_cases)
  case (2 cs b x cs' chunk)
  then show ?case
    using stream_read_decreases [of 4096 cs chunk cs'] by auto
qed simp

declare host_read_response.simps [simp del]

subsection \<open>Requests\<close>

definition host_configure_timeouts :: "unix_stream \<Rightarrow> ('x, unit) agent" where
  "host_configure_timeouts s = map_errE (\<lambda>_. HostControlUnavailable) (set_timeouts s)"

definition host_write_request :: "unix_stream \<Rightarrow> bytes \<Rightarrow> ('x, string) agent" where
  "host_write_request s req =
     bindE (map_errE (\<lambda>_. HostControlUnavailable) (stream_write_all s req)) (\<lambda>_.
     bindE (map_errE (\<lambda>_. HostControlUnavailable) (shutdown_write s req)) (\<lambda>_.
     liftE (host_read_response (chunks (replies (snd s) req)) [])))"

definition host_request :: "TrustedHostControlClient \<Rightarrow> bytes \<Rightarrow> ('x, string) agent" where
  "host_request c req =
     (if req = [] \<or> length req > MAX_HOST_REQUEST_BYTES \<or> \<not> ends_with [CHR 0x0A] req
      then throwE InvalidHostControlRequest
      else
        bindE (map_errE (\<lambda>_. HostControlUnavailable) (unix_connect (host_socket_path c))) (\<lambda>s.
        bindE (host_configure_timeouts s) (\<lambda>_. host_write_request s req)))"

definition host_snapshot :: "host_json \<Rightarrow> TrustedHostControlClient \<Rightarrow> ('x, TrustedHostSnapshot) agent" where
  "host_snapshot J c =
     bindE (host_request c (''v2 snapshot'' @ [CHR 0x0A])) (\<lambda>response.
     bindE (liftE (ok_or InvalidHostControlResponse (decode_snapshot J response))) (\<lambda>s.
     bindE (liftE (validate_snapshot s (host_cgroup_root c) (expected_node c))) (\<lambda>_. returnE s)))"

definition admission_of :: "TrustedWorkloadSnapshot \<Rightarrow> u64 \<Rightarrow> TrustedHostAdmission" where
  "admission_of t tok =
     \<lparr>ta_workload_id = tw_workload_id t, ta_assigned_node = tw_assigned_node t,
      ta_runtime_epoch = tw_runtime_epoch t, ta_placement_epoch = tw_placement_epoch t, ta_pid = tw_pid t,
      ta_process_start_ticks = tw_process_start_ticks t, ta_managed_cgroup = tw_managed_cgroup t,
      ta_isolation_policy_digest = tw_isolation_policy_digest t, ta_fencing_token = tok\<rparr>"

definition admit_after_wake ::
  "host_json \<Rightarrow> TrustedHostControlClient \<Rightarrow> TrustedWorkloadSnapshot \<Rightarrow> u64 \<Rightarrow> ('x, unit) agent" where
  "admit_after_wake J c t tok =
     bindE (liftE (validate_workload t (host_cgroup_root c) (expected_node c))) (\<lambda>_.
     if tok = 0 then throwE InvalidHostControlRequest
     else
       bindE (liftE (ok_or InvalidHostControlRequest (encode_admission J (admission_of t tok)))) (\<lambda>payload.
       (let req = ''v2 admit '' @ payload @ [CHR 0x0A] in
        if length req > MAX_HOST_REQUEST_BYTES then throwE InvalidHostControlRequest
        else
          bindE (host_request c req) (\<lambda>response.
          if response = ''ok routable'' then returnE ()
          else if response = ''error stale_identity'' then throwE HostIdentityMismatch
          else if response = ''error demand_changed'' then throwE HostDemandChanged
          else throwE InvalidHostControlResponse))))"

subsection \<open>The adapter of one workload\<close>

record 'w TrustedHostAuthority =
  authority_snapshot :: "('w, LifecycleRuntimeError, TrustedHostSnapshot) eff"
  authority_admit :: "TrustedWorkloadSnapshot \<Rightarrow> u64 \<Rightarrow> ('w, LifecycleRuntimeError, unit) eff"

definition host_authority :: "host_json \<Rightarrow> TrustedHostControlClient \<Rightarrow> ('x host_scheme) TrustedHostAuthority" where
  "host_authority J c = \<lparr>authority_snapshot = host_snapshot J c, authority_admit = admit_after_wake J c\<rparr>"

record 'w TrustedHostWorkloadControl =
  authority :: "'w TrustedHostAuthority"
  expected_workload :: TrustedWorkloadSnapshot
  control_fencing_token :: u64

definition same_authority_identity :: "TrustedWorkloadSnapshot \<Rightarrow> TrustedWorkloadSnapshot \<Rightarrow> bool" where
  "same_authority_identity e t \<longleftrightarrow>
     tw_workload_id t = tw_workload_id e \<and> tw_assigned_node t = tw_assigned_node e
     \<and> tw_runtime_epoch t = tw_runtime_epoch e \<and> tw_placement_epoch t = tw_placement_epoch e
     \<and> tw_pid t = tw_pid e \<and> tw_process_start_ticks t = tw_process_start_ticks e
     \<and> path_eq (tw_managed_cgroup t) (tw_managed_cgroup e)
     \<and> tw_isolation_policy_digest t = tw_isolation_policy_digest e"

definition select_exact_workload ::
  "TrustedHostSnapshot \<Rightarrow> TrustedWorkloadSnapshot \<Rightarrow> LifecycleRuntimeError + TrustedWorkloadSnapshot" where
  "select_exact_workload s e =
     (let matching = filter (\<lambda>t. tw_workload_id t = tw_workload_id e) (workloads s) in
      if length matching \<noteq> 1 then Err HostIdentityMismatch
      else if \<not> same_authority_identity e (matching ! 0) then Err HostIdentityMismatch
      else Ok (matching ! 0))"

definition refresh_identity ::
  "'w TrustedHostWorkloadControl \<Rightarrow> ('w, LifecycleRuntimeError, TrustedWorkloadSnapshot) eff" where
  "refresh_identity c =
     bindE (authority_snapshot (authority c)) (\<lambda>s. liftE (select_exact_workload s (expected_workload c)))"

definition revalidate_identity :: "'w TrustedHostWorkloadControl \<Rightarrow> ('w, LifecycleRuntimeError, unit) eff" where
  "revalidate_identity c = bindE (refresh_identity c) (\<lambda>_. returnE ())"

definition with_authority ::
  "'w TrustedHostAuthority \<Rightarrow> TrustedWorkloadSnapshot \<Rightarrow> u64 \<Rightarrow> ('w, LifecycleRuntimeError, 'w TrustedHostWorkloadControl) eff" where
  "with_authority a e tok =
     (if tok = 0 then throwE InvalidHostControlRequest
      else
        (let c = \<lparr>authority = a, expected_workload = e, control_fencing_token = tok\<rparr> in
         bindE (revalidate_identity c) (\<lambda>_. returnE c)))"

definition TrustedHostWorkloadControl_new ::
  "host_json \<Rightarrow> LifecycleAgentConfig \<Rightarrow> TrustedWorkloadSnapshot \<Rightarrow> u64 \<Rightarrow> ('x, ('x host_scheme) TrustedHostWorkloadControl) agent" where
  "TrustedHostWorkloadControl_new J config e tok =
     with_authority (host_authority J (TrustedHostControlClient_new config)) e tok"

definition host_control :: "'w TrustedHostWorkloadControl \<Rightarrow> 'w HostLifecycleControl" where
  "host_control c =
     \<lparr>observe =
        bindE (map_errE message (refresh_identity c)) (\<lambda>t.
        returnE \<lparr>queue_depth = tw_queue_depth t, in_flight = tw_in_flight t, idle_for_ms = tw_idle_for_ms t\<rparr>),
      verify_ready =
        bindE (map_errE message (refresh_identity c)) (\<lambda>t.
        bindE (map_errE message (authority_admit (authority c) t (control_fencing_token c))) (\<lambda>_.
        bindE (map_errE message (revalidate_identity c)) (\<lambda>_. returnE ())))\<rparr>"

subsection \<open>Splitting of the answer\<close>

interpretation host_reader: bounded_reader 4096 MAX_HOST_RESPONSE_BYTES HostControlUnavailable
  HostControlResponseTooLarge host_finish_response host_read_response
  by unfold_locales (simp, rule host_read_response.simps)

lemma host_read_response_eq:
  "host_read_response cs [] =
     (if length (delivered cs) > MAX_HOST_RESPONSE_BYTES then Err HostControlResponseTooLarge
      else if breaks cs then Err HostControlUnavailable
      else host_finish_response (delivered cs))"
  using host_reader.loop_delivered [of "[]" cs] by simp

lemma host_finish_response_Ok: "host_finish_response b = Ok s \<longleftrightarrow> b = s @ [CHR 0x0A] \<and> one_line s"
  by (cases b rule: rev_cases) (auto simp: host_finish_response_def Let_def one_line_def)

lemma delivered_Oks: "delivered (map Ok bs) = concat bs" "\<not> breaks (map Ok bs)"
  by (induction bs) auto

text \<open>
  How the peer splits its answer does not matter. Whatever chunks an answer arrives in, the product
  client reads the same as if it had come in one piece: it refuses more than 1024 bytes and otherwise
  accepts exactly one trimmed UTF-8 line ended by a line feed. The host client does the same with a bound
  of 256 KiB.
\<close>

theorem responses_do_not_depend_on_chunks:
  "product_read_response (map Ok bs) [] =
     (if length (concat bs) \<le> 1024 \<and> (\<exists>s. concat bs = s @ [CHR 0x0A] \<and> one_line s) then Ok (butlast (concat bs))
      else if length (concat bs) \<le> 1024 then Err InvalidControlResponse
      else Err ControlResponseTooLarge)
   \<and> host_read_response (map Ok bs) [] =
     (if length (concat bs) \<le> 262144 \<and> (\<exists>s. concat bs = s @ [CHR 0x0A] \<and> one_line s) then Ok (butlast (concat bs))
      else if length (concat bs) \<le> 262144 then Err InvalidHostControlResponse
      else Err HostControlResponseTooLarge)"
proof -
  have p: "product_finish_response b =
      (if \<exists>s. b = s @ [CHR 0x0A] \<and> one_line s then Ok (butlast b) else Err InvalidControlResponse)" for b
    by (cases b rule: rev_cases) (auto simp: product_finish_response_def Let_def one_line_def)
  have h: "host_finish_response b =
      (if \<exists>s. b = s @ [CHR 0x0A] \<and> one_line s then Ok (butlast b) else Err InvalidHostControlResponse)" for b
    by (cases b rule: rev_cases) (auto simp: host_finish_response_def Let_def one_line_def)
  show ?thesis
    unfolding product_read_response_eq host_read_response_eq delivered_Oks p h
    by (auto simp: delivered_Oks MAX_CONTROL_RESPONSE_BYTES_def MAX_HOST_RESPONSE_BYTES_def)
qed

subsection \<open>The snapshots that are accepted\<close>

definition strictly_below :: "string \<Rightarrow> string \<Rightarrow> bool" where
  "strictly_below root p \<longleftrightarrow> is_absolute p \<and> ParentDir \<notin> set (components p)
     \<and> (\<exists>rest. rest \<noteq> [] \<and> components p = components root @ rest)"

definition sha256_digest :: "string \<Rightarrow> bool" where
  "sha256_digest v \<longleftrightarrow> (\<exists>hex. v = ''sha256:'' @ hex \<and> length hex = 64
     \<and> (\<forall>c\<in>set hex. is_ascii_hexdigit c \<and> \<not> is_ascii_uppercase c))"

definition trusted_workload :: "string \<Rightarrow> string \<Rightarrow> TrustedWorkloadSnapshot \<Rightarrow> bool" where
  "trusted_workload root node t \<longleftrightarrow>
     identity_segment (tw_workload_id t) \<and> identity_segment node \<and> tw_assigned_node t = node
     \<and> 0 \<notin> {tw_runtime_epoch t, tw_placement_epoch t, tw_process_start_ticks t} \<and> tw_pid t \<noteq> 0
     \<and> (\<forall>n\<in>{tw_queue_depth t, tw_in_flight t, tw_idle_for_ms t}. n \<le> I64_MAX)
     \<and> sha256_digest (tw_isolation_policy_digest t)
     \<and> strictly_below root (tw_managed_cgroup t)"

definition trusted_snapshot :: "string \<Rightarrow> string \<Rightarrow> TrustedHostSnapshot \<Rightarrow> bool" where
  "trusted_snapshot root node s \<longleftrightarrow>
     snap_version s = 2 \<and> length (workloads s) \<le> 1024 \<and> (\<forall>t\<in>set (workloads s). trusted_workload root node t)
     \<and> distinct (map tw_workload_id (workloads s))
     \<and> distinct (map (\<lambda>t. (tw_pid t, tw_process_start_ticks t)) (workloads s))
     \<and> distinct (map (components \<circ> tw_managed_cgroup) (workloads s))"

lemma validate_identity_Ok: "validate_identity v = Ok () \<longleftrightarrow> identity_segment v"
  by (auto simp: validate_identity_def identity_segment_def identity_char_def MAX_HOST_IDENTITY_BYTES_def list_all_iff)

lemma validate_policy_digest_Ok: "validate_policy_digest v = Ok () \<longleftrightarrow> sha256_digest v"
  by (auto simp: validate_policy_digest_def sha256_digest_def POLICY_DIGEST_BYTES_def Let_def starts_with_iff list_all_iff)

lemma validate_managed_cgroup_Ok: "validate_managed_cgroup p root = Ok () \<longleftrightarrow> strictly_below root p"
proof -
  have "is_absolute p \<Longrightarrow> has_traversal p \<longleftrightarrow> ParentDir \<in> set (components p)"
    using absolute_no_CurDir [of p] by (auto simp: has_traversal_def list_ex_iff)
  then show ?thesis
    by (auto simp: validate_managed_cgroup_def strictly_below_def path_eq_def path_starts_with_iff)
qed

lemma validate_workload_Ok: "validate_workload t root node = Ok () \<longleftrightarrow> trusted_workload root node t"
  by (auto simp: validate_workload_def bindR_Ok_iff validate_identity_Ok validate_policy_digest_Ok
      validate_managed_cgroup_Ok trusted_workload_def)

lemma card_set_map: "card (set (map f xs)) = length xs \<longleftrightarrow> distinct (map f xs)"
  by (metis card_distinct distinct_card length_map)

lemma validate_snapshot_Ok: "validate_snapshot s root node = Ok () \<longleftrightarrow> trusted_snapshot root node s"
  unfolding validate_snapshot_def trusted_snapshot_def HOST_PROTOCOL_VERSION_def MAX_WORKLOADS_def card_set_map
  by (auto simp: bindR_Ok_iff check_all_Ok_iff validate_workload_Ok)

text \<open>
  Exactly the trustworthy snapshots are accepted. A decoded host snapshot passes \<open>validate_snapshot\<close> if and
  only if it has protocol version 2, at most 1024 workloads, every workload belongs to this node with
  non-zero epochs and process identity, counters below 2^63, a lower-case sha256 policy digest and a cgroup
  strictly below the configured root without a parent component, and no two workloads share an id, a
  process or a cgroup (compared as paths).
\<close>

theorem snapshot_accepted_iff_trusted: "validate_snapshot s root node = Ok () \<longleftrightarrow> trusted_snapshot root node s"
  by (rule validate_snapshot_Ok)

subsection \<open>Requests and the pinned workload\<close>

lemma host_request_Ok:
  assumes "host_request c req w = (Ok line, w')"
  shows "answers_line w (host_socket_path c) req line \<and> one_line line
    \<and> sent w' = sent w @ [(host_socket_path c, req)] \<and> peer_of w' = peer_of w"
  using assms
  by (auto simp: host_request_def host_configure_timeouts_def host_write_request_def eff_Ok_iff
      unix_connect_def set_timeouts_def stream_write_all_def shutdown_write_def Let_def answers_line_def
      host_read_response_eq host_finish_response_Ok split: if_splits)

lemma host_request_sent:
  "sent (snd (host_request c req w)) \<in> {sent w, sent w @ [(host_socket_path c, req)]}"
  by (auto simp: host_request_def host_configure_timeouts_def host_write_request_def eff_defs
      unix_connect_def set_timeouts_def stream_write_all_def shutdown_write_def Let_def)

definition snapshot_request :: bytes where
  "snapshot_request = ''v2 snapshot'' @ [CHR 0x0A]"

lemma host_snapshot_Ok:
  assumes "host_snapshot J c w = (Ok s, w')"
  shows "\<exists>line. answers_line w (host_socket_path c) snapshot_request line \<and> decode_snapshot J line = Some s
    \<and> trusted_snapshot (host_cgroup_root c) (expected_node c) s
    \<and> sent w' = sent w @ [(host_socket_path c, snapshot_request)] \<and> peer_of w' = peer_of w"
  using assms by (auto simp: host_snapshot_def eff_Ok_iff validate_snapshot_Ok snapshot_request_def
      dest!: host_request_Ok)

lemma select_exact_workload_Ok:
  assumes "select_exact_workload s e = Ok t"
  shows "t \<in> set (workloads s) \<and> same_authority_identity e t
    \<and> filter (\<lambda>u. tw_workload_id u = tw_workload_id e) (workloads s) = [t]"
proof -
  let ?m = "filter (\<lambda>u. tw_workload_id u = tw_workload_id e) (workloads s)"
  have m: "length ?m = 1" "same_authority_identity e (?m ! 0)" "t = ?m ! 0"
    using assms by (auto simp: select_exact_workload_def Let_def split: if_splits)
  then have "?m = [t]"
    by (cases ?m) auto
  then have "t \<in> set (workloads s)"
    by (metis filter_is_subset list.set_intros(1) subsetD)
  then show ?thesis
    using m(2,3) \<open>?m = [t]\<close> by blast
qed

text \<open>
  What a refreshed identity means: the host answered the snapshot request with a trustworthy snapshot in
  which exactly one workload has the pinned id, and that one is the pinned incarnation.
\<close>

definition sees_pinned ::
  "host_json \<Rightarrow> TrustedHostControlClient \<Rightarrow> TrustedWorkloadSnapshot \<Rightarrow> 'x host_scheme \<Rightarrow> TrustedWorkloadSnapshot \<Rightarrow> bool" where
  "sees_pinned J k e w t \<longleftrightarrow>
     (\<exists>line s. answers_line w (host_socket_path k) snapshot_request line \<and> decode_snapshot J line = Some s
        \<and> trusted_snapshot (host_cgroup_root k) (expected_node k) s
        \<and> filter (\<lambda>u. tw_workload_id u = tw_workload_id e) (workloads s) = [t] \<and> same_authority_identity e t)"

definition pinned_control ::
  "host_json \<Rightarrow> TrustedHostControlClient \<Rightarrow> TrustedWorkloadSnapshot \<Rightarrow> u64 \<Rightarrow> ('x host_scheme) TrustedHostWorkloadControl" where
  "pinned_control J k e tok =
     \<lparr>authority = host_authority J k, expected_workload = e, control_fencing_token = tok\<rparr>"

lemma refresh_identity_Ok:
  assumes "refresh_identity (pinned_control J k e tok) w = (Ok t, w')"
  shows "sees_pinned J k e w t \<and> sent w' = sent w @ [(host_socket_path k, snapshot_request)] \<and> peer_of w' = peer_of w"
proof -
  obtain s where s: "host_snapshot J k w = (Ok s, w')" "select_exact_workload s e = Ok t"
    using assms by (auto simp: refresh_identity_def pinned_control_def host_authority_def eff_Ok_iff)
  show ?thesis
    using host_snapshot_Ok [OF s(1)] select_exact_workload_Ok [OF s(2)] unfolding sees_pinned_def by blast
qed

lemma answers_line_cong:
  "sent w = sent v \<Longrightarrow> peer_of w = peer_of v \<Longrightarrow> answers_line w p req line = answers_line v p req line"
  by (simp add: answers_line_def)

lemma sees_pinned_cong:
  "sent w = sent v \<Longrightarrow> peer_of w = peer_of v \<Longrightarrow> sees_pinned J k e w t = sees_pinned J k e v t"
  using answers_line_cong [of w v] by (simp add: sees_pinned_def)

lemma admit_after_wake_Ok:
  assumes "admit_after_wake J k t tok w = (Ok (), w')"
  shows "\<exists>payload. tok \<noteq> 0 \<and> encode_admission J (admission_of t tok) = Some payload
    \<and> host_request k (''v2 admit '' @ payload @ [CHR 0x0A]) w = (Ok ''ok routable'', w')"
proof -
  have tok: "tok \<noteq> 0"
    using assms by (auto simp: admit_after_wake_def eff_Ok_iff simp del: append.simps)
  obtain payload where p: "encode_admission J (admission_of t tok) = Some payload"
    using assms tok by (auto simp: admit_after_wake_def eff_Ok_iff simp del: append.simps)
  define req where "req = ''v2 admit '' @ payload @ [CHR 0x0A]"
  obtain r w1 where rq: "host_request k req w = (r, w1)"
    by fastforce
  have "(if length req > MAX_HOST_REQUEST_BYTES then throwE InvalidHostControlRequest
      else
        bindE (host_request k req) (\<lambda>response.
        if response = ''ok routable'' then returnE ()
        else if response = ''error stale_identity'' then throwE HostIdentityMismatch
        else if response = ''error demand_changed'' then throwE HostDemandChanged
        else throwE InvalidHostControlResponse)) w = (Ok (), w')"
    using assms tok p unfolding admit_after_wake_def Let_def req_def
    by (simp only: eff_Ok_iff if_False ok_or_simps) (metis (no_types, lifting) sum.inject(2))
  then have "r = Ok ''ok routable'' \<and> w1 = w'"
    by (cases r) (auto simp: returnE_def throwE_def rq bindE_def split: if_splits)
  then show ?thesis
    using tok p rq req_def by blast
qed

text \<open>
  An observation is about the pinned incarnation. When the host control of a workload reports activity, the
  host answered with a trustworthy snapshot in which exactly one entry has the workload's id; that entry
  has the pinned node, epochs, process, cgroup and policy, and the reported numbers are its numbers.
\<close>

theorem observation_is_of_pinned_incarnation:
  assumes "observe (host_control (pinned_control J k e tok)) w = (Ok a, w')"
  shows "\<exists>t. sees_pinned J k e w t
    \<and> a = \<lparr>queue_depth = tw_queue_depth t, in_flight = tw_in_flight t, idle_for_ms = tw_idle_for_ms t\<rparr>"
  using assms by (auto simp: host_control_def eff_Ok_iff dest!: refresh_identity_Ok)

text \<open>
  C34: A workload is reported ready only after the host admitted exactly the pinned incarnation. When
  \<open>verify_ready\<close> succeeds, three requests were sent to the host and nothing else: a snapshot that shows the
  pinned incarnation, an admission that carries this incarnation and the non-zero fencing token and that
  was answered \<open>ok routable\<close>, and a second snapshot that shows the same incarnation.
\<close>

theorem readiness_admits_pinned_incarnation:
  assumes "verify_ready (host_control (pinned_control J k e tok)) w = (Ok (), w')"
  shows "\<exists>t payload u. let s = host_socket_path k; admit = ''v2 admit '' @ payload @ [CHR 0x0A];
      w1 = w\<lparr>sent := sent w @ [(s, snapshot_request)]\<rparr>;
      w2 = w\<lparr>sent := sent w @ [(s, snapshot_request), (s, admit)]\<rparr>
    in sees_pinned J k e w t \<and> tok \<noteq> 0 \<and> encode_admission J (admission_of t tok) = Some payload
      \<and> answers_line w1 s admit ''ok routable'' \<and> sees_pinned J k e w2 u
      \<and> sent w' = sent w @ [(s, snapshot_request), (s, admit), (s, snapshot_request)]"
proof -
  let ?s = "host_socket_path k" and ?c = "pinned_control J k e tok"
  obtain t w1 w2 where run: "refresh_identity ?c w = (Ok t, w1)" "admit_after_wake J k t tok w1 = (Ok (), w2)"
      "revalidate_identity ?c w2 = (Ok (), w')"
    using assms by (auto simp: host_control_def eff_Ok_iff pinned_control_def host_authority_def)
  obtain payload where adm: "tok \<noteq> 0" "encode_admission J (admission_of t tok) = Some payload"
      "host_request k (''v2 admit '' @ payload @ [CHR 0x0A]) w1 = (Ok ''ok routable'', w2)"
    using admit_after_wake_Ok [OF run(2)] by blast
  obtain u where u: "refresh_identity ?c w2 = (Ok u, w')"
    using run(3) by (auto simp: revalidate_identity_def eff_Ok_iff)
  note first = refresh_identity_Ok [OF run(1)]
  note second = host_request_Ok [OF adm(3)]
  note third = refresh_identity_Ok [OF u]
  let ?a = "''v2 admit '' @ payload @ [CHR 0x0A]"
  have "answers_line (w\<lparr>sent := sent w @ [(?s, snapshot_request)]\<rparr>) ?s ?a ''ok routable''"
    using second first answers_line_cong [of w1 "w\<lparr>sent := sent w @ [(?s, snapshot_request)]\<rparr>"] by simp
  moreover have "sees_pinned J k e (w\<lparr>sent := sent w @ [(?s, snapshot_request), (?s, ?a)]\<rparr>) u"
    using third second first
      sees_pinned_cong [of w2 "w\<lparr>sent := sent w @ [(?s, snapshot_request), (?s, ?a)]\<rparr>"] by simp
  moreover have "sent w' = sent w @ [(?s, snapshot_request), (?s, ?a), (?s, snapshot_request)]"
    using first second third by simp
  ultimately show ?thesis
    unfolding Let_def using first adm(1,2) by blast
qed

subsection \<open>A host that answers\<close>

lemma host_request_answered:
  assumes "answers_line w (host_socket_path c) req line" and "one_line line" and "length line < MAX_HOST_RESPONSE_BYTES"
    and "ends_with [CHR 0x0A] req" and "length req \<le> MAX_HOST_REQUEST_BYTES"
  shows "\<exists>w'. host_request c req w = (Ok line, w')"
proof -
  have "req \<noteq> []"
    using assms(4) by (auto simp: ends_with_iff)
  moreover have "host_finish_response (line @ [CHR 0x0A]) = Ok line"
    using assms(2) by (simp add: host_finish_response_Ok)
  ultimately show ?thesis
    using assms by (auto simp: host_request_def host_configure_timeouts_def host_write_request_def eff_Ok_iff
      unix_connect_def set_timeouts_def stream_write_all_def shutdown_write_def Let_def answers_line_def
      host_read_response_eq)
qed

lemma snapshot_request_facts: "ends_with [CHR 0x0A] snapshot_request" "length snapshot_request \<le> MAX_HOST_REQUEST_BYTES"
  by (simp_all add: snapshot_request_def MAX_HOST_REQUEST_BYTES_def ends_with_def)

lemma refresh_identity_answered:
  assumes "answers_line w (host_socket_path k) snapshot_request line" and "one_line line"
    and "length line < MAX_HOST_RESPONSE_BYTES" and "decode_snapshot J line = Some s"
    and "validate_snapshot s (host_cgroup_root k) (expected_node k) = Ok ()" and "select_exact_workload s e = Ok t"
  shows "\<exists>w'. refresh_identity (pinned_control J k e tok) w = (Ok t, w')"
  using host_request_answered [OF assms(1-3) snapshot_request_facts] assms(4-6)
  by (auto simp: refresh_identity_def pinned_control_def host_authority_def host_snapshot_def eff_Ok_iff
      snapshot_request_def)

definition sample_workload :: TrustedWorkloadSnapshot where
  "sample_workload =
     \<lparr>tw_workload_id = ''t-1'', tw_assigned_node = ''node-7'', tw_runtime_epoch = 9, tw_placement_epoch = 7,
      tw_pid = 42, tw_process_start_ticks = 123, tw_managed_cgroup = ''/sys/fs/cgroup/ores/t-1'',
      tw_isolation_policy_digest = ''sha256:'' @ replicate 64 (CHR ''a''),
      tw_queue_depth = 0, tw_in_flight = 3, tw_idle_for_ms = 125, tw_routable = True\<rparr>"

definition sample_snapshot :: TrustedHostSnapshot where
  "sample_snapshot = \<lparr>snap_version = 2, workloads = [sample_workload]\<rparr>"

definition sample_json :: host_json where
  "sample_json = \<lparr>decode_snapshot = (\<lambda>s. if s = ''S'' then Some sample_snapshot else None),
     encode_admission = (\<lambda>_. Some ''A'')\<rparr>"

definition sample_client :: TrustedHostControlClient where
  "sample_client = \<lparr>host_socket_path = ''/run/h.sock'', host_cgroup_root = ''/sys/fs/cgroup/ores'', expected_node = ''node-7''\<rparr>"

definition sample_controlled_host :: host where
  "sample_controlled_host = sample_host\<lparr>peer_of := (\<lambda>_ _. \<lparr>connects = True, timeouts_set = True,
     replies = (\<lambda>req. \<lparr>accepts_request = True, shuts_down = True,
       chunks = (if req = snapshot_request then [Ok ''S'', Ok [CHR 0x0A]]
         else [Ok ''ok rou'', Ok ''table'', Ok [CHR 0x0A]])\<rparr>)\<rparr>)\<rparr>"

lemma sample_workload_trusted:
  "validate_snapshot sample_snapshot ''/sys/fs/cgroup/ores'' ''node-7'' = Ok ()"
  "validate_workload sample_workload ''/sys/fs/cgroup/ores'' ''node-7'' = Ok ()"
  "select_exact_workload sample_snapshot sample_workload = Ok sample_workload"
  by code_simp+

lemma sample_answers:
  assumes "peer_of w = peer_of sample_controlled_host"
  shows "answers_line w ''/run/h.sock'' snapshot_request ''S''"
    and "answers_line w ''/run/h.sock'' (''v2 admit '' @ ''A'' @ [CHR 0x0A]) ''ok routable''"
  using assms by (auto simp: answers_line_def sample_controlled_host_def snapshot_request_def Let_def)

lemma sample_lines: "one_line ''S''" "one_line ''ok routable''"
  by code_simp+

lemma sample_refresh:
  assumes "peer_of w = peer_of sample_controlled_host"
  shows "\<exists>w'. refresh_identity (pinned_control sample_json sample_client sample_workload tok) w = (Ok sample_workload, w')
    \<and> peer_of w' = peer_of sample_controlled_host"
proof -
  have "\<exists>w'. refresh_identity (pinned_control sample_json sample_client sample_workload tok) w = (Ok sample_workload, w')"
    by (rule refresh_identity_answered [where line = "''S''" and s = sample_snapshot])
      (use sample_answers(1) [OF assms] sample_lines sample_workload_trusted in
        \<open>simp_all add: sample_client_def sample_json_def MAX_HOST_RESPONSE_BYTES_def\<close>)
  then show ?thesis
    using refresh_identity_Ok assms by metis
qed

lemma sample_admit:
  assumes "peer_of w = peer_of sample_controlled_host" and "tok \<noteq> 0"
  shows "\<exists>w'. admit_after_wake sample_json sample_client sample_workload tok w = (Ok (), w')
    \<and> peer_of w' = peer_of sample_controlled_host"
proof -
  obtain w' where w': "host_request sample_client (''v2 admit '' @ ''A'' @ [CHR 0x0A]) w = (Ok ''ok routable'', w')"
    using host_request_answered [of w sample_client "''v2 admit '' @ ''A'' @ [CHR 0x0A]" "''ok routable''"]
      sample_answers(2) [OF assms(1)] sample_lines
    by (auto simp: sample_client_def MAX_HOST_RESPONSE_BYTES_def MAX_HOST_REQUEST_BYTES_def ends_with_def)
  moreover have "peer_of w' = peer_of sample_controlled_host"
    using host_request_Ok [OF w'] assms(1) by simp
  moreover have "validate_workload sample_workload (host_cgroup_root sample_client) (expected_node sample_client) = Ok ()"
    using sample_workload_trusted(2) by (simp add: sample_client_def)
  ultimately show ?thesis
    using assms(2) by (auto simp: admit_after_wake_def eff_defs sample_json_def MAX_HOST_REQUEST_BYTES_def Let_def)
qed

lemma sample_ready:
  "\<exists>w'. verify_ready (host_control (pinned_control sample_json sample_client sample_workload 5)) sample_controlled_host = (Ok (), w')"
proof -
  let ?c = "pinned_control sample_json sample_client sample_workload 5"
  obtain w1 where w1: "refresh_identity ?c sample_controlled_host = (Ok sample_workload, w1)"
      "peer_of w1 = peer_of sample_controlled_host"
    using sample_refresh by blast
  obtain w2 where w2: "admit_after_wake sample_json sample_client sample_workload 5 w1 = (Ok (), w2)"
      "peer_of w2 = peer_of sample_controlled_host"
    using sample_admit [OF w1(2), of 5] by auto
  obtain w3 where w3: "refresh_identity ?c w2 = (Ok sample_workload, w3)"
    using sample_refresh [OF w2(2)] by blast
  have "authority_admit (authority ?c) sample_workload (control_fencing_token ?c) w1 = (Ok (), w2)"
    using w2(1) by (simp add: pinned_control_def host_authority_def)
  then show ?thesis
    using w1(1) w3 by (auto simp: host_control_def eff_Ok_iff revalidate_identity_def)
qed

theorem observation_is_of_pinned_incarnation_witness:
  "\<exists>t. sees_pinned sample_json sample_client sample_workload sample_controlled_host t \<and> tw_in_flight t = 3"
proof -
  let ?c = "pinned_control sample_json sample_client sample_workload 5"
  obtain w' where w': "refresh_identity ?c sample_controlled_host = (Ok sample_workload, w')"
    using sample_refresh by blast
  have "observe (host_control ?c) sample_controlled_host = (Ok \<lparr>queue_depth = 0, in_flight = 3, idle_for_ms = 125\<rparr>, w')"
    using w' by (simp add: host_control_def eff_defs sample_workload_def)
  from observation_is_of_pinned_incarnation [OF this] show ?thesis
    by auto
qed

theorem readiness_admits_pinned_incarnation_witness:
  "\<exists>w' payload. verify_ready (host_control (pinned_control sample_json sample_client sample_workload 5))
      sample_controlled_host = (Ok (), w')
    \<and> map snd (sent w') = [snapshot_request, ''v2 admit '' @ payload @ [CHR 0x0A], snapshot_request]"
proof -
  obtain w' where w': "verify_ready (host_control (pinned_control sample_json sample_client sample_workload 5))
      sample_controlled_host = (Ok (), w')"
    using sample_ready by blast
  from readiness_admits_pinned_incarnation [OF this] obtain payload where
    "sent w' = sent sample_controlled_host @ [(host_socket_path sample_client, snapshot_request),
       (host_socket_path sample_client, ''v2 admit '' @ payload @ [CHR 0x0A]), (host_socket_path sample_client, snapshot_request)]"
    unfolding Let_def by blast
  then show ?thesis
    using w' by (auto simp: sample_controlled_host_def sample_host_def)
qed

end
