(* ===== verification/Lifecycle_Lease.thy ===== *)
theory Lifecycle_Lease
  imports Lifecycle_Recovery Agent_Config
begin

section \<open>Fenced leases\<close>

text \<open>
  \<open>src/src/adapters/process_lifecycle_lease.rs\<close>, \<open>src/src/adapters/process_lifecycle_controller.rs\<close> and the entry
  point of \<open>src/src/adapters/state_machine/process_lifecycle_recovery.rs\<close> that takes a grant. The crate
  \<open>ores-locks-and-leases\<close> is a parameter: its \<open>Lease\<close> trait is the record \<open>Lease\<close> of effectful calls, and
  \<open>lock_key_fits\<close> says which strings its \<open>LockKey::new\<close> takes; a lock key is its string. An async function is
  the effectful program that it runs when awaited. The grant structure has the fields that the code reads.

  The theorems say that two workloads never share a lock key, that a grant keeps its key, holder and
  fencing token through any number of renewals, and that a reconciliation and a recovery under a grant act
  with exactly that token.
\<close>

definition RUNTIME_LIFECYCLE_SEGMENT :: string where
  "RUNTIME_LIFECYCLE_SEGMENT = ''runtime-lifecycle''"

definition MAX_SEGMENT_BYTES :: nat where
  "MAX_SEGMENT_BYTES = 96"

record LeaseGrant =
  grant_key :: string
  grant_holder :: string
  grant_fencing_token :: u64
  grant_lease_expires_ms :: "u64 option"
  grant_ttl_ms :: u64

datatype LockErrorKind = LostLease | OtherLockError string

record LockError =
  lock_error_kind :: LockErrorKind
  lock_error_key :: string
  lock_error_message :: string

record AcquireOptions =
  acquire_holder :: string
  acquire_ttl_ms :: u64

record 'w Lease =
  lease_acquire :: "string \<Rightarrow> AcquireOptions \<Rightarrow> bool \<Rightarrow> ('w, LockError, LeaseGrant) eff"
  lease_renew :: "LeaseGrant \<Rightarrow> nat \<Rightarrow> ('w, LockError, LeaseGrant) eff"
  lease_release :: "LeaseGrant \<Rightarrow> ('w, LockError, bool) eff"

subsection \<open>The scope of a lease\<close>

record LifecycleLeaseScope =
  ls_product :: string
  ls_environment :: string
  ls_region :: string
  ls_runtime_id :: string

datatype LifecycleLeaseScopeError = InvalidSegment string | LockKeyTooLong

fun LifecycleLeaseScopeError_fmt :: "LifecycleLeaseScopeError \<Rightarrow> string" where
  "LifecycleLeaseScopeError_fmt (InvalidSegment field) = ''invalid process lifecycle lease '' @ field @ '' segment''"
| "LifecycleLeaseScopeError_fmt LockKeyTooLong = ''process lifecycle lease key is too long''"

definition validate_segment :: "string \<Rightarrow> string \<Rightarrow> LifecycleLeaseScopeError + unit" where
  "validate_segment field v =
     (if \<not> (v \<noteq> [] \<and> length v \<le> MAX_SEGMENT_BYTES
            \<and> list_all (\<lambda>c. is_ascii_alphanumeric c \<or> c \<in> {CHR ''-'', CHR ''_'', CHR ''.'', CHR '':''}) v)
      then Err (InvalidSegment field) else Ok ())"

definition LifecycleLeaseScope_new ::
  "string \<Rightarrow> string \<Rightarrow> string \<Rightarrow> string \<Rightarrow> LifecycleLeaseScopeError + LifecycleLeaseScope" where
  "LifecycleLeaseScope_new prd env reg rid =
     bindR (validate_segment ''product'' prd) (\<lambda>_.
     bindR (validate_segment ''environment'' env) (\<lambda>_.
     bindR (validate_segment ''region'' reg) (\<lambda>_.
     bindR (validate_segment ''runtime_id'' rid) (\<lambda>_.
     Ok \<lparr>ls_product = prd, ls_environment = env, ls_region = reg, ls_runtime_id = rid\<rparr>))))"

definition lock_key :: "(string \<Rightarrow> bool) \<Rightarrow> LifecycleLeaseScope \<Rightarrow> LifecycleLeaseScopeError + string" where
  "lock_key lock_key_fits s =
     (let value = ls_product s @ ''/'' @ RUNTIME_LIFECYCLE_SEGMENT @ ''/'' @ ls_environment s @ ''/'' @ ls_region s
                  @ ''/'' @ ls_runtime_id s in
      if lock_key_fits value then Ok value else Err LockKeyTooLong)"

subsection \<open>The grant\<close>

record FencedLifecycleGrant =
  held_grant :: LeaseGrant

definition grant_token :: "FencedLifecycleGrant \<Rightarrow> u64" where
  "grant_token g = grant_fencing_token (held_grant g)"

definition holder :: "FencedLifecycleGrant \<Rightarrow> string" where
  "holder g = grant_holder (held_grant g)"

definition lease_expires_ms :: "FencedLifecycleGrant \<Rightarrow> u64 option" where
  "lease_expires_ms g = grant_lease_expires_ms (held_grant g)"

definition validate_renewed_grant :: "LeaseGrant \<Rightarrow> LeaseGrant \<Rightarrow> LockError + unit" where
  "validate_renewed_grant previous renewed =
     (if grant_key renewed \<noteq> grant_key previous \<or> grant_holder renewed \<noteq> grant_holder previous
         \<or> grant_fencing_token renewed \<noteq> grant_fencing_token previous
      then Err \<lparr>lock_error_kind = LostLease, lock_error_key = grant_key previous,
             lock_error_message = ''lifecycle lease renewal changed key, holder, or fencing token''\<rparr>
      else Ok ())"

definition renew :: "FencedLifecycleGrant \<Rightarrow> 'w Lease \<Rightarrow> nat \<Rightarrow> ('w, LockError, FencedLifecycleGrant) eff" where
  "renew g L ttl =
     bindE (lease_renew L (held_grant g) ttl) (\<lambda>renewed.
     bindE (liftE (validate_renewed_grant (held_grant g) renewed)) (\<lambda>_.
     returnE \<lparr>held_grant = renewed\<rparr>))"

definition release :: "FencedLifecycleGrant \<Rightarrow> 'w Lease \<Rightarrow> ('w, LockError, bool) eff" where
  "release g L = lease_release L (held_grant g)"

datatype LifecycleLeaseAcquireError = InvalidScope LifecycleLeaseScopeError | Lock LockError

fun LifecycleLeaseAcquireError_fmt :: "(LockError \<Rightarrow> string) \<Rightarrow> LifecycleLeaseAcquireError \<Rightarrow> string" where
  "LifecycleLeaseAcquireError_fmt lock_text (InvalidScope e) = LifecycleLeaseScopeError_fmt e"
| "LifecycleLeaseAcquireError_fmt lock_text (Lock e) = lock_text e"

definition acquire_lifecycle_lease ::
  "(string \<Rightarrow> bool) \<Rightarrow> 'w Lease \<Rightarrow> LifecycleLeaseScope \<Rightarrow> AcquireOptions \<Rightarrow> bool \<Rightarrow>
   ('w, LifecycleLeaseAcquireError, FencedLifecycleGrant) eff" where
  "acquire_lifecycle_lease lock_key_fits L s options wait =
     bindE (liftE (map_err InvalidScope (lock_key lock_key_fits s))) (\<lambda>key.
     bindE (map_errE Lock (lease_acquire L key options wait)) (\<lambda>grant.
     returnE \<lparr>held_grant = grant\<rparr>))"

subsection \<open>Acting under a grant\<close>

definition reconcile_with_fenced_grant ::
  "FencedLifecycleGrant \<Rightarrow> ControllerScope \<Rightarrow> LifecyclePolicy \<Rightarrow> 'w LifecycleRecordStore \<Rightarrow> 'w HostLifecycleControl \<Rightarrow>
   'w ProductLifecycleControl \<Rightarrow> ('w, 'x) LifecycleEffects_scheme \<Rightarrow> 'w reconcile" where
  "reconcile_with_fenced_grant g scope p S H P E = reconcile_once scope (grant_token g) p S H P E"

definition recover_freeze_transition_with_fenced_grant ::
  "FencedLifecycleGrant \<Rightarrow> ControllerScope \<Rightarrow> LifecyclePolicy \<Rightarrow> 'w LifecycleRecordStore \<Rightarrow> 'w HostLifecycleControl \<Rightarrow>
   'w ProductLifecycleControl \<Rightarrow> ('w, 'x) FreezeTransitionEffects_scheme \<Rightarrow> 'w recovery" where
  "recover_freeze_transition_with_fenced_grant g scope p S H P E =
     recover_freeze_transition (grant_token g) scope p S H P E"

subsection \<open>Lock keys\<close>

lemma validate_segment_Ok: "validate_segment field v = Ok u \<longleftrightarrow> identity_segment v"
  by (auto simp: validate_segment_def identity_segment_def identity_char_def MAX_SEGMENT_BYTES_def list_all_iff)

lemma identity_segment_no_slash: "identity_segment v \<Longrightarrow> CHR ''/'' \<notin> set v"
proof -
  have "\<not> identity_char (CHR ''/'')"
    by code_simp
  then show "identity_segment v \<Longrightarrow> CHR ''/'' \<notin> set v"
    by (auto simp: identity_segment_def list_all_iff)
qed

definition scope_segments :: "LifecycleLeaseScope \<Rightarrow> string list" where
  "scope_segments s = [ls_product s, RUNTIME_LIFECYCLE_SEGMENT, ls_environment s, ls_region s, ls_runtime_id s]"

lemma lock_key_segments:
  assumes "LifecycleLeaseScope_new a b c d = Ok s" and "lock_key fits s = Ok k"
  shows "split_byte (CHR ''/'') k = scope_segments s"
proof -
  have "k = join_byte (CHR ''/'') (scope_segments s)"
    using assms(2) by (auto simp: lock_key_def scope_segments_def Let_def split: if_splits)
  moreover have "CHR ''/'' \<notin> set p" if "p \<in> set (scope_segments s)" for p
    using assms(1) that identity_segment_no_slash
    by (auto simp: scope_segments_def LifecycleLeaseScope_new_def bindR_Ok_iff validate_segment_Ok RUNTIME_LIFECYCLE_SEGMENT_def)
  moreover have "scope_segments s \<noteq> []"
    by (simp add: scope_segments_def)
  ultimately show ?thesis
    using split_join_byte by blast
qed

text \<open>
  Lock keys identify workloads. Two accepted lease scopes with the same lock key are the same scope, so
  different runtimes never contend for one lease and one runtime always does, on whatever node its
  controllers run. The key starts with the key prefix of the product's configuration.
\<close>

theorem lock_keys_do_not_collide:
  assumes "LifecycleLeaseScope_new a b c d = Ok s" and "LifecycleLeaseScope_new a' b' c' d' = Ok s'"
    and "lock_key fits s = Ok k" and "lock_key fits s' = Ok k'"
  shows "(k = k' \<longleftrightarrow> s = s') \<and> (a = product_as_str p \<longrightarrow> starts_with (lifecycle_lease_key_prefix p @ ''/'') k)"
proof -
  have "k = k' \<longleftrightarrow> s = s'"
  proof
    assume "k = k'"
    then have "scope_segments s = scope_segments s'"
      using lock_key_segments [OF assms(1,3)] lock_key_segments [OF assms(2,4)] by simp
    then show "s = s'"
      by (simp add: scope_segments_def)
  next
    assume "s = s'"
    then show "k = k'"
      using assms(3,4) by simp
  qed
  moreover have "a = product_as_str p \<longrightarrow> starts_with (lifecycle_lease_key_prefix p @ ''/'') k"
    using assms(1,3)
    by (cases p) (auto simp: LifecycleLeaseScope_new_def bindR_Ok_iff lock_key_def Let_def RUNTIME_LIFECYCLE_SEGMENT_def
        starts_with_def split: if_splits)
  ultimately show ?thesis by blast
qed

theorem lock_keys_do_not_collide_witness:
  "let s = \<lparr>ls_product = ''beamscale'', ls_environment = ''prod'', ls_region = ''eu'', ls_runtime_id = ''t-1''\<rparr>;
       s' = \<lparr>ls_product = ''beamscale'', ls_environment = ''prod'', ls_region = ''eu'', ls_runtime_id = ''t-2''\<rparr>
   in (case (lock_key (\<lambda>_. True) s, lock_key (\<lambda>_. True) s') of
         (Ok k, Ok k') \<Rightarrow> k \<noteq> k' \<and> starts_with ''beamscale/runtime-lifecycle/'' k | _ \<Rightarrow> False)"
proof -
  let ?s = "\<lparr>ls_product = ''beamscale'', ls_environment = ''prod'', ls_region = ''eu'', ls_runtime_id = ''t-1''\<rparr>"
  let ?s' = "\<lparr>ls_product = ''beamscale'', ls_environment = ''prod'', ls_region = ''eu'', ls_runtime_id = ''t-2''\<rparr>"
  have s: "LifecycleLeaseScope_new ''beamscale'' ''prod'' ''eu'' ''t-1'' = Ok ?s"
    "LifecycleLeaseScope_new ''beamscale'' ''prod'' ''eu'' ''t-2'' = Ok ?s'"
    by code_simp+
  obtain k k' where k: "lock_key (\<lambda>_. True) ?s = Ok k" "lock_key (\<lambda>_. True) ?s' = Ok k'"
    by (simp add: lock_key_def Let_def)
  from lock_keys_do_not_collide [OF s k, of BeamScale] show ?thesis
    using k by simp
qed

subsection \<open>Renewals\<close>

text \<open>A grant that is renewed again and again, with the given durations.\<close>

fun renew_all :: "'w Lease \<Rightarrow> nat list \<Rightarrow> FencedLifecycleGrant \<Rightarrow> ('w, LockError, FencedLifecycleGrant) eff" where
  "renew_all L [] g = returnE g"
| "renew_all L (ttl # ttls) g = bindE (renew g L ttl) (renew_all L ttls)"

definition same_grant :: "FencedLifecycleGrant \<Rightarrow> FencedLifecycleGrant \<Rightarrow> bool" where
  "same_grant g g' \<longleftrightarrow> grant_key (held_grant g') = grant_key (held_grant g) \<and> holder g' = holder g
     \<and> grant_token g' = grant_token g"

lemma renew_same_grant: "renew g L ttl w = (Ok g', w') \<Longrightarrow> same_grant g g'"
  by (auto simp: renew_def eff_Ok_iff validate_renewed_grant_def same_grant_def holder_def grant_token_def split: if_splits)

lemma renew_all_same_grant: "renew_all L ttls g w = (Ok g', w') \<Longrightarrow> same_grant g g'"
proof (induction ttls arbitrary: g w)
  case Nil
  then show ?case by (simp add: eff_Ok_iff same_grant_def)
next
  case (Cons ttl ttls)
  then obtain g1 w1 where "renew g L ttl w = (Ok g1, w1)" "renew_all L ttls g1 w1 = (Ok g', w')"
    by (auto simp: eff_Ok_iff)
  then show ?case
    using renew_same_grant Cons.IH by (fastforce simp: same_grant_def)
qed

text \<open>
  Renewals keep the fence. Whatever the lease backend returns, a grant that survived any number of renewals
  has the key, the holder and the fencing token that it had when it was acquired; a reconciliation and a
  recovery under the renewed grant behave as under the original one.
\<close>

theorem renewals_keep_the_fence:
  assumes "renew_all L ttls g w = (Ok g', w')"
  shows "grant_key (held_grant g') = grant_key (held_grant g) \<and> holder g' = holder g
    \<and> reconcile_with_fenced_grant g' = reconcile_with_fenced_grant g
    \<and> recover_freeze_transition_with_fenced_grant g' = recover_freeze_transition_with_fenced_grant g"
  using renew_all_same_grant [OF assms]
  by (auto simp: same_grant_def fun_eq_iff reconcile_with_fenced_grant_def recover_freeze_transition_with_fenced_grant_def)

definition sample_lease :: "unit Lease" where
  "sample_lease =
     \<lparr>lease_acquire = (\<lambda>k opts wait. returnE \<lparr>grant_key = k, grant_holder = acquire_holder opts, grant_fencing_token = 41,
        grant_lease_expires_ms = Some 1000, grant_ttl_ms = acquire_ttl_ms opts\<rparr>),
      lease_renew = (\<lambda>g ttl. returnE (g\<lparr>grant_lease_expires_ms := Some 1500\<rparr>)),
      lease_release = (\<lambda>g. returnE True)\<rparr>"

theorem renewals_keep_the_fence_witness:
  "let g = \<lparr>held_grant = \<lparr>grant_key = ''k'', grant_holder = ''h'', grant_fencing_token = 41,
        grant_lease_expires_ms = Some 1000, grant_ttl_ms = 500\<rparr>\<rparr>
   in \<exists>g'. renew_all sample_lease [5, 7] g () = (Ok g', ()) \<and> lease_expires_ms g' = Some 1500 \<and> holder g' = ''h''"
proof -
  let ?g = "\<lparr>held_grant = \<lparr>grant_key = ''k'', grant_holder = ''h'', grant_fencing_token = 41,
        grant_lease_expires_ms = Some 1000, grant_ttl_ms = 500\<rparr>\<rparr>"
  let ?g' = "\<lparr>held_grant = (held_grant ?g)\<lparr>grant_lease_expires_ms := Some 1500\<rparr>\<rparr>"
  have run: "renew_all sample_lease [5, 7] ?g () = (Ok ?g', ())"
    by (simp add: renew_def sample_lease_def eff_defs validate_renewed_grant_def)
  from renewals_keep_the_fence [OF run] show ?thesis
    using run by (auto simp: Let_def lease_expires_ms_def holder_def)
qed

end
