(* ===== verification/Managed_Host.thy ===== *)
theory Managed_Host
  imports File_Store_Contract Host_Control Lifecycle_Lease
begin

section \<open>The composed controller of one workload\<close>

text \<open>
  The parts put together as \<open>src/src/adapters/\<close> composes them: the records in the file store, the trusted host
  behind its socket with one pinned workload, the product behind its socket, and the attested freeze effects
  on the workload's cgroup. The interfaces of the agent, \<open>managed_workload\<close> and \<open>recovering_workload\<close>, hold for
  this composition, so what they promise about the stored record holds for real files; a second frame
  bounds everything the controller may do to its host.
\<close>

subsection \<open>The store leaves everything outside the file system alone\<close>

definition same_outside :: "'x fs_scheme \<Rightarrow> 'x fs_scheme \<Rightarrow> bool" where
  "same_outside w w' \<longleftrightarrow> fs.more w' = fs.more w"

interpretation outside: frame_relation same_outside
  by unfold_locales (simp_all add: same_outside_def)

lemma within_syscall: "within same_outside op \<Longrightarrow> within same_outside (syscall op)"
  by (rule withinI) (auto simp: syscall_def same_outside_def dest!: withinD split: list.splits fault.splits)

lemma same_outside_set_nodes: "same_outside w (set_nodes m w)" "same_outside w (put_bytes p b w)" "same_outside w w"
  "same_outside w (w\<lparr>pending := ms\<rparr>)"
  by (simp_all add: same_outside_def set_nodes_def put_bytes_def)

lemma outside_calls:
  "within same_outside (symlink_metadata p)" "within same_outside (read_file p n)" "within same_outside (open_existing p)"
  "within same_outside (open_or_create p)" "within same_outside (create_new p)" "within same_outside (sync_all p)"
  "within same_outside (remove_file p)" "within same_outside (hard_link p q)" "within same_outside (rename p q)"
  unfolding symlink_metadata_def read_file_def open_existing_def open_or_create_def create_new_def sync_all_def
    remove_file_def hard_link_def rename_def
  by (rule within_syscall, simp add: within_def same_outside_set_nodes split: option.splits node.splits)+

lemma outside_other_calls:
  "within same_outside (write_all p b)" "within same_outside now_nanos" "within same_outside process_id"
  "within same_outside (syscall (returnE ()))"
  by (auto simp: within_def write_all_def now_nanos_def process_id_def same_outside_def put_bytes_def set_nodes_def
      syscall_def returnE_def Let_def split: list.splits fault.splits option.splits)

lemmas outside_rules = outside.within_rules outside_calls outside_other_calls within_node

lemma outside_store:
  "within same_outside (load_record J st i)" "within same_outside (replace_record J st e n)"
  unfolding replace_record_def publish_record_def load_record_def read_bounded_def acquire_workload_lock_def
    write_temporary_def write_synced_new_def sync_directory_def cleanup_temporary_def Let_def
  by (rule outside_rules)+

lemma outside_file_store:
  "within same_outside (load (file_store J st) i)" "within same_outside (replace (file_store J st) e n)"
  unfolding file_store_def by (simp_all add: within_map_errE outside_store)

subsection \<open>The other parts leave the store alone\<close>

lemma touches_requests: "touches A (product_request c req)" "touches A (host_request k req)"
  unfolding product_request_def product_configure_timeouts_def product_write_request_def
    host_request_def host_configure_timeouts_def host_write_request_def
  by (rule touches_rules touches_host_calls)+

lemma touches_product_control:
  "touches A (quiesce (product_control c))" "touches A (cancel_quiesce (product_control c))"
  using touches_requests(1) [of A c] unfolding touches_def by (simp_all add: quiesce_result(2) cancel_result(2))

lemma touches_refresh: "touches A (refresh_identity (pinned_control K k e tok))"
  unfolding refresh_identity_def pinned_control_def host_authority_def host_snapshot_def
  by (simp, (rule touches_rules touches_requests)+)

lemma touches_admit: "touches A (admit_after_wake K k t tok)"
  unfolding admit_after_wake_def Let_def by (rule touches_rules touches_requests)+

lemma touches_host_control:
  "touches A (observe (host_control (pinned_control K k e tok)))"
  "touches A (verify_ready (host_control (pinned_control K k e tok)))"
proof -
  have admit: "authority_admit (authority (pinned_control K k e tok)) = admit_after_wake K k"
    by (simp add: pinned_control_def host_authority_def)
  show "touches A (observe (host_control (pinned_control K k e tok)))"
    "touches A (verify_ready (host_control (pinned_control K k e tok)))"
    unfolding host_control_def revalidate_identity_def
    by (simp_all add: admit, (rule touches_rules touches_refresh touches_admit)+)
qed

lemma stored_frame: "touches {} m \<Longrightarrow> m w = (r, w') \<Longrightarrow> True \<and> stored J st w' = stored J st w"
  using stored_in_same [OF agree_empty_same [OF touches_agree]] by blast

text \<open>The contract of the agent's interfaces holds for the composition.\<close>

lemma managed_host_contract:
  assumes "json_roundtrip J"
  shows "recovering_workload (file_store J st) (stored J st) (\<lambda>_. True) (host_control (pinned_control K k e tok))
    (product_control pc) (attested_effects T x)"
  by (intro recovering_workload.intro managed_workload.intro managed_workload_axioms.intro
      recovering_workload_axioms.intro file_store_contract [OF assms])
    (metis stored_frame touches_host_control touches_product_control touches_attested)+

interpretation managed: recovering_workload "file_store plain_codec st" "stored plain_codec st" "\<lambda>_. True"
    "host_control (pinned_control K k e tok)" "product_control pc" "attested_effects T x"
  for st K k e tok pc T x
  by (rule managed_host_contract [OF plain_codec_roundtrip])

subsection \<open>What the controller may do to its host\<close>

text \<open>
  \<open>confined ss d w w'\<close>: between \<open>w\<close> and \<open>w'\<close> the only kernel file written is \<open>cgroup.freeze\<close> of the directory \<open>d\<close>,
  and requests went only to the sockets \<open>ss\<close>.
\<close>

definition confined :: "string set \<Rightarrow> string \<Rightarrow> 'x host_scheme \<Rightarrow> 'x host_scheme \<Rightarrow> bool" where
  "confined ss d w w' \<longleftrightarrow>
     (\<exists>ws. writes w' = writes w @ ws \<and> (\<forall>(t, p, b)\<in>set ws. p = path_join d CGROUP_FREEZE_FILE))
     \<and> (\<exists>ms. sent w' = sent w @ ms \<and> fst ` set ms \<subseteq> ss)"

lemma confined_same: "writes w' = writes w \<Longrightarrow> sent w' = sent w \<Longrightarrow> confined ss d w w'"
  by (simp add: confined_def)

lemma confined_trans:
  assumes "confined ss d u v" and "confined ss d v w"
  shows "confined ss d u w"
proof -
  obtain ws ms where 1: "writes v = writes u @ ws" "\<forall>(t, p, b)\<in>set ws. p = path_join d CGROUP_FREEZE_FILE"
      "sent v = sent u @ ms" "fst ` set ms \<subseteq> ss"
    using assms(1) unfolding confined_def by blast
  obtain ws' ms' where 2: "writes w = writes v @ ws'" "\<forall>(t, p, b)\<in>set ws'. p = path_join d CGROUP_FREEZE_FILE"
      "sent w = sent v @ ms'" "fst ` set ms' \<subseteq> ss"
    using assms(2) unfolding confined_def by blast
  have "writes w = writes u @ (ws @ ws')" "\<forall>(t, p, b)\<in>set (ws @ ws'). p = path_join d CGROUP_FREEZE_FILE"
      "sent w = sent u @ (ms @ ms')" "fst ` set (ms @ ms') \<subseteq> ss"
    using 1 2 by auto
  then show ?thesis
    unfolding confined_def by blast
qed

interpretation confinement: frame_relation "confined ss d" for ss d
  by unfold_locales (auto intro: confined_trans confined_same)

lemma confined_calls:
  "within (confined ss d) (read_to_string p)" "within (confined ss d) (lstat p)" "within (confined ss d) instant_now"
  "within (confined ss d) (write_file (path_join d CGROUP_FREEZE_FILE) b)"
  by (auto simp: within_def confined_def read_to_string_def lstat_def instant_now_def write_file_def split: sum.splits)

lemma confined_outside: "same_outside w w' \<Longrightarrow> confined ss d w w'"
proof (rule confined_same)
  assume "same_outside w w'"
  then have "fs.more w' = fs.more w"
    by (simp add: same_outside_def)
  then show "writes w' = writes w" "sent w' = sent w"
    by (cases w; cases w'; simp)+
qed

lemma confined_file_store:
  "within (confined ss d) (load (file_store J st) i)" "within (confined ss d) (replace (file_store J st) e n)"
  using outside_file_store by (metis confined_outside within_def)+

lemma confined_requests:
  "product_socket_path c \<in> ss \<Longrightarrow> within (confined ss d) (product_request c req)"
  "host_socket_path k \<in> ss \<Longrightarrow> within (confined ss d) (host_request k req)"
  by (auto simp: within_def confined_def product_request_def product_configure_timeouts_def product_write_request_def
      host_request_def host_configure_timeouts_def host_write_request_def
      eff_defs unix_connect_def set_timeouts_def stream_write_all_def shutdown_write_def Let_def)

lemma confined_status: "within (confined ss d) (status c)"
  unfolding status_def by (rule confinement.within_rules confined_calls)+

lemma confined_wait_loop: "confined ss d w (snd (wait_loop c b deadline p w))"
proof (induction c b deadline p w rule: wait_loop.induct)
  case (1 c b deadline p w)
  obtain x w1 where st: "status c w = (x, w1)"
    by fastforce
  have w1: "confined ss d w w1"
    by (rule withinD [OF confined_status st])
  then have later: "confined ss d w (elapse (Suc p) w1)"
    by (rule confined_trans) (simp add: confined_same)
  show ?case
  proof (cases x)
    case (Inl e)
    then show ?thesis
      using st w1 by (simp add: wait_loop.simps [of c b deadline p w])
  next
    case (Inr s)
    then show ?thesis
      using st w1 confined_trans [OF later 1(1) [OF st [symmetric] Inr]]
      by (simp add: wait_loop.simps [of c b deadline p w])
  qed
qed

lemma confined_wait: "within (confined ss d) (wait_for_frozen_state c b timeout poll)"
proof (cases poll)
  case 0
  then show ?thesis by (simp add: wait_for_frozen_state_def confinement.within_pure)
next
  case (Suc p)
  show ?thesis
    unfolding wait_for_frozen_state_def Suc nat.case
    by (rule confinement.within_bindE [OF confined_calls(3)]) (simp add: within_def confined_wait_loop)
qed

lemma confined_attest: "within (confined ss d) (attest a e)"
  unfolding attest_defs by (rule confinement.within_rules confined_calls)+

text \<open>Effects that act on the cgroup of the identity that they attest.\<close>

lemma confined_attested:
  assumes "cgroup_dir (controller (effects x)) = d"
  shows "within (confined ss d) (freeze (attested_effects T x))" "within (confined ss d) (thaw (attested_effects T x))"
    "within (confined ss d) (checkpoint_and_terminate (attested_effects T x))"
    "within (confined ss d) (restore (attested_effects T x) k)"
    "within (confined ss d) (freeze_status (attested_effects T x))"
  unfolding attested_effects_def guarded_effect_def attest_self_def freeze_only_effects_def freeze_effect_def
    thaw_effect_def freeze_status_effect_def request_freeze_def request_thaw_def wait_until_frozen_def wait_until_thawed_def
  by (simp_all add: assms, (rule confinement.within_rules confined_attest confined_wait confined_status confined_calls)+)

lemma confined_controls:
  assumes "product_socket_path pc \<in> ss" and "host_socket_path k \<in> ss"
  shows "within (confined ss d) (quiesce (product_control pc))" "within (confined ss d) (cancel_quiesce (product_control pc))"
    "within (confined ss d) (observe (host_control (pinned_control K k e tok)))"
    "within (confined ss d) (verify_ready (host_control (pinned_control K k e tok)))"
proof -
  show "within (confined ss d) (quiesce (product_control pc))" "within (confined ss d) (cancel_quiesce (product_control pc))"
    using confined_requests(1) [OF assms(1)] unfolding within_def by (simp_all add: quiesce_result(2) cancel_result(2))
  have refresh: "within (confined ss d) (refresh_identity (pinned_control K k e tok))"
    unfolding refresh_identity_def pinned_control_def host_authority_def host_snapshot_def
    by (simp, (rule confinement.within_rules confined_requests assms)+)
  have admit: "within (confined ss d) (authority_admit (authority (pinned_control K k e tok)) t tok')" for t tok'
  proof -
    have "within (confined ss d) (admit_after_wake K k t tok')"
      unfolding admit_after_wake_def Let_def by (rule confinement.within_rules confined_requests assms)+
    then show ?thesis
      by (simp add: pinned_control_def host_authority_def)
  qed
  show "within (confined ss d) (observe (host_control (pinned_control K k e tok)))"
    "within (confined ss d) (verify_ready (host_control (pinned_control K k e tok)))"
    unfolding host_control_def revalidate_identity_def
    by (simp_all, (rule confinement.within_rules refresh admit)+)
qed

text \<open>
  A frame that the calls of the agent's traits keep, for the store those about the workload \<open>i\<close> with an accepted update, is
  kept by a reconciliation and by a recovery of that workload.
\<close>

locale framed_workload = frame_relation R
  for R :: "'w \<Rightarrow> 'w \<Rightarrow> bool" +
  fixes i :: string
    and S :: "'w LifecycleRecordStore" and H :: "'w HostLifecycleControl" and P :: "'w ProductLifecycleControl"
    and E :: "('w, 'x) FreezeTransitionEffects_scheme"
  assumes load_within: "within R (load S i)"
    and loaded_workload: "load S i w = (Ok r, w') \<Longrightarrow> workload_id r = i"
    and replace_within: "workload_id r = i \<Longrightarrow> update_ok r n \<Longrightarrow> within R (replace S r n)"
    and host_within: "within R (observe H)" "within R (verify_ready H)"
    and product_within: "within R (quiesce P)" "within R (cancel_quiesce P)"
    and effects_within: "within R (freeze E)" "within R (thaw E)" "within R (checkpoint_and_terminate E)"
      "within R (restore E ck)" "within R (freeze_status E)"
begin

lemmas calls_within = within_rules load_within host_within product_within effects_within

lemma within_check: "(\<And>a. r = Ok a \<Longrightarrow> within R (k a)) \<Longrightarrow> within R (bindE (liftE r) k)"
  by (cases r) (simp_all add: within_def eff_defs frame_refl)

lemma within_loaded:
  assumes "\<And>r. workload_id r = i \<Longrightarrow> within R (k r)"
  shows "within R (bindE (map_errE f (load S i)) k)"
proof (rule withinI)
  fix w x w'
  assume run: "bindE (map_errE f (load S i)) k w = (x, w')"
  obtain l w1 where l: "load S i w = (l, w1)"
    by fastforce
  have w1: "R w w1"
    by (rule withinD [OF load_within l])
  show "R w w'"
  proof (cases l)
    case (Inl e)
    then show ?thesis using run l w1 by (simp add: eff_defs)
  next
    case (Inr r)
    have k: "k r w1 = (x, w')"
      using run l Inr by (simp add: eff_defs)
    have "within R (k r)"
      using assms loaded_workload l Inr by blast
    from frame_trans [OF w1 withinD [OF this k]] show ?thesis .
  qed
qed

lemma persist_within: "workload_id e = i \<Longrightarrow> within R (persist S e n)"
  unfolding persist_def
  by (intro within_check within_map_errE replace_within) (simp_all add: validate_record_update_iff)

lemma cancel_within:
  assumes "workload_id c = i"
  shows "within R (cancel_suspend_for_demand tok c S P)" "within R (recover_quiesce tok c S P)"
  unfolding cancel_suspend_for_demand_def recover_quiesce_def Let_def
  by (rule calls_within persist_within assms)+

lemma suspend_effect_within: "workload_id c = i \<Longrightarrow> within R (suspend_effect tok p c S E)"
  by (cases "policy_strategy p")
    (simp only: suspend_effect_Freeze suspend_effect_Hibernate Let_def,
      (rule calls_within persist_within | simp only: next_record_simps)+)+

lemma suspend_from_running_within: "workload_id c = i \<Longrightarrow> within R (suspend_from_running tok p c S H P E)"
  unfolding suspend_from_running_def Let_def
  by (rule calls_within persist_within cancel_within suspend_effect_within
      | simp only: next_record_simps | (split ProductQuiesceOutcome.split, safe))+

lemma resume_within:
  assumes "workload_id c = i"
  shows "within R (resume_frozen tok c S H P E)" "within R (restore_hibernated tok c S H P E)"
  unfolding resume_frozen_def restore_hibernated_def Let_def
  by (rule calls_within persist_within assms | simp only: next_record_simps assms)+

lemma reconcile_stable_within:
  assumes "workload_id c = i" and "state c \<in> {PRunning, PFrozen, PHibernated}"
  shows "within R (reconcile_stable tok p c S H P E)"
proof -
  consider "state c = PRunning" | "state c = PFrozen" | "state c = PHibernated"
    using assms(2) by auto
  then show ?thesis
    by cases (simp only: reconcile_stable_cases,
      (rule calls_within suspend_from_running_within resume_within assms(1))+)+
qed

lemma reconcile_once_within:
  assumes "scope_workload_id scope = i"
  shows "within R (reconcile_once scope tok p S H P E)"
  unfolding reconcile_once_def assms
  by (rule within_loaded, intro within_check)
    (simp split: PersistedLifecycleState.split add: within_pure cancel_within reconcile_stable_within)

lemma finish_within: "workload_id c = i \<Longrightarrow> within R (finish_running c tok S H P)"
  unfolding finish_running_def Let_def recovery_persist_eq by (rule calls_within persist_within | assumption)+

lemma recover_states_within:
  assumes "workload_id c = i"
  shows "within R (recover_freezing tok c s S H P E)" "within R (recover_thawing tok c s S H P E)"
  unfolding recover_freezing_def recover_thawing_def Let_def recovery_persist_eq recovery_next_record_eq
  by (rule calls_within persist_within finish_within assms | simp only: next_record_simps assms)+

lemma recovery_within:
  assumes "scope_workload_id scope = i"
  shows "within R (recover_freeze_transition tok scope p S H P E)"
  unfolding recover_freeze_transition_def assms
  by (rule within_loaded, intro within_check within_bindE [OF within_map_errE [OF effects_within(5)]] within_if within_pure)
    (simp split: PersistedLifecycleState.split add: within_pure recover_states_within)

end

lemma file_store_loads_workload: "load (file_store J st) i w = (Ok r, w') \<Longrightarrow> workload_id r = i"
  using load_record_Ok by (auto simp: file_store_def eff_Ok_iff)

interpretation confined_managed: framed_workload
    "confined {product_socket_path pc, host_socket_path k} (cgroup_dir (controller (effects x)))"
    i "file_store J st" "host_control (pinned_control K k e tok)" "product_control pc" "attested_effects T x"
  for pc k x i J st K e tok T
  by unfold_locales (auto intro!: confined_file_store confined_controls confined_attested dest: file_store_loads_workload)

text \<open>
  The controller of one workload under a grant: the agent's functions applied to the adapters, with the host
  control pinned to the observed incarnation \<open>e\<close> under the token of the grant.
\<close>

abbreviation managed_reconcile ::
  "json_codec \<Rightarrow> FileLifecycleRecordStore \<Rightarrow> host_json \<Rightarrow> TrustedHostControlClient \<Rightarrow> TrustedWorkloadSnapshot \<Rightarrow>
   ProductControlClient \<Rightarrow> (io_kind \<Rightarrow> string) \<Rightarrow> AttestedFreezeOnlyCgroupEffects \<Rightarrow> FencedLifecycleGrant \<Rightarrow>
   ControllerScope \<Rightarrow> LifecyclePolicy \<Rightarrow> ('x host_scheme) reconcile" where
  "managed_reconcile J st K k e pc T x g scope p \<equiv>
     reconcile_with_fenced_grant g scope p (file_store J st) (host_control (pinned_control K k e (grant_token g)))
       (product_control pc) (attested_effects T x)"

abbreviation managed_recovery ::
  "json_codec \<Rightarrow> FileLifecycleRecordStore \<Rightarrow> host_json \<Rightarrow> TrustedHostControlClient \<Rightarrow> TrustedWorkloadSnapshot \<Rightarrow>
   ProductControlClient \<Rightarrow> (io_kind \<Rightarrow> string) \<Rightarrow> AttestedFreezeOnlyCgroupEffects \<Rightarrow> FencedLifecycleGrant \<Rightarrow>
   ControllerScope \<Rightarrow> LifecyclePolicy \<Rightarrow> ('x host_scheme) recovery" where
  "managed_recovery J st K k e pc T x g scope p \<equiv>
     recover_freeze_transition_with_fenced_grant g scope p (file_store J st)
       (host_control (pinned_control K k e (grant_token g))) (product_control pc) (attested_effects T x)"

lemma managed_confined:
  "confined {product_socket_path pc, host_socket_path k} (cgroup_dir (controller (effects x))) w
     (snd (managed_reconcile J st K k e pc T x g scope p w))"
  "confined {product_socket_path pc, host_socket_path k} (cgroup_dir (controller (effects x))) w
     (snd (managed_recovery J st K k e pc T x g scope p w))"
  unfolding reconcile_with_fenced_grant_def recover_freeze_transition_with_fenced_grant_def
  by (rule within_snd [OF confined_managed.reconcile_once_within [OF refl]] within_snd [OF confined_managed.recovery_within [OF refl]])+

subsection \<open>Fencing\<close>

text \<open>A controller whose token is older than the fence of the stored record is turned away after the load.\<close>

lemma stale_fence_stops:
  assumes "fencing_token r > tok" and "load S (scope_workload_id scope) w = (l, w1)" and "l = Ok r \<or> is_Err l"
  shows "snd (reconcile_once scope tok p S H P E w) = w1 \<and> is_Err (fst (reconcile_once scope tok p S H P E w))"
    and "snd (recover_freeze_transition tok scope p S H P E w) = w1
      \<and> is_Err (fst (recover_freeze_transition tok scope p S H P E w))"
proof -
  have auth: "is_Err (validate_authority scope tok r)" "is_Err (validate_recovery_authority scope tok p r)"
    using assms(1) by (auto simp: validate_authority_def validate_recovery_authority_def)
  show "snd (reconcile_once scope tok p S H P E w) = w1 \<and> is_Err (fst (reconcile_once scope tok p S H P E w))"
    using assms(2,3) auth(1)
    by (cases l; cases "validate r"; cases "validate_authority scope tok r")
      (auto simp: reconcile_once_def eff_defs)
  show "snd (recover_freeze_transition tok scope p S H P E w) = w1
      \<and> is_Err (fst (recover_freeze_transition tok scope p S H P E w))"
    using assms(2,3) auth(2)
    by (cases l; cases "validate r"; cases "validate_recovery_authority scope tok p r")
      (auto simp: recover_freeze_transition_def eff_defs)
qed

text \<open>The load of the file store changes neither the records nor anything outside the file system.\<close>

lemma load_from_file_store:
  assumes "stored J st w i = Some r" and "load (file_store J st) i w = (l, w1)"
  shows "(l = Ok r \<or> is_Err l) \<and> stored J st w1 = stored J st w \<and> same_outside w w1"
proof -
  obtain x where x: "load_record J st i w = (x, w1)" "l = map_err FileLifecycleRecordStoreError_fmt x"
    using assms(2) by (auto simp: file_store_def map_errE_def split: prod.splits)
  have "l = Ok r \<or> is_Err l"
    using x load_record_Ok(1) [of J st i w _ w1] assms(1) by (cases x) auto
  then show ?thesis
    using load_record_frame [OF x(1)] withinD [OF outside_file_store(1) assms(2)] by blast
qed

end
