(* ===== verification/Deployment.thy ===== *)
theory Deployment
  imports Managed_Host
begin

section \<open>Crashes, races and restarts\<close>

text \<open>
  Many controllers, on several hosts and over many lives of their processes, share the record directory of a
  workload. This theory puts their runs together: \<open>deployment_step\<close> lets whole runs, single store calls of
  others, crashes of the process or of the machine in the middle of a run and restarts follow each other in any order,
  and \<open>interfered\<close> lets all of that happen between any two calls of one run. Along all of it the stored records of each
  workload form one history.
\<close>

subsection \<open>The states that a run passes through\<close>

text \<open>
  \<open>records_advanced J st i m m'\<close>: the records in \<open>m'\<close> are those in \<open>m\<close>, up to a later record of the workload \<open>i\<close>.
  \<open>run_advances\<close>: so are the files in every state from \<open>w\<close> to \<open>w'\<close>, and where all record files were synced, they
  still are.
\<close>

definition records_advanced :: "json_codec \<Rightarrow> FileLifecycleRecordStore \<Rightarrow> string \<Rightarrow> file_map \<Rightarrow> file_map \<Rightarrow> bool" where
  "records_advanced J st i m m' \<longleftrightarrow>
     stored_in J st m' = stored_in J st m
     \<or> (\<exists>r n. stored_in J st m i = Some r \<and> record_history r n \<and> stored_in J st m' = (stored_in J st m)(i \<mapsto> n))"

definition run_advances :: "json_codec \<Rightarrow> FileLifecycleRecordStore \<Rightarrow> string \<Rightarrow> 'x fs_scheme \<Rightarrow> 'x fs_scheme \<Rightarrow> bool" where
  "run_advances J st i w w' \<longleftrightarrow>
     extends (\<lambda>h. records_advanced J st i (nodes w) h \<and> (records_synced st (nodes w) \<longrightarrow> records_synced st h)) w w'"

lemma advanced_same: "same_records st m m' \<Longrightarrow> records_advanced J st i m m'"
  by (simp add: records_advanced_def stored_in_same)

lemma advanced_trans: "records_advanced J st i a b \<Longrightarrow> records_advanced J st i b c \<Longrightarrow> records_advanced J st i a c"
  unfolding records_advanced_def by (auto, metis record_history_trans)

lemma advanced_nodes:
  assumes "run_advances J st i w w'"
  shows "records_advanced J st i (nodes w) (nodes w')" "records_synced st (nodes w) \<Longrightarrow> records_synced st (nodes w')"
  using extends_nodes [OF assms [unfolded run_advances_def]] by simp_all

interpretation crash_frame: frame_relation "run_advances J st i" for J st i
proof
  show "run_advances J st i w w" for w :: "'x fs_scheme"
    by (simp add: run_advances_def extends_refl records_advanced_def)
  show "run_advances J st i u w" if "run_advances J st i u v" "run_advances J st i v w" for u v w :: "'x fs_scheme"
    unfolding run_advances_def
    by (rule extends_trans [OF that(1) [unfolded run_advances_def] that(2) [unfolded run_advances_def]])
      (use advanced_nodes [OF that(1)] advanced_trans in blast)
qed

lemma touches_advances:
  assumes "touches {} m"
  shows "within (run_advances J st i) m"
  unfolding within_def run_advances_def
proof (intro allI)
  fix w
  have "extends (agree {} (nodes w)) w (snd (m w))"
    using assms by (simp add: touches_def)
  then show "extends (\<lambda>h. records_advanced J st i (nodes w) h \<and> (records_synced st (nodes w) \<longrightarrow> records_synced st h))
      w (snd (m w))"
    by (rule extends_mono) (use agree_empty_same advanced_same records_synced_same in blast)
qed

lemma replace_advances:
  assumes "json_roundtrip J" and "workload_id e = i"
  shows "within (run_advances J st i) (replace_record J st e n)"
proof (rule withinI)
  fix w :: "'x fs_scheme" and r w'
  assume run: "replace_record J st e n w = (r, w')"
  define Q where "Q = records_or_next J st (stored J st w (workload_id e) = Some e \<and> update_ok e n) n (nodes w)"
  have "extends Q w w'"
    using hoareE_D [OF replace_record_triple [OF Q_def] refl run] by (auto split: sum.splits)
  moreover have "records_synced st (nodes w) \<longrightarrow> records_synced st m" if "Q m" for m
    using that records_or_next_synced unfolding Q_def by blast
  moreover have "records_advanced J st i (nodes w) m" if "Q m" for m
  proof (cases "same_records st (nodes w) m")
    case False
    then have cur: "stored J st w i = Some e" "update_ok e n"
        "stored_in J st m = (stored J st w)(workload_id n \<mapsto> n)"
      using that assms unfolding Q_def records_or_next_def by (auto simp: stored_in_published)
    then have "record_history e n" "workload_id n = i"
      using assms(2) record_history_one by (auto simp: update_ok_def)
    then show ?thesis
      using cur by (auto simp: records_advanced_def)
  qed (simp add: advanced_same)
  ultimately show "run_advances J st i w w'"
    unfolding run_advances_def by (blast intro: extends_mono)
qed

lemma crash_safe_contract:
  assumes "json_roundtrip J"
  shows "framed_workload (run_advances J st i) i (file_store J st) (host_control (pinned_control K k e tok))
    (product_control pc) (attested_effects T x)"
proof (intro framed_workload.intro crash_frame.frame_relation_axioms framed_workload_axioms.intro)
  show "within (run_advances J st i) (load (file_store J st) i)"
    by (simp add: file_store_def within_map_errE touches_advances touches_load_record)
  show "workload_id r = i" if "load (file_store J st) i w = (Ok r, w')" for w r w'
    by (rule file_store_loads_workload [OF that])
  show "within (run_advances J st i) (replace (file_store J st) r n)" if "workload_id r = i" for r n
    using that by (simp add: file_store_def within_map_errE replace_advances [OF assms])
qed (rule touches_advances, rule touches_host_control touches_product_control touches_attested)+

interpretation crash_safe: framed_workload "run_advances plain_codec st i" i "file_store plain_codec st"
    "host_control (pinned_control K k e tok)" "product_control pc" "attested_effects T x"
  for st i K k e tok pc T x
  by (rule crash_safe_contract [OF plain_codec_roundtrip])

lemma managed_advances:
  assumes "json_roundtrip J"
  shows "run_advances J st (scope_workload_id scope) w (snd (managed_reconcile J st K k e pc T x g scope p w))"
    and "run_advances J st (scope_workload_id scope) w (snd (managed_recovery J st K k e pc T x g scope p w))"
  unfolding reconcile_with_fenced_grant_def recover_freeze_transition_with_fenced_grant_def
  by (rule within_snd [OF framed_workload.reconcile_once_within [OF crash_safe_contract [OF assms] refl]],
      rule within_snd [OF framed_workload.recovery_within [OF crash_safe_contract [OF assms] refl]])

lemma managed_run_advances:
  assumes "json_roundtrip J"
  shows "managed_reconcile J st K k e pc T x g scope p w = (res, w') \<Longrightarrow> run_advances J st (scope_workload_id scope) w w'"
    and "managed_recovery J st K k e pc T x g scope p w = (out, w') \<Longrightarrow> run_advances J st (scope_workload_id scope) w w'"
  using managed_advances [OF assms] by (metis snd_conv)+

subsection \<open>Deployments\<close>

text \<open>
  One step of a deployment, between the hosts as two observers of the shared directory see them: a controller
  reconciles or recovers some workload, under any grant and scope, to the end, or it is stopped on the way and what
  comes after finds the files that \<open>stopped\<close> says; a record is published for the first time, also up to a crash;
  another controller makes one store call in the middle of its run; the store is opened, which removes temporary
  files; anything outside the record files changes.

  A run from \<open>w\<close> to \<open>w'\<close> that is stopped because its process ends leaves the files of a state that it passed
  through. When the machine crashes, it leaves a crash image of a file map that the disk may hold: of a crash point of
  \<open>w\<close> or of a state passed through. This second case is taken from states whose records are settled. A record that
  was renamed into place while syncing the directory failed or is still to come is visible to readers, who take no
  lock, and a crash of the machine can undo it, so that nothing could be said about what such a reader saw.
\<close>

definition passed :: "'x fs_scheme \<Rightarrow> 'x fs_scheme \<Rightarrow> file_map list" where
  "passed w w' = drop (length (history w)) (history w') @ [nodes w']"

definition machine_crash :: "'x fs_scheme \<Rightarrow> 'x fs_scheme \<Rightarrow> file_map \<Rightarrow> bool" where
  "machine_crash w w' m \<longleftrightarrow> (\<exists>h\<in>set (crash_points w @ passed w w'). crash_image h m)"

definition stopped :: "FileLifecycleRecordStore \<Rightarrow> 'x fs_scheme \<Rightarrow> 'x fs_scheme \<Rightarrow> file_map \<Rightarrow> bool" where
  "stopped st w w' m \<longleftrightarrow> m \<in> set (passed w w') \<or> settled st w \<and> machine_crash w w' m"

inductive deployment_step :: "json_codec \<Rightarrow> FileLifecycleRecordStore \<Rightarrow> 'x host_scheme \<Rightarrow> 'x host_scheme \<Rightarrow> bool"
  for J :: json_codec and st :: FileLifecycleRecordStore
where
  reconcile_step: "managed_reconcile J st K k e pc T x g scope p w = (res, w') \<Longrightarrow> stopped st w w' (nodes v) \<Longrightarrow>
    deployment_step J st w v"
| recovery_step: "managed_recovery J st K k e pc T x g scope p w = (out, w') \<Longrightarrow> stopped st w w' (nodes v) \<Longrightarrow>
    deployment_step J st w v"
| create_step: "initialize J st r w = (ans, w') \<Longrightarrow> stopped st w w' (nodes v) \<Longrightarrow> deployment_step J st w v"
| replace_step: "replace_record J st c n w = (ans, w') \<Longrightarrow> stopped st w w' (nodes v) \<Longrightarrow> deployment_step J st w v"
| open_step: "open_store root w = (Ok st, w') \<Longrightarrow> deployment_step J st w w'"
| other_step: "same_records st (nodes w) (nodes v) \<Longrightarrow> deployment_step J st w v"

abbreviation deployment :: "json_codec \<Rightarrow> FileLifecycleRecordStore \<Rightarrow> 'x host_scheme \<Rightarrow> 'x host_scheme \<Rightarrow> bool" where
  "deployment J st \<equiv> (deployment_step J st)\<^sup>*\<^sup>*"

text \<open>\<open>kept J st w w'\<close>: every stored record is still there or was replaced by a later one of its history.\<close>

definition kept :: "json_codec \<Rightarrow> FileLifecycleRecordStore \<Rightarrow> 'x fs_scheme \<Rightarrow> 'x fs_scheme \<Rightarrow> bool" where
  "kept J st w w' \<longleftrightarrow>
     (\<forall>i r. stored J st w i = Some r \<longrightarrow> (\<exists>n. stored J st w' i = Some n \<and> record_history r n))"

interpretation keeping: frame_relation "kept J st" for J st
proof
  show "kept J st w w" for w :: "'x fs_scheme"
    by (auto simp: kept_def intro: history_refl)
  show "kept J st u w" if "kept J st u v" "kept J st v w" for u v w :: "'x fs_scheme"
    using that unfolding kept_def by (meson record_history_trans)
qed

lemma kept_stored: "stored J st w' = stored J st w \<Longrightarrow> kept J st w w'"
  by (auto simp: kept_def intro: history_refl)

lemma kept_advanced: "records_advanced J st i (nodes w) (nodes w') \<Longrightarrow> kept J st w w'"
  by (auto simp: kept_def records_advanced_def intro: history_refl)

lemma passed_extends: "extends Q w w' \<Longrightarrow> m \<in> set (passed w w') \<Longrightarrow> Q m"
  by (auto simp: extends_def passed_def)

text \<open>A crash in the state that a run leaves is a crash of that run.\<close>

lemma crash_points_passed:
  assumes "extends Q w w'"
  shows "set (crash_points w') \<subseteq> set (crash_points w) \<union> set (passed w w')"
proof -
  obtain hs where "history w' = history w @ hs" "set (crash_points w') \<subseteq> set (crash_points w) \<union> set hs"
    using assms unfolding extends_def by blast
  then show ?thesis by (auto simp: passed_def)
qed

text \<open>What holds of the files along a run holds after a crash, when it only depends on the synced records.\<close>

lemma machine_crash_records:
  assumes "settled st w" and "extends (\<lambda>h. Q h \<and> (records_synced st (nodes w) \<longrightarrow> records_synced st h)) w w'"
    and "machine_crash w w' m"
  shows "\<exists>h. (same_records st (nodes w) h \<or> Q h) \<and> records_synced st h \<and> same_records st h m"
proof -
  have synced: "records_synced st (nodes w)"
    using assms(1) by (simp add: settled_def)
  obtain h where h: "h \<in> set (crash_points w) \<or> h \<in> set (passed w w')" "crash_image h m"
    using assms(3) by (auto simp: machine_crash_def)
  have "(same_records st (nodes w) h \<or> Q h) \<and> records_synced st h"
    using h(1)
  proof
    assume "h \<in> set (crash_points w)"
    then have "same_records st (nodes w) h"
      using assms(1) by (auto simp: crash_points_def settled_def list_all_iff)
    then show ?thesis
      using synced records_synced_same by blast
  next
    assume "h \<in> set (passed w w')"
    then show ?thesis
      using passed_extends [OF assms(2)] synced by blast
  qed
  then show ?thesis
    using crash_image_records [OF h(2)] by blast
qed

lemma stopped_records:
  assumes "extends (\<lambda>h. Q h \<and> (records_synced st (nodes w) \<longrightarrow> records_synced st h)) w w'" and "stopped st w w' m"
  shows "\<exists>h. (same_records st (nodes w) h \<or> Q h) \<and> same_records st h m"
proof (cases "m \<in> set (passed w w')")
  case True
  then have "Q m"
    using passed_extends [OF assms(1)] by blast
  then show ?thesis
    using same_records_refl by blast
next
  case False
  then show ?thesis
    using assms(2) machine_crash_records [OF _ assms(1)] unfolding stopped_def by blast
qed

lemma machine_crash_advances:
  assumes "run_advances J st i w w'" and "settled st w" and "machine_crash w w' m"
  shows "records_advanced J st i (nodes w) m \<and> records_synced st m"
proof -
  obtain h where h: "same_records st (nodes w) h \<or> records_advanced J st i (nodes w) h" "records_synced st h"
      "same_records st h m"
    using machine_crash_records [OF assms(2) assms(1) [unfolded run_advances_def] assms(3)] by blast
  have "records_advanced J st i (nodes w) h"
    using h(1) advanced_same by blast
  then show ?thesis
    using advanced_trans [OF _ advanced_same [OF h(3)]] records_synced_same [OF h(3,2)] by blast
qed

lemma advances_passed:
  assumes "run_advances J st i w w'" and "stopped st w w' (nodes v)"
  shows "kept J st w v"
proof -
  obtain h where "same_records st (nodes w) h \<or> records_advanced J st i (nodes w) h" "same_records st h (nodes v)"
    using stopped_records [OF assms(1) [unfolded run_advances_def] assms(2)] by blast
  then have "records_advanced J st i (nodes w) (nodes v)"
    using advanced_trans [OF _ advanced_same] advanced_same by blast
  then show ?thesis by (rule kept_advanced)
qed

lemma initialize_passed:
  assumes "json_roundtrip J" and "initialize J st n w = (r, w')" and "stopped st w w' (nodes v)"
  shows "kept J st w v"
proof (cases "record_path st (workload_id n)")
  case (Inl x)
  then have "is_Err (validate_record n)"
    by (auto simp: record_path_def validate_record_def bindR_def split: sum.splits)
  then have "w' = w"
    using assms(2) by (auto simp: initialize_def bindE_def liftE_def is_Err_def split: sum.splits)
  then have "run_advances J st (workload_id n) w w'"
    by (simp add: crash_frame.frame_refl)
  then show ?thesis
    using assms(3) by (rule advances_passed)
next
  case (Inr p)
  define Q where "Q = records_or_next J st (map_of (nodes w) p = None) n (nodes w)"
  have "extends Q w w'"
    using hoareE_D [OF initialize_triple [OF Q_def Inr] refl assms(2)] by (auto split: sum.splits)
  then have "extends (\<lambda>h. Q h \<and> (records_synced st (nodes w) \<longrightarrow> records_synced st h)) w w'"
    unfolding Q_def by (rule extends_mono) (blast dest: records_or_next_synced)
  from stopped_records [OF this assms(3)]
  obtain h where h: "same_records st (nodes w) h \<or> Q h" "stored_in J st (nodes v) = stored_in J st h"
    using stored_in_same by blast
  moreover have "map_of (nodes w) p = None \<Longrightarrow> stored J st w (workload_id n) = None"
    using Inr by (simp add: stored_in_def)
  ultimately have "stored J st v = stored J st w
      \<or> stored J st w (workload_id n) = None \<and> stored J st v = (stored J st w)(workload_id n \<mapsto> n)"
    using stored_in_same [of st "nodes w" h J] stored_in_published [OF assms(1)]
    unfolding Q_def records_or_next_def by fastforce
  then show ?thesis
    by (auto simp: kept_def intro: history_refl)
qed

lemma deployment_step_kept:
  assumes "json_roundtrip J" and "deployment_step J st w v"
  shows "kept J st w v"
  using assms(2)
proof cases
  case (reconcile_step K k e pc T x g scope p res w')
  then show ?thesis
    using advances_passed [OF managed_run_advances(1) [OF assms(1)]] by blast
next
  case (recovery_step K k e pc T x g scope p out w')
  then show ?thesis
    using advances_passed [OF managed_run_advances(2) [OF assms(1)]] by blast
next
  case (create_step r ans w')
  then show ?thesis by (rule initialize_passed [OF assms(1)])
next
  case (replace_step c n ans w')
  then show ?thesis
    using withinD [OF replace_advances [OF assms(1) refl]] by (blast intro: advances_passed)
next
  case (open_step root)
  then show ?thesis
    using open_store_Ok(2) stored_in_same kept_stored by blast
next
  case other_step
  then show ?thesis
    using stored_in_same kept_stored by blast
qed

lemma deployment_kept: "json_roundtrip J \<Longrightarrow> deployment J st w v \<Longrightarrow> kept J st w v"
  by (rotate_tac, induction rule: rtranclp_induct)
    (auto intro: keeping.frame_refl keeping.frame_trans deployment_step_kept)

subsection \<open>Interleaved runs\<close>

text \<open>
  A run among others: before each call of a trait the other parties act, by an arbitrary function on the host.
\<close>

definition interfered :: "('w \<Rightarrow> 'w) \<Rightarrow> ('w, 'e, 'a) eff \<Rightarrow> ('w, 'e, 'a) eff" where
  "interfered env m w = m (env w)"

definition interfered_store :: "('w \<Rightarrow> 'w) \<Rightarrow> 'w LifecycleRecordStore \<Rightarrow> 'w LifecycleRecordStore" where
  "interfered_store env S = \<lparr>load = (\<lambda>i. interfered env (load S i)), replace = (\<lambda>e n. interfered env (replace S e n))\<rparr>"

definition interfered_host :: "('w \<Rightarrow> 'w) \<Rightarrow> 'w HostLifecycleControl \<Rightarrow> 'w HostLifecycleControl" where
  "interfered_host env H = \<lparr>observe = interfered env (observe H), verify_ready = interfered env (verify_ready H)\<rparr>"

definition interfered_product :: "('w \<Rightarrow> 'w) \<Rightarrow> 'w ProductLifecycleControl \<Rightarrow> 'w ProductLifecycleControl" where
  "interfered_product env P = \<lparr>quiesce = interfered env (quiesce P), cancel_quiesce = interfered env (cancel_quiesce P)\<rparr>"

definition interfered_effects :: "('w \<Rightarrow> 'w) \<Rightarrow> 'w FreezeTransitionEffects \<Rightarrow> 'w FreezeTransitionEffects" where
  "interfered_effects env E =
     \<lparr>freeze = interfered env (freeze E), thaw = interfered env (thaw E),
      checkpoint_and_terminate = interfered env (checkpoint_and_terminate E),
      restore = (\<lambda>c. interfered env (restore E c)), freeze_status = interfered env (freeze_status E)\<rparr>"

lemmas interfered_defs = interfered_store_def interfered_host_def interfered_product_def interfered_effects_def

lemma kept_interfered:
  assumes "\<And>w. kept J st w (env w)" and "within (run_advances J st i) m"
  shows "within (kept J st) (interfered env m)"
  unfolding within_def interfered_def
  using assms(1) kept_advanced [OF advanced_nodes(1) [OF within_snd [OF assms(2)]]] keeping.frame_trans by blast

lemma interfered_contract:
  assumes "json_roundtrip J" and "\<And>w. deployment J st w (env w)"
  shows "framed_workload (kept J st) i (interfered_store env (file_store J st))
    (interfered_host env (host_control (pinned_control K k e tok))) (interfered_product env (product_control pc))
    (interfered_effects env (attested_effects T x))"
proof (intro framed_workload.intro keeping.frame_relation_axioms framed_workload_axioms.intro)
  have env: "kept J st w (env w)" for w
    by (rule deployment_kept [OF assms])
  note c = crash_safe_contract [OF assms(1), of st i K k e tok pc T x]
  note calls = framed_workload.load_within [OF c] framed_workload.host_within [OF c] framed_workload.product_within [OF c]
    framed_workload.effects_within [OF c]
  show "within (kept J st) (load (interfered_store env (file_store J st)) i)"
    "within (kept J st) (observe (interfered_host env (host_control (pinned_control K k e tok))))"
    "within (kept J st) (verify_ready (interfered_host env (host_control (pinned_control K k e tok))))"
    "within (kept J st) (quiesce (interfered_product env (product_control pc)))"
    "within (kept J st) (cancel_quiesce (interfered_product env (product_control pc)))"
    "within (kept J st) (freeze (interfered_effects env (attested_effects T x)))"
    "within (kept J st) (thaw (interfered_effects env (attested_effects T x)))"
    "within (kept J st) (checkpoint_and_terminate (interfered_effects env (attested_effects T x)))"
    "within (kept J st) (restore (interfered_effects env (attested_effects T x)) ck)"
    "within (kept J st) (freeze_status (interfered_effects env (attested_effects T x)))" for ck
    unfolding interfered_defs by (simp, rule kept_interfered [OF env], rule calls)+
  show "workload_id r = i" if "load (interfered_store env (file_store J st)) i w = (Ok r, w')" for w r w'
    using that framed_workload.loaded_workload [OF c] by (auto simp: interfered_defs interfered_def)
  show "within (kept J st) (replace (interfered_store env (file_store J st)) r n)"
    if "workload_id r = i" "update_ok r n" for r n
    using kept_interfered [OF env framed_workload.replace_within [OF c that]] by (simp add: interfered_defs)
qed

text \<open>What an outcome says when others act in between: the last publication of the run stands at its end.\<close>

locale contended_store =
  fixes S :: "'w LifecycleRecordStore" and stored_now :: "'w \<Rightarrow> string \<Rightarrow> LifecycleRecord option" and i :: string
  assumes published: "workload_id e = i \<Longrightarrow> replace S e n w = (Ok (), w') \<Longrightarrow> stored_now w' i = Some n"
    and loaded: "load S i w = (Ok r, w') \<Longrightarrow> workload_id r = i"
begin

definition stands :: "u64 \<Rightarrow> PersistedLifecycleState \<Rightarrow> 'w \<Rightarrow> bool" where
  "stands tok s w \<longleftrightarrow> (\<exists>n. stored_now w i = Some n \<and> fencing_token n = tok \<and> state n = s)"

definition reported :: "u64 \<Rightarrow> LifecyclePolicy \<Rightarrow> ReconcileOutcome \<Rightarrow> 'w \<Rightarrow> bool" where
  "reported tok p out w \<longleftrightarrow>
     (case out of
        NoChange \<Rightarrow> True
      | Suspended \<Rightarrow> stands tok (case policy_strategy p of Freeze \<Rightarrow> PFrozen | Hibernate \<Rightarrow> PHibernated) w
      | _ \<Rightarrow> stands tok PRunning w)"

definition recovered :: "u64 \<Rightarrow> FreezeRecoveryOutcome \<Rightarrow> 'w \<Rightarrow> bool" where
  "recovered tok out w \<longleftrightarrow> stands tok (case out of RecoveredFrozen \<Rightarrow> PFrozen | RecoveredRunning \<Rightarrow> PRunning) w"

abbreviation ends :: "('w, 'e, 'a) eff \<Rightarrow> ('a \<Rightarrow> 'w \<Rightarrow> bool) \<Rightarrow> bool" where
  "ends m D \<equiv> hoareE (\<lambda>_. True) m D (\<lambda>_. True)"

lemma ends_persist:
  assumes "workload_id e = i"
  shows "ends (persist S e n) (\<lambda>_ w. stored_now w i = Some n)"
  unfolding hoareE_def
proof (intro allI impI)
  fix w
  obtain x w' where rep: "replace S e n w = (x, w')"
    by fastforce
  then have "x = Ok () \<Longrightarrow> stored_now w' i = Some n"
    using published [OF assms] by blast
  then show "case persist S e n w of (r, w') \<Rightarrow> case r of Err _ \<Rightarrow> True | Ok _ \<Rightarrow> stored_now w' i = Some n"
    using rep by (cases "validate_record_update e n"; cases x) (simp_all add: persist_def eff_defs)
qed

lemma ends_publication:
  assumes "workload_id e = i" and "\<And>w. stands tok s w \<Longrightarrow> D out w"
  shows "ends (bindE (persist S e (next_record e tok s c)) (\<lambda>_. returnE out)) D"
  by (rule hoareE_bindE [OF ends_persist [OF assms(1)] hoareE_returnE], rule assms(2)) (simp add: stands_def)

lemma ends_skip: "(\<And>a. ends (k a) D) \<Longrightarrow> ends (bindE m k) D"
  by (rule hoareE_bindE [where B = "\<lambda>_ _. True"]) (auto simp: hoareE_def split: prod.splits sum.splits)

lemma ends_loaded:
  assumes "\<And>r. workload_id r = i \<Longrightarrow> ends (k r) D"
  shows "ends (bindE (map_errE f (load S i)) k) D"
proof (rule hoareE_bindE [where B = "\<lambda>r _. workload_id r = i"])
  show "hoareE (\<lambda>_. True) (map_errE f (load S i)) (\<lambda>r _. workload_id r = i) (\<lambda>_. True)"
    using loaded by (intro hoareE_map_errE) (auto simp: hoareE_def split: prod.split sum.split)
  show "hoareE (\<lambda>_. workload_id r = i) (k r) D (\<lambda>_. True)" for r
    by (rule hoareE_pure [where P = "workload_id r = i"]) (auto intro: hoareE_conseq [OF assms])
qed

lemma ends_throw: "ends (throwE e) D"
  by (simp add: hoareE_def throwE_def)

lemma suspend_ends:
  assumes "workload_id c = i"
  shows "ends (cancel_suspend_for_demand tok c S P) (reported tok p)" "ends (recover_quiesce tok c S P) (reported tok p)"
    "ends (suspend_effect tok p c S E) (reported tok p)"
proof -
  show "ends (cancel_suspend_for_demand tok c S P) (reported tok p)" "ends (recover_quiesce tok c S P) (reported tok p)"
    unfolding cancel_suspend_for_demand_def recover_quiesce_def Let_def
    by (rule ends_skip, rule ends_publication, simp add: assms, simp add: reported_def)+
  show "ends (suspend_effect tok p c S E) (reported tok p)"
    by (cases "policy_strategy p")
      (simp only: suspend_effect_Freeze suspend_effect_Hibernate Let_def, rule ends_skip, rule ends_skip, rule ends_publication,
        simp_all add: assms reported_def)+
qed

lemma stable_ends:
  assumes "workload_id c = i" and "state c \<in> {PRunning, PFrozen, PHibernated}"
  shows "ends (reconcile_stable tok p c S H P E) (reported tok p)"
proof -
  have same: "ends (returnE NoChange) (reported tok p)"
    by (simp add: hoareE_def returnE_def reported_def)
  have frozen: "ends (resume_frozen tok c S H P E) (reported tok p)"
    "ends (restore_hibernated tok c S H P E) (reported tok p)"
    unfolding resume_frozen_def restore_hibernated_def Let_def
    by (rule ends_skip, rule ends_skip, rule ends_skip, rule ends_skip, rule ends_publication, simp add: assms(1), simp add: reported_def)
      (rule ends_skip, rule ends_skip, rule ends_skip, rule ends_skip, rule ends_skip, rule ends_publication, simp add: assms(1), simp add: reported_def)
  have running: "ends (suspend_from_running tok p c S H P E) (reported tok p)"
    unfolding suspend_from_running_def Let_def
    by (rule ends_skip, rule ends_skip, split ProductQuiesceOutcome.split)
      (auto intro!: ends_skip hoareE_if suspend_ends simp: assms(1))
  consider "state c = PRunning" | "state c = PFrozen" | "state c = PHibernated"
    using assms(2) by auto
  then show ?thesis
    by cases (simp only: reconcile_stable_cases, rule ends_skip, intro hoareE_if same frozen running)+
qed

lemma reconcile_ends:
  assumes "scope_workload_id scope = i"
  shows "ends (reconcile_once scope tok p S H P E) (reported tok p)"
  unfolding reconcile_once_def assms
  by (rule ends_loaded, rule ends_skip, rule ends_skip, rule ends_skip)
    (simp split: PersistedLifecycleState.split add: ends_throw suspend_ends stable_ends)

lemma finish_ends: "workload_id c = i \<Longrightarrow> ends (finish_running c tok S H P) (recovered tok)"
  unfolding finish_running_def Let_def recovery_persist_eq recovery_next_record_eq
  by (rule ends_skip, rule ends_skip, rule ends_publication) (simp_all add: recovered_def)

lemma recovery_ends:
  assumes "scope_workload_id scope = i"
  shows "ends (recover_freeze_transition tok scope p S H P E) (recovered tok)"
proof -
  have freezing: "ends (recover_freezing tok c s S H P E) (recovered tok)" if "workload_id c = i" for c s
    unfolding recover_freezing_def Let_def recovery_persist_eq recovery_next_record_eq
    by (rule hoareE_if, rule ends_publication, simp add: that, simp add: recovered_def)
      (rule ends_skip, rule ends_skip, rule finish_ends, simp add: that)
  have thawing: "ends (recover_thawing tok c s S H P E) (recovered tok)" if "workload_id c = i" for c s
    unfolding recover_thawing_def by (rule hoareE_if, rule ends_skip) (rule finish_ends [OF that])+
  show ?thesis
    unfolding recover_freeze_transition_def assms
    by (rule ends_loaded, rule ends_skip, rule ends_skip, rule ends_skip, rule hoareE_if, rule ends_throw)
      (simp split: PersistedLifecycleState.split add: ends_throw freezing thawing)
qed

end

lemma interfered_store_contract:
  assumes "json_roundtrip J"
  shows "contended_store (interfered_store env (file_store J st)) (stored J st) i"
proof
  show "stored J st w' i = Some n"
    if "workload_id e = i" "replace (interfered_store env (file_store J st)) e n w = (Ok (), w')" for e n w w'
    using that replace_record_stored(2) [OF assms _ refl]
    by (fastforce simp: interfered_store_def interfered_def file_store_def eff_Ok_iff)
  show "workload_id r = i" if "load (interfered_store env (file_store J st)) i w = (Ok r, w')" for w r w'
    using that file_store_loads_workload by (auto simp: interfered_store_def interfered_def)
qed

interpretation contended: contended_store "interfered_store env (file_store plain_codec st)" "stored plain_codec st" i
  for env st i
  by (rule interfered_store_contract [OF plain_codec_roundtrip])

abbreviation interleaved_reconcile ::
  "('x host_scheme \<Rightarrow> 'x host_scheme) \<Rightarrow> json_codec \<Rightarrow> FileLifecycleRecordStore \<Rightarrow> host_json \<Rightarrow> TrustedHostControlClient \<Rightarrow>
   TrustedWorkloadSnapshot \<Rightarrow> ProductControlClient \<Rightarrow> (io_kind \<Rightarrow> string) \<Rightarrow> AttestedFreezeOnlyCgroupEffects \<Rightarrow>
   FencedLifecycleGrant \<Rightarrow> ControllerScope \<Rightarrow> LifecyclePolicy \<Rightarrow> ('x host_scheme) reconcile" where
  "interleaved_reconcile env J st K k e pc T x g scope p \<equiv>
     reconcile_with_fenced_grant g scope p (interfered_store env (file_store J st))
       (interfered_host env (host_control (pinned_control K k e (grant_token g))))
       (interfered_product env (product_control pc)) (interfered_effects env (attested_effects T x))"

abbreviation interleaved_recovery ::
  "('x host_scheme \<Rightarrow> 'x host_scheme) \<Rightarrow> json_codec \<Rightarrow> FileLifecycleRecordStore \<Rightarrow> host_json \<Rightarrow> TrustedHostControlClient \<Rightarrow>
   TrustedWorkloadSnapshot \<Rightarrow> ProductControlClient \<Rightarrow> (io_kind \<Rightarrow> string) \<Rightarrow> AttestedFreezeOnlyCgroupEffects \<Rightarrow>
   FencedLifecycleGrant \<Rightarrow> ControllerScope \<Rightarrow> LifecyclePolicy \<Rightarrow> ('x host_scheme) recovery" where
  "interleaved_recovery env J st K k e pc T x g scope p \<equiv>
     recover_freeze_transition_with_fenced_grant g scope p (interfered_store env (file_store J st))
       (interfered_host env (host_control (pinned_control K k e (grant_token g))))
       (interfered_product env (product_control pc)) (interfered_effects env (attested_effects T x))"

subsection \<open>Properties\<close>

text \<open>
  C3: Reconciliation and recovery are safe under crashes of the process and of the machine. Wherever a run of the
  composed controller is stopped, and whatever calls failed before, the files hold the records from before, or those
  with the record of this one workload replaced by a later record of its history. For the end of the process the files
  are those of the entries that the run appends to \<open>history\<close>, or of the last state. A crash of the machine loses
  contents that were not synced and the changes of names since the last sync of the directory; where the records were
  settled before the run, it leaves no more than the same two possibilities, and every record file complete.
\<close>

theorem controller_is_crash_safe:
  assumes "json_roundtrip J"
  shows "let i = scope_workload_id scope;
             a = snd (managed_reconcile J st K k e pc T x g scope p w);
             b = snd (managed_recovery J st K k e pc T x g scope p w)
    in take (length (history w)) (history a) = history w \<and> list_all (records_advanced J st i (nodes w)) (passed w a)
       \<and> take (length (history w)) (history b) = history w \<and> list_all (records_advanced J st i (nodes w)) (passed w b)
       \<and> (settled st w \<longrightarrow>
            (\<forall>m. machine_crash w a m \<or> machine_crash w b m \<longrightarrow>
               records_advanced J st i (nodes w) m \<and> records_synced st m))"
proof -
  have all: "take (length (history w)) (history v) = history w \<and> list_all (records_advanced J st i (nodes w)) (passed w v)"
    if "run_advances J st i w v" for v i
    using that passed_extends [OF that [unfolded run_advances_def]]
    by (auto simp: run_advances_def extends_def list_all_iff)
  note run = managed_advances [OF assms]
  show ?thesis
    unfolding Let_def
    using all [OF run(1)] all [OF run(2)] machine_crash_advances [OF run(1)] machine_crash_advances [OF run(2)]
    by (metis (no_types, lifting))
qed

text \<open>
  C40: An acknowledged record is durable. When \<open>replace_record\<close> returns \<open>Ok\<close> in a directory, a crash of the machine
  right after it finds the new record complete under its name, whatever the disk held back: the contents were
  synced before the rename, and the directory after it.
\<close>

theorem acknowledged_record_is_durable:
  assumes "json_roundtrip J" and "replace_record J st e n w = (Ok (), w')"
    and "map_of (nodes w) (records_root st) = Some DirNode" and "h \<in> set (crash_points w')" and "crash_image h m"
  shows "stored_in J st m (workload_id n) = Some n"
  using durable_record_image [OF assms(1) replace_record_durable(2,1) [OF assms(2,3)] assms(4,5)] .


text \<open>
  C4: Racing controllers lose no update. After one controller replaced an expected record, every later attempt to
  replace that same record fails and changes nothing, whatever happened in between: of all controllers that read the
  same record at most one publishes a successor.
\<close>

theorem no_update_is_lost:
  assumes "json_roundtrip J" and "replace_record J st c n w = (Ok (), w1)" and "deployment J st w1 w2"
    and "replace_record J st c n' w2 = (res, w3)"
  shows "is_Err res \<and> stored J st w3 = stored J st w2"
proof -
  define Q where "Q = records_or_next J st (stored J st w (workload_id c) = Some c \<and> update_ok c n) n (nodes w)"
  have first: "stored J st w1 (workload_id c) = Some n" "update_ok c n"
    using hoareE_D [OF replace_record_triple [OF Q_def] refl assms(2)] by (auto simp: update_ok_def)
  obtain m where m: "stored J st w2 (workload_id c) = Some m" "later_record n m"
    using deployment_kept [OF assms(1,3)] first(1) history_later unfolding kept_def by blast
  have "revision c < revision m"
    using update_ok_revision [OF first(2)] m(2) by (auto simp: later_record_def)
  then have "stored J st w2 (workload_id c) \<noteq> Some c"
    using m(1) by auto
  then show ?thesis
    using replace_record_stored [OF assms(1,4)] by (cases res) auto
qed

text \<open>
  C5: Runs may interleave. Let other parties act before every single call that a controller makes, by any steps of
  a deployment. Then a reconciliation and a recovery still move every stored record only along its history, and
  what they report is so: an outcome other than \<open>NoChange\<close> means that at this moment the record of the workload
  is in the reported state under the token of this controller.
\<close>

theorem interleaved_runs_are_sound:
  assumes "json_roundtrip J" and "\<And>v. deployment J st v (env v)"
    and "interleaved_reconcile env J st K k e pc T x g scope p w = (res, w1)"
    and "interleaved_recovery env J st K k e pc T x g scope p w = (out, w2)"
  shows "let stands = (\<lambda>s v. \<exists>n. stored J st v (scope_workload_id scope) = Some n \<and> fencing_token n = grant_token g \<and> state n = s)
    in kept J st w w1 \<and> kept J st w w2
       \<and> (case res of
            Err _ \<Rightarrow> True
          | Ok o' \<Rightarrow>
             (case o' of
                NoChange \<Rightarrow> True
              | Suspended \<Rightarrow> stands (case policy_strategy p of Freeze \<Rightarrow> PFrozen | Hibernate \<Rightarrow> PHibernated) w1
              | _ \<Rightarrow> stands PRunning w1))
       \<and> (case out of
            Err _ \<Rightarrow> True
          | Ok RecoveredFrozen \<Rightarrow> stands PFrozen w2
          | Ok RecoveredRunning \<Rightarrow> stands PRunning w2)"
proof -
  note frame = interfered_contract [OF assms(1,2), of "scope_workload_id scope" K k e "grant_token g" pc T x]
  note ends = interfered_store_contract [OF assms(1), of env st "scope_workload_id scope"]
  have kept: "kept J st w w1" "kept J st w w2"
    using withinD [OF framed_workload.reconcile_once_within [OF frame refl]] assms(3)
      withinD [OF framed_workload.recovery_within [OF frame refl]] assms(4)
    unfolding reconcile_with_fenced_grant_def recover_freeze_transition_with_fenced_grant_def by blast+
  have "case res of Err _ \<Rightarrow> True | Ok o' \<Rightarrow> contended_store.reported (stored J st) (scope_workload_id scope) (grant_token g) p o' w1"
    using hoareE_D [OF contended_store.reconcile_ends [OF ends refl] TrueI] assms(3)
    unfolding reconcile_with_fenced_grant_def by blast
  moreover have "case out of Err _ \<Rightarrow> True | Ok o' \<Rightarrow> contended_store.recovered (stored J st) (scope_workload_id scope) (grant_token g) o' w2"
    using hoareE_D [OF contended_store.recovery_ends [OF ends refl] TrueI] assms(4)
    unfolding recover_freeze_transition_with_fenced_grant_def by blast
  ultimately show ?thesis
    using kept
    by (auto simp: Let_def contended_store.reported_def [OF ends] contended_store.recovered_def [OF ends]
        contended_store.stands_def [OF ends] split: sum.splits ReconcileOutcome.splits FreezeRecoveryOutcome.splits)
qed

subsection \<open>Instances\<close>

definition sample_world :: host where
  "sample_world = sample_controlled_host\<lparr>nodes := nodes sample_fs\<rparr>"

definition sample_grant :: FencedLifecycleGrant where
  "sample_grant = \<lparr>held_grant = \<lparr>grant_key = ''k'', grant_holder = ''h'', grant_fencing_token = 18,
     grant_lease_expires_ms = None, grant_ttl_ms = 500\<rparr>\<rparr>"

definition sample_policy :: LifecyclePolicy where
  "sample_policy = \<lparr>policy_strategy = Freeze, minimum_idle_ms = 1000\<rparr>"

lemma sample_world_stored: "stored plain_codec sample_store sample_world ''tenant-42'' = Some frozen_sample"
  using sample_stored by (simp add: sample_world_def)

abbreviation sample_reconcile :: "host reconcile" where
  "sample_reconcile \<equiv> managed_reconcile plain_codec sample_store sample_json sample_client sample_workload
     \<lparr>product_socket_path = ''/run/p.sock''\<rparr> (\<lambda>_. []) (AttestedFreezeOnlyCgroupEffects_new sample_identity)
     sample_grant (sample_scope 13) sample_policy"

abbreviation sample_recovery :: "host recovery" where
  "sample_recovery \<equiv> managed_recovery plain_codec sample_store sample_json sample_client sample_workload
     \<lparr>product_socket_path = ''/run/p.sock''\<rparr> (\<lambda>_. []) (AttestedFreezeOnlyCgroupEffects_new sample_identity)
     sample_grant (sample_scope 13) sample_policy"

text \<open>Another controller that thaws the workload in one store call.\<close>

definition sample_rival :: "host \<Rightarrow> host" where
  "sample_rival w = snd (replace_record plain_codec sample_store frozen_sample thawing_sample w)"

lemma sample_rival_deployment: "deployment plain_codec sample_store w (sample_rival w)"
proof -
  have "replace_record plain_codec sample_store frozen_sample thawing_sample w
      = (fst (replace_record plain_codec sample_store frozen_sample thawing_sample w), sample_rival w)"
    by (simp add: sample_rival_def)
  then have "deployment_step plain_codec sample_store w (sample_rival w)"
    by (rule replace_step) (simp add: passed_def stopped_def)
  then show ?thesis by blast
qed

lemma sample_world_quiet: "quiet_store sample_store ''tenant-42'' sample_world"
  using sample_calm(1) by (simp add: quiet_store_def sample_world_def sample_controlled_host_def sample_host_def sample_fs_def)

lemma sample_rival_succeeds:
  "replace_record plain_codec sample_store frozen_sample thawing_sample sample_world = (Ok (), sample_rival sample_world)"
proof -
  have "\<exists>w'. replace_record plain_codec sample_store frozen_sample thawing_sample sample_world = (Ok (), w') \<and> faults w' = []"
  proof (rule replace_record_succeeds [OF plain_codec_roundtrip])
    show "to_vec plain_codec thawing_sample = Some (join_byte (CHR '','') (plain_fields thawing_sample))"
      by (simp add: plain_codec_def)
    show "update_ok frozen_sample thawing_sample"
      using sample_update by (simp add: validate_record_update_iff)
  qed (use sample_world_stored sample_world_quiet sample_length(2) in simp_all)
  then show ?thesis
    by (auto simp: sample_rival_def)
qed

lemma sample_world_settled: "settled sample_store sample_world"
proof -
  have "map_of (nodes sample_world) q \<noteq> Some (FileNode b False)" for q b
    by (simp add: sample_world_def sample_fs_def)
  then show ?thesis
    by (simp add: settled_def records_synced_def sample_world_def sample_controlled_host_def sample_host_def)
qed

lemma sample_image: "crash_image (nodes sample_world) (nodes sample_world)"
  by (simp add: crash_image_def sample_world_def sample_fs_def)

theorem controller_is_crash_safe_witness:
  "list_all (records_advanced plain_codec sample_store ''tenant-42'' (nodes sample_world))
     (passed sample_world (snd (sample_reconcile sample_world)))
   \<and> machine_crash sample_world (snd (sample_reconcile sample_world)) (nodes sample_world)
   \<and> records_synced sample_store (nodes sample_world)"
proof -
  have crash: "machine_crash sample_world (snd (sample_reconcile sample_world)) (nodes sample_world)"
    using sample_image by (auto simp: machine_crash_def crash_points_def)
  from controller_is_crash_safe [OF plain_codec_roundtrip, where scope = "sample_scope 13" and w = sample_world]
  show ?thesis
    using crash sample_world_settled by (auto simp: Let_def sample_scope_def)
qed

theorem acknowledged_record_is_durable_witness:
  "stored_in plain_codec sample_store (nodes (sample_rival sample_world)) ''tenant-42'' = Some thawing_sample"
proof -
  have root: "map_of (nodes sample_world) (records_root sample_store) = Some DirNode"
    using sample_world_quiet by (simp add: quiet_store_def)
  have image: "crash_image (nodes (sample_rival sample_world)) (nodes (sample_rival sample_world))"
    by (auto simp: crash_image_def split: option.splits node.splits bool.splits)
  have "nodes (sample_rival sample_world) \<in> set (crash_points (sample_rival sample_world))"
    by (simp add: crash_points_def)
  from acknowledged_record_is_durable [OF plain_codec_roundtrip sample_rival_succeeds root this image] show ?thesis
    by simp
qed


theorem no_update_is_lost_witness:
  "is_Err (fst (replace_record plain_codec sample_store frozen_sample running_sample (sample_rival sample_world)))"
proof -
  obtain res w3 where run:
    "replace_record plain_codec sample_store frozen_sample running_sample (sample_rival sample_world) = (res, w3)"
    by fastforce
  from no_update_is_lost [OF plain_codec_roundtrip sample_rival_succeeds rtranclp.rtrancl_refl run] show ?thesis
    using run by simp
qed

theorem interleaved_runs_are_sound_witness:
  "kept plain_codec sample_store sample_world
     (snd (interleaved_reconcile sample_rival plain_codec sample_store sample_json sample_client sample_workload
        \<lparr>product_socket_path = ''/run/p.sock''\<rparr> (\<lambda>_. []) (AttestedFreezeOnlyCgroupEffects_new sample_identity)
        sample_grant (sample_scope 13) sample_policy sample_world))"
proof -
  let ?run = "interleaved_reconcile sample_rival plain_codec sample_store sample_json sample_client sample_workload
      \<lparr>product_socket_path = ''/run/p.sock''\<rparr> (\<lambda>_. []) (AttestedFreezeOnlyCgroupEffects_new sample_identity)
      sample_grant (sample_scope 13) sample_policy sample_world"
    and ?rec = "interleaved_recovery sample_rival plain_codec sample_store sample_json sample_client sample_workload
      \<lparr>product_socket_path = ''/run/p.sock''\<rparr> (\<lambda>_. []) (AttestedFreezeOnlyCgroupEffects_new sample_identity)
      sample_grant (sample_scope 13) sample_policy sample_world"
  have "?run = (fst ?run, snd ?run)" "?rec = (fst ?rec, snd ?rec)"
    by simp_all
  from interleaved_runs_are_sound [OF plain_codec_roundtrip sample_rival_deployment this] show ?thesis
    by (simp only: Let_def)
qed

end
