(* ===== verification/Byte_Stream.thy ===== *)
theory Byte_Stream
  imports Host_World
begin

section \<open>Buffered byte streams\<close>

text \<open>
  The part of \<open>std::io\<close> that the receiver and the HTTP listener use. A stream is the list of the chunks (or
  failures) that the system delivers, as in the model of the sockets; \<open>fill_buf\<close> shows the next chunk and
  \<open>consume\<close> takes a prefix of it; \<open>read_line\<close> reads to the next line feed or to the end, retries an
  interrupted read and refuses bytes that are not UTF-8. \<open>flat\<close> forgets the chunks: the lemmas reduce every
  operation to the bytes that are delivered and the way the stream ends.
\<close>

type_synonym stream = "(io_kind + bytes) list"

subsection \<open>Buffered reading\<close>

fun fill_buf :: "stream \<Rightarrow> (io_kind + bytes) \<times> stream" where
  "fill_buf [] = (Ok [], [])"
| "fill_buf (Err k # cs) = (Err k, cs)"
| "fill_buf (Ok b # cs) = (if b = [] then fill_buf cs else (Ok b, Ok b # cs))"

fun consume :: "nat \<Rightarrow> stream \<Rightarrow> stream" where
  "consume n (Ok b # cs) = (if length b \<le> n then cs else Ok (drop n b) # cs)"
| "consume n cs = cs"

abbreviation newline :: char where
  "newline \<equiv> CHR 0x0A"

abbreviation carriage_return :: char where
  "carriage_return \<equiv> CHR 0x0D"

definition position :: "('a \<Rightarrow> bool) \<Rightarrow> 'a list \<Rightarrow> nat option" where
  "position P xs = (if list_ex P xs then Some (length (takeWhile (Not \<circ> P) xs)) else None)"

lemma fill_buf_cases:
  assumes "fill_buf cs = (r, cs')"
  shows "case r of Err _ \<Rightarrow> breaks cs \<and> delivered cs = [] \<and> stream_bytes cs' = stream_bytes cs
    | Ok b \<Rightarrow> if b = [] then delivered cs = [] \<and> \<not> breaks cs \<and> stream_bytes cs = 0
        else (\<exists>ds. cs' = Ok b # ds \<and> delivered cs = b @ delivered ds \<and> breaks cs = breaks ds
               \<and> stream_bytes cs = length b + stream_bytes ds)"
  using assms by (induction cs arbitrary: r cs' rule: fill_buf.induct)
    (auto split: if_splits sum.splits)

lemma stream_bytes_consume:
  "n \<le> length b \<Longrightarrow> stream_bytes (consume n (Ok b # cs)) = length b - n + stream_bytes cs"
  by simp

lemma delivered_consume: "n \<le> length b \<Longrightarrow> delivered (consume n (Ok b # cs)) = drop n b @ delivered cs"
  by auto

lemma breaks_consume: "breaks (consume n (Ok b # cs)) = breaks cs"
  by auto

lemma position_bounds: "position P xs = Some i \<Longrightarrow> i < length xs"
  by (induction xs arbitrary: i) (auto simp: position_def split: if_splits)

text \<open>What a stream delivers: its bytes and how it ends.\<close>

fun failure :: "stream \<Rightarrow> io_kind option" where
  "failure [] = None"
| "failure (Err k # cs) = Some k"
| "failure (Ok b # cs) = failure cs"

definition flat :: "stream \<Rightarrow> bytes \<times> io_kind option" where
  "flat cs = (delivered cs, failure cs)"

lemma flat_cons [simp]: "flat (Ok b # cs) = (b @ fst (flat cs), snd (flat cs))"
  by (simp add: flat_def)

lemma flat_consume: "n \<le> length b \<Longrightarrow> flat (consume n (Ok b # cs)) = (drop n b @ fst (flat cs), snd (flat cs))"
  by (auto simp: flat_def)

lemma fill_buf_flat:
  assumes "fill_buf cs = (r, cs')"
  shows "case r of Err k \<Rightarrow> flat cs = ([], Some k)
    | Ok b \<Rightarrow> if b = [] then flat cs = ([], None) \<and> cs' = []
        else (\<exists>ds. cs' = Ok b # ds \<and> flat cs = flat cs' \<and> stream_bytes cs = length b + stream_bytes ds)"
  using assms by (induction cs arbitrary: r cs' rule: fill_buf.induct)
    (auto simp: flat_def split: if_splits sum.splits)

lemma stream_read_flat:
  assumes "stream_read n cs = (r, cs')" and "0 < n"
  shows "case r of Err k \<Rightarrow> flat cs = ([], Some k)
    | Ok b \<Rightarrow> if b = [] then flat cs = ([], None) else flat cs = (b @ fst (flat cs'), snd (flat cs')) \<and> length b \<le> n"
  using assms by (induction n cs arbitrary: r cs' rule: stream_read.induct)
    (auto simp: flat_def split: if_splits sum.splits)

lemma position_append:
  "position P (xs @ ys) = (case position P xs of Some i \<Rightarrow> Some i | None \<Rightarrow> map_option (\<lambda>i. length xs + i) (position P ys))"
  by (induction xs) (auto simp: position_def split: if_splits)

subsection \<open>Lines\<close>

definition stream_size :: "stream \<Rightarrow> nat" where
  "stream_size cs = length cs + stream_bytes cs"

lemma fill_buf_size:
  assumes "fill_buf cs = (r, cs')"
  shows "case r of Err k \<Rightarrow> stream_size cs' < stream_size cs
    | Ok b \<Rightarrow> stream_size cs' \<le> stream_size cs \<and> (b \<noteq> [] \<longrightarrow> (\<exists>ds. cs' = Ok b # ds))"
  using assms by (induction cs arbitrary: r cs' rule: fill_buf.induct)
    (auto simp: stream_size_def split: if_splits sum.splits)

lemma consume_size: "0 < n \<Longrightarrow> b \<noteq> [] \<Longrightarrow> stream_size (consume n (Ok b # cs)) < stream_size (Ok b # cs)"
  by (simp add: stream_size_def)

function read_line_from :: "bytes \<Rightarrow> stream \<Rightarrow> (io_kind + bytes) \<times> stream" where
  "read_line_from acc cs =
     (case fill_buf cs of
        (Err k, cs') \<Rightarrow> if k = Interrupted then read_line_from acc cs' else (Err k, cs')
      | (Ok b, cs') \<Rightarrow>
          if b = [] then (Ok acc, cs')
          else (case position (\<lambda>c. c = newline) b of
                  Some i \<Rightarrow> (Ok (acc @ take (i + 1) b), consume (i + 1) cs')
                | None \<Rightarrow> read_line_from (acc @ b) (consume (length b) cs')))"
  by pat_completeness auto
termination
proof (relation "measure (\<lambda>(acc, cs). stream_size cs)", goal_cases)
  case (2 acc cs r cs' k)
  then show ?case
    using fill_buf_size[of cs r cs'] by simp
next
  case (3 acc cs r cs' b)
  then obtain ds where "cs' = Ok b # ds" "stream_size cs' \<le> stream_size cs"
    using fill_buf_size[of cs r cs'] by auto
  then show ?case
    using consume_size[of "length b" b ds] 3 by simp
qed simp

declare read_line_from.simps [simp del]

definition read_line :: "stream \<Rightarrow> (io_kind + string) \<times> stream" where
  "read_line cs =
     (case read_line_from [] cs of
        (Err k, cs') \<Rightarrow> (Err k, cs')
      | (Ok b, cs') \<Rightarrow> (if valid_utf8 b then Ok b else Err OtherKind, cs'))"

lemma read_line_from_size:
  "read_line_from acc cs = (Ok l, cs') \<Longrightarrow> stream_size cs' \<le> stream_size cs \<and> (l \<noteq> acc \<longrightarrow> stream_size cs' < stream_size cs)"
proof (induction acc cs arbitrary: l cs' rule: read_line_from.induct)
  case (1 acc cs)
  obtain r ds where fill: "fill_buf cs = (r, ds)"
    by fastforce
  note size = fill_buf_size[OF fill] and step = read_line_from.simps[of acc cs]
  show ?case
  proof (cases r)
    case (Inl k)
    then have "k = Interrupted" "read_line_from acc ds = (Ok l, cs')"
      using 1(3) fill step by (auto split: if_splits)
    then show ?thesis
      using 1(1)[OF fill[symmetric] Inl] size Inl by auto
  next
    case (Inr b)
    show ?thesis
    proof (cases "b = []")
      case True
      then show ?thesis
        using 1(3) fill step size Inr by auto
    next
      case False
      then obtain es where es: "ds = Ok b # es" "stream_size ds \<le> stream_size cs"
        using size Inr by auto
      show ?thesis
      proof (cases "position (\<lambda>c. c = newline) b")
        case None
        then have "read_line_from (acc @ b) (consume (length b) ds) = (Ok l, cs')"
          using 1(3) fill step Inr False by simp
        then show ?thesis
          using 1(2)[OF fill[symmetric] Inr False None] consume_size[of "length b" b es] False es by fastforce
      next
        case (Some i)
        then have "cs' = consume (Suc i) ds"
          using 1(3) fill step Inr False by simp
        then show ?thesis
          using consume_size[of "Suc i" b es] False es by auto
      qed
    qed
  qed
qed

lemma read_line_size: "read_line cs = (Ok l, cs') \<Longrightarrow> l \<noteq> [] \<Longrightarrow> stream_size cs' < stream_size cs"
  using read_line_from_size[of "[]" cs l cs'] by (auto simp: read_line_def split: prod.splits sum.splits if_splits)

text \<open>On a stream without failures \<open>read_line\<close> takes the first line of the delivered bytes.\<close>

definition first_line :: "bytes \<Rightarrow> bytes" where
  "first_line b = (case position (\<lambda>c. c = newline) b of Some i \<Rightarrow> take (i + 1) b | None \<Rightarrow> b)"

lemma first_line_cons: "newline \<notin> set l \<Longrightarrow> first_line (l @ newline # r) = l @ [newline]"
proof -
  assume "newline \<notin> set l"
  then have "position (\<lambda>c. c = newline) (l @ newline # r) = Some (length l)"
    by (induction l) (auto simp: position_def)
  then show ?thesis
    by (simp add: first_line_def)
qed

lemma read_line_from_delivered:
  assumes "failure cs = None" and "read_line_from acc cs = (r, cs')"
  shows "r = Ok (acc @ first_line (delivered cs)) \<and> delivered cs = first_line (delivered cs) @ delivered cs' \<and> failure cs' = None"
  using assms
proof (induction acc cs rule: read_line_from.induct)
  case (1 acc cs)
  obtain a ds where fill: "fill_buf cs = (a, ds)"
    by fastforce
  note flat = fill_buf_flat[OF fill] and step = read_line_from.simps[of acc cs]
  obtain b where b: "a = Ok b"
    using flat 1(3) by (cases a) (auto simp: flat_def)
  show ?case
  proof (cases "b = []")
    case True
    then show ?thesis
      using 1(3,4) fill step flat b by (auto simp: flat_def first_line_def position_def)
  next
    case False
    then obtain es where es: "ds = Ok b # es" "delivered cs = b @ delivered es" "failure es = None"
      using flat b 1(3) by (auto simp: flat_def)
    show ?thesis
    proof (cases "position (\<lambda>c. c = newline) b")
      case None
      then have "read_line_from (acc @ b) es = (r, cs')"
        using 1(4) fill step b False es by simp
      then show ?thesis
        using 1(2)[OF fill[symmetric] b False None] es None
        by (auto simp: first_line_def position_append split: option.splits)
    next
      case (Some i)
      then show ?thesis
        using 1(4) fill step b False es position_bounds[OF Some]
        by (auto simp: first_line_def position_append)
    qed
  qed
qed

lemma read_line_delivered:
  assumes "failure cs = None" and "valid_utf8 (first_line (delivered cs))"
  obtains cs' where "read_line cs = (Ok (first_line (delivered cs)), cs')"
    and "delivered cs = first_line (delivered cs) @ delivered cs'" and "failure cs' = None"
proof -
  obtain r cs' where "read_line_from [] cs = (r, cs')"
    by fastforce
  then show thesis
    using that read_line_from_delivered[OF assms(1)] assms(2) by (fastforce simp: read_line_def)
qed

lemma read_line_cons:
  assumes "failure cs = None" and "delivered cs = l @ newline # rest" and "newline \<notin> set l" and "valid_utf8 (l @ [newline])"
  obtains cs' where "read_line cs = (Ok (l @ [newline]), cs')" and "delivered cs' = rest" and "failure cs' = None"
  using read_line_delivered[OF assms(1)] assms(2-4) by (auto simp: first_line_cons)

end
