(* ===== verification/Cloudflare_Lease.thy ===== *)
theory Cloudflare_Lease
  imports Lifecycle_Lease Byte_Stream
begin

section \<open>The lease transport to the Durable Object\<close>

text \<open>
  \<open>src/src/adapters/process_lifecycle_cloudflare_do.rs\<close>. The TLS client \<open>reqwest\<close> and the authority behind it are the
  record \<open>lease_wire\<close>: every request is logged with its URL and bearer, and the authority answers with any
  function of the requests so far, or the transport fails. The URL parser and the decoders that \<open>serde\<close> derives
  are parameters. The types of \<open>ores-locks-and-leases\<close> have the variants and fields that the code uses. Reading the
  credential uses the file calls of the host.

  The theorems say what an acquired grant means: a positive exact token from the authority, and for a replayed
  acquisition a renewal of exactly this token; that nothing but the three endpoints of the configured authority is
  contacted; that answers are bounded and do not depend on their chunks; and that tokens survive the wire.
\<close>

definition ACQUIRE_PATH :: string where
  "ACQUIRE_PATH = ''/v1/leases/acquire''"

definition RENEW_PATH :: string where
  "RENEW_PATH = ''/v1/leases/renew''"

definition RELEASE_PATH :: string where
  "RELEASE_PATH = ''/v1/leases/release''"

definition MAX_RESPONSE_BYTES :: nat where
  "MAX_RESPONSE_BYTES = 64 * 1024"

definition MAX_BEARER_BYTES :: nat where
  "MAX_BEARER_BYTES = 4096"

definition MAX_JSON_SAFE_U64 :: u64 where
  "MAX_JSON_SAFE_U64 = 9007199254740991"

datatype CloudflareDoTransportConfigError =
    InvalidBaseUrl | InvalidCredentialName | MissingCredentialsDirectory | InvalidCredentialsDirectory
  | CredentialUnavailable | InvalidCredential | HttpClientUnavailable

fun CloudflareDoTransportConfigError_fmt :: "CloudflareDoTransportConfigError \<Rightarrow> string" where
  "CloudflareDoTransportConfigError_fmt InvalidBaseUrl =
     ''Cloudflare lease endpoint must be an absolute HTTPS URL without credentials, query, or fragment''"
| "CloudflareDoTransportConfigError_fmt InvalidCredentialName = ''Cloudflare lease credential name is invalid''"
| "CloudflareDoTransportConfigError_fmt MissingCredentialsDirectory = ''systemd CREDENTIALS_DIRECTORY is unavailable''"
| "CloudflareDoTransportConfigError_fmt InvalidCredentialsDirectory = ''systemd credentials directory is invalid''"
| "CloudflareDoTransportConfigError_fmt CredentialUnavailable = ''Cloudflare lease credential is unavailable''"
| "CloudflareDoTransportConfigError_fmt InvalidCredential = ''Cloudflare lease credential is invalid''"
| "CloudflareDoTransportConfigError_fmt HttpClientUnavailable = ''Cloudflare lease HTTP client could not be constructed''"

record CloudflareDoLeaseTransport =
  base_url :: string
  bearer :: string

subsection \<open>Construction\<close>

record parsed_url =
  url_scheme :: string
  url_host :: "string option"
  url_path :: string
  url_username :: string
  url_password :: "string option"
  url_query :: "string option"
  url_fragment :: "string option"

definition normalize_base_url :: "(string \<Rightarrow> parsed_url option) \<Rightarrow> string \<Rightarrow> CloudflareDoTransportConfigError + string" where
  "normalize_base_url url_parse v =
     bindR (ok_or InvalidBaseUrl (url_parse v)) (\<lambda>u.
     if url_scheme u \<noteq> ''https'' \<or> url_host u = None \<or> url_path u \<noteq> ''/'' \<or> url_username u \<noteq> []
        \<or> url_password u \<noteq> None \<or> url_query u \<noteq> None \<or> url_fragment u \<noteq> None
     then Err InvalidBaseUrl
     else Ok (trim_end_matches ((=) (CHR ''/'')) v))"

definition validate_credential_name :: "string \<Rightarrow> CloudflareDoTransportConfigError + unit" where
  "validate_credential_name v =
     (if \<not> (v \<noteq> [] \<and> length v \<le> 128
            \<and> list_all (\<lambda>c. is_ascii_alphanumeric c \<or> c \<in> {CHR ''-'', CHR ''_'', CHR ''.''}) v)
         \<or> v = ''.'' \<or> v = ''..''
      then Err InvalidCredentialName else Ok ())"

definition validate_bearer :: "string \<Rightarrow> CloudflareDoTransportConfigError + unit" where
  "validate_bearer v =
     (if v = [] \<or> length v > MAX_BEARER_BYTES \<or> \<not> list_all is_ascii_graphic v then Err InvalidCredential else Ok ())"

text \<open>
  The client is built with \<open>https_only(true)\<close>, \<open>redirect(Policy::none())\<close> and two timeouts; whether that succeeds is
  \<open>client_builds\<close>. What these settings do is documented behaviour of \<open>reqwest\<close> and part of \<open>send_request\<close> below: one call sends
  one request, an answer that redirects is returned like any other, and a timeout is a transport that fails.
\<close>

definition from_bearer ::
  "(string \<Rightarrow> parsed_url option) \<Rightarrow> bool \<Rightarrow> string \<Rightarrow> string \<Rightarrow> CloudflareDoTransportConfigError + CloudflareDoLeaseTransport" where
  "from_bearer url_parse client_builds url b =
     bindR (normalize_base_url url_parse url) (\<lambda>u.
     if \<not> client_builds then Err HttpClientUnavailable else Ok \<lparr>base_url = u, bearer = b\<rparr>)"

type_synonym ('x, 'a) credential_op = "('x host_scheme, CloudflareDoTransportConfigError, 'a) eff"

definition validate_credentials_directory :: "string \<Rightarrow> ('x, unit) credential_op" where
  "validate_credentials_directory d =
     (if \<not> is_absolute d then throwE InvalidCredentialsDirectory
      else
        bindE (map_errE (\<lambda>_. InvalidCredentialsDirectory) (lstat d)) (\<lambda>m.
        if m \<noteq> DirNode then throwE InvalidCredentialsDirectory else returnE ()))"

definition from_credential_directory ::
  "(string \<Rightarrow> parsed_url option) \<Rightarrow> bool \<Rightarrow> string \<Rightarrow> string \<Rightarrow> string \<Rightarrow> ('x, CloudflareDoLeaseTransport) credential_op" where
  "from_credential_directory url_parse client_builds url cred directory =
     bindE (liftE (validate_credential_name cred)) (\<lambda>_.
     bindE (validate_credentials_directory directory) (\<lambda>_.
     let credential_path = path_join directory cred in
     bindE (map_errE (\<lambda>_. CredentialUnavailable) (lstat credential_path)) (\<lambda>m.
     if (case m of FileNode _ _ \<Rightarrow> False | _ \<Rightarrow> True) then throwE CredentialUnavailable
     else
       bindE (map_errE (\<lambda>_. CredentialUnavailable) (read_to_string credential_path)) (\<lambda>s.
       let b = trim_end_matches (\<lambda>c. c = carriage_return \<or> c = newline) s in
       bindE (liftE (validate_bearer b)) (\<lambda>_.
       liftE (from_bearer url_parse client_builds url b))))))"

definition from_systemd_credential ::
  "(string \<rightharpoonup> string) \<Rightarrow> (string \<Rightarrow> parsed_url option) \<Rightarrow> bool \<Rightarrow> string \<Rightarrow> string \<Rightarrow> ('x, CloudflareDoLeaseTransport) credential_op" where
  "from_systemd_credential env url_parse client_builds url cred =
     (case env ''CREDENTIALS_DIRECTORY'' of
        None \<Rightarrow> throwE MissingCredentialsDirectory
      | Some d \<Rightarrow> from_credential_directory url_parse client_builds url cred d)"

subsection \<open>The wire\<close>

datatype WireU64 = WireNumber u64 | WireString string

datatype wire_request =
    AcquireRequest (req_key: string) (req_holder: string) (req_request_id: string) (req_ttl_ms: u64)
  | RenewRequest (req_key: string) (req_holder: string) (req_fencing_token: string) (req_ttl_ms: u64)
  | ReleaseRequest (req_key: string) (req_holder: string) (req_fencing_token: string)

record AcquireResponse =
  acquired :: bool
  acq_fencing_token :: "WireU64 option"
  acq_lease_expires_ms :: "WireU64 option"
  replayed :: bool

record RenewResponse =
  renewed :: bool
  ren_lease_expires_ms :: "WireU64 option"

record ReleaseResponse =
  released :: bool

record wire_codec =
  dec_acquire :: "bytes \<Rightarrow> AcquireResponse option"
  dec_renew :: "bytes \<Rightarrow> RenewResponse option"
  dec_release :: "bytes \<Rightarrow> ReleaseResponse option"

record http_response =
  http_status :: u16
  http_content_length :: "u64 option"
  http_body :: stream

type_synonym wire_log = "(string \<times> string \<times> wire_request) list"

record lease_wire =
  wire_sent :: wire_log
  authority_reply :: "wire_log \<Rightarrow> http_response option"

type_synonym 'a wire = "(lease_wire, string, 'a) eff"

definition send_request :: "string \<Rightarrow> string \<Rightarrow> wire_request \<Rightarrow> http_response wire" where
  "send_request url b req w =
     (let log = wire_sent w @ [(url, b, req)] in
      (ok_or ''cloudflare-do lease transport failed'' (authority_reply w log), w\<lparr>wire_sent := log\<rparr>))"

definition append_bounded_response_chunk :: "bytes \<Rightarrow> bytes \<Rightarrow> string + bytes" where
  "append_bounded_response_chunk body chunk =
     (if length body + length chunk > MAX_RESPONSE_BYTES then Err ''cloudflare-do lease response exceeded its bound''
      else Ok (body @ chunk))"

fun read_body :: "bytes \<Rightarrow> stream \<Rightarrow> string + bytes" where
  "read_body body [] = Ok body"
| "read_body body (Err _ # cs) = Err ''cloudflare-do lease response body failed''"
| "read_body body (Ok b # cs) = bindR (append_bounded_response_chunk body b) (\<lambda>body'. read_body body' cs)"

definition is_success :: "u16 \<Rightarrow> bool" where
  "is_success s \<longleftrightarrow> 200 \<le> s \<and> s < 300"

definition decode_response :: "(bytes \<Rightarrow> 'a option) \<Rightarrow> http_response \<Rightarrow> string + 'a" where
  "decode_response dec r =
     (if \<not> is_success (http_status r)
      then Err (''cloudflare-do lease authority returned HTTP '' @ show_nat (unat (http_status r)))
      else if (case http_content_length r of None \<Rightarrow> False | Some n \<Rightarrow> unat n > MAX_RESPONSE_BYTES)
      then Err ''cloudflare-do lease response exceeded its bound''
      else
        bindR (read_body [] (http_body r)) (\<lambda>body.
        ok_or ''cloudflare-do lease response was invalid JSON'' (dec body)))"

definition post_json :: "CloudflareDoLeaseTransport \<Rightarrow> (bytes \<Rightarrow> 'a option) \<Rightarrow> string \<Rightarrow> wire_request \<Rightarrow> 'a wire" where
  "post_json t dec path req =
     bindE (send_request (base_url t @ path) (bearer t) req) (\<lambda>r. liftE (decode_response dec r))"

subsection \<open>Answers\<close>

datatype ManagedLeaseBackend = CloudflareDurableObject | OtherLeaseBackend

record ManagedGrant =
  mg_fencing_token :: u64
  mg_lease_expires_ms :: "u64 option"

datatype ManagedAcquireResult = LeaseAcquired ManagedGrant | LeaseContended

datatype ManagedRenewResult = LeaseRenewed "u64 option" | LeaseLost

definition parse_wire_u64 :: "WireU64 option \<Rightarrow> string \<Rightarrow> bool \<Rightarrow> string + u64" where
  "parse_wire_u64 v field positive =
     bindR (ok_or (''cloudflare-do response omitted '' @ field) v) (\<lambda>v.
     bindR (case v of
              WireNumber n \<Rightarrow> Ok n
            | WireString s \<Rightarrow> ok_or (''cloudflare-do response has invalid '' @ field) (parse_u64 s)) (\<lambda>parsed.
     if parsed > MAX_JSON_SAFE_U64 \<or> positive \<and> parsed = 0
     then Err (''cloudflare-do response has invalid '' @ field)
     else Ok parsed))"

definition parse_optional_wire_u64 :: "WireU64 option \<Rightarrow> string \<Rightarrow> string + u64 option" where
  "parse_optional_wire_u64 v field =
     (case v of
        Some x \<Rightarrow> bindR (parse_wire_u64 (Some x) field False) (\<lambda>n. Ok (Some n))
      | None \<Rightarrow> Ok None)"

definition parse_acquire_response :: "AcquireResponse \<Rightarrow> string + ManagedAcquireResult \<times> bool" where
  "parse_acquire_response r =
     (if \<not> acquired r
      then (if replayed r then Err ''cloudflare-do contention response cannot be replayed''
            else Ok (LeaseContended, False))
      else
        bindR (parse_wire_u64 (acq_fencing_token r) ''fencing_token'' True) (\<lambda>token.
        bindR (parse_optional_wire_u64 (acq_lease_expires_ms r) ''lease_expires_ms'') (\<lambda>expires.
        Ok (LeaseAcquired \<lparr>mg_fencing_token = token, mg_lease_expires_ms = expires\<rparr>, replayed r))))"

definition parse_renew_response :: "RenewResponse \<Rightarrow> string + ManagedRenewResult" where
  "parse_renew_response r =
     (if \<not> renewed r then Ok LeaseLost
      else
        bindR (parse_optional_wire_u64 (ren_lease_expires_ms r) ''lease_expires_ms'') (\<lambda>expires.
        Ok (LeaseRenewed expires)))"

subsection \<open>Operations\<close>

definition require_cloudflare_backend :: "ManagedLeaseBackend \<Rightarrow> string + unit" where
  "require_cloudflare_backend b =
     (if b \<noteq> CloudflareDurableObject then Err ''Cloudflare DO transport received a non-Cloudflare lease backend''
      else Ok ())"

definition renew_wire ::
  "CloudflareDoLeaseTransport \<Rightarrow> wire_codec \<Rightarrow> string \<Rightarrow> string \<Rightarrow> u64 \<Rightarrow> u64 \<Rightarrow> ManagedRenewResult wire" where
  "renew_wire t J key hold token ttl =
     bindE (post_json t (dec_renew J) RENEW_PATH (RenewRequest key hold (show_nat (unat token)) ttl)) (\<lambda>r.
     liftE (parse_renew_response r))"

definition do_acquire ::
  "CloudflareDoLeaseTransport \<Rightarrow> wire_codec \<Rightarrow> ManagedLeaseBackend \<Rightarrow> string \<Rightarrow> string \<Rightarrow> string \<Rightarrow> u64 \<Rightarrow> ManagedAcquireResult wire" where
  "do_acquire t J backend key hold request_id ttl =
     bindE (liftE (require_cloudflare_backend backend)) (\<lambda>_.
     bindE (post_json t (dec_acquire J) ACQUIRE_PATH (AcquireRequest key hold request_id ttl)) (\<lambda>response.
     bindE (liftE (parse_acquire_response response)) (\<lambda>(result, was_replayed).
     if \<not> was_replayed then returnE result
     else (case result of
             LeaseContended \<Rightarrow> throwE ''cloudflare-do replay response was not acquired''
           | LeaseAcquired grant \<Rightarrow>
               bindE (renew_wire t J key hold (mg_fencing_token grant) ttl) (\<lambda>renewal.
               case renewal of
                 LeaseRenewed expires \<Rightarrow>
                   returnE (LeaseAcquired \<lparr>mg_fencing_token = mg_fencing_token grant, mg_lease_expires_ms = expires\<rparr>)
               | LeaseLost \<Rightarrow> throwE ''cloudflare-do replay renewal refused; fenced authority is lost'')))))"

definition do_renew ::
  "CloudflareDoLeaseTransport \<Rightarrow> wire_codec \<Rightarrow> ManagedLeaseBackend \<Rightarrow> LeaseGrant \<Rightarrow> u64 \<Rightarrow> ManagedRenewResult wire" where
  "do_renew t J backend grant ttl =
     bindE (liftE (require_cloudflare_backend backend)) (\<lambda>_.
     renew_wire t J (grant_key grant) (grant_holder grant) (grant_fencing_token grant) ttl)"

definition do_release ::
  "CloudflareDoLeaseTransport \<Rightarrow> wire_codec \<Rightarrow> ManagedLeaseBackend \<Rightarrow> LeaseGrant \<Rightarrow> bool wire" where
  "do_release t J backend grant =
     bindE (liftE (require_cloudflare_backend backend)) (\<lambda>_.
     bindE (post_json t (dec_release J) RELEASE_PATH
       (ReleaseRequest (grant_key grant) (grant_holder grant) (show_nat (unat (grant_fencing_token grant))))) (\<lambda>r.
     returnE (released r)))"

subsection \<open>Answers do not depend on their chunks\<close>

lemma read_body_flat:
  "length body \<le> MAX_RESPONSE_BYTES \<Longrightarrow> read_body body cs =
     (if length (body @ fst (flat cs)) > MAX_RESPONSE_BYTES then Err ''cloudflare-do lease response exceeded its bound''
      else if snd (flat cs) \<noteq> None then Err ''cloudflare-do lease response body failed''
      else Ok (body @ fst (flat cs)))"
proof (induction body cs rule: read_body.induct)
  case (3 body b cs)
  show ?case
  proof (cases "length body + length b > MAX_RESPONSE_BYTES")
    case True
    then show ?thesis by (simp add: append_bounded_response_chunk_def)
  next
    case False
    then show ?thesis
      using "3.IH" [of "body @ b"] by (simp add: append_bounded_response_chunk_def add.assoc)
  qed
qed (auto simp: flat_def)

lemma read_body_Ok: "read_body [] cs = Ok b \<Longrightarrow> length b \<le> MAX_RESPONSE_BYTES \<and> flat cs = (b, None)"
  by (auto simp: read_body_flat prod_eq_iff split: if_splits)

lemma decode_response_flat:
  "http_status r = http_status r' \<Longrightarrow> http_content_length r = http_content_length r' \<Longrightarrow>
   flat (http_body r) = flat (http_body r') \<Longrightarrow> decode_response dec r = decode_response dec r'"
  by (simp add: decode_response_def read_body_flat)

subsection \<open>Tokens on the wire\<close>

lemma wire_token_round_trip:
  "parse_wire_u64 (Some (WireString (show_nat (unat n)))) field positive = Ok n
     \<longleftrightarrow> n \<le> MAX_JSON_SAFE_U64 \<and> \<not> (positive \<and> n = 0)"
  by (auto simp: parse_wire_u64_def parse_u64_show bindR_Ok_iff)

lemma parse_wire_u64_bounds:
  "parse_wire_u64 v field positive = Ok n \<Longrightarrow> n \<le> MAX_JSON_SAFE_U64 \<and> \<not> (positive \<and> n = 0)"
  by (auto simp: parse_wire_u64_def bindR_Ok_iff split: if_splits)

subsection \<open>Requests\<close>

text \<open>The authority answered the last request of this log, and the answer was decoded as \<open>a\<close>.\<close>

definition answered :: "lease_wire \<Rightarrow> (bytes \<Rightarrow> 'a option) \<Rightarrow> wire_log \<Rightarrow> 'a \<Rightarrow> bool" where
  "answered w dec log a \<longleftrightarrow>
     (case authority_reply w log of None \<Rightarrow> False | Some r \<Rightarrow> decode_response dec r = Ok a)"

definition logged :: "wire_log \<Rightarrow> lease_wire \<Rightarrow> lease_wire" where
  "logged reqs w = w\<lparr>wire_sent := wire_sent w @ reqs\<rparr>"

lemma logged_simps [simp]:
  "wire_sent (logged reqs w) = wire_sent w @ reqs" "authority_reply (logged reqs w) = authority_reply w"
  "answered (logged reqs w) = (answered w :: (bytes \<Rightarrow> 'a option) \<Rightarrow> wire_log \<Rightarrow> 'a \<Rightarrow> bool)"
  "logged reqs' (logged reqs w) = logged (reqs @ reqs') w" "logged [] w = w"
  by (simp_all add: logged_def answered_def fun_eq_iff)

lemma post_json_cases:
  obtains e where "post_json t dec path req w = (Err e, logged [(base_url t @ path, bearer t, req)] w)"
  | a where "post_json t dec path req w = (Ok a, logged [(base_url t @ path, bearer t, req)] w)"
      and "answered w dec (wire_sent w @ [(base_url t @ path, bearer t, req)]) a"
  by (cases "authority_reply w (wire_sent w @ [(base_url t @ path, bearer t, req)])";
      cases "decode_response dec (the (authority_reply w (wire_sent w @ [(base_url t @ path, bearer t, req)])))")
    (auto simp: post_json_def send_request_def eff_defs Let_def logged_def answered_def)

text \<open>The log of a program on the wire: a program only appends to the log, requests that satisfy \<open>P\<close>.\<close>

definition appends :: "(string \<times> string \<times> wire_request \<Rightarrow> bool) \<Rightarrow> lease_wire \<Rightarrow> lease_wire \<Rightarrow> bool" where
  "appends P w w' \<longleftrightarrow> (\<exists>reqs. w' = logged reqs w \<and> list_all P reqs)"

lemma appends_frame: "frame_relation (appends P)"
proof
  show "appends P w w" for w
    by (auto simp: appends_def intro: exI [of _ "[]"])
  show "appends P u w" if "appends P u v" "appends P v w" for u v w
    using that by (force simp: appends_def)
qed

interpretation wire_frame: frame_relation "appends P" for P
  by (rule appends_frame)

definition addressed :: "CloudflareDoLeaseTransport \<Rightarrow> string \<times> string \<times> wire_request \<Rightarrow> bool" where
  "addressed t = (\<lambda>(url, b, req). b = bearer t
     \<and> url = base_url t @ (case req of AcquireRequest _ _ _ _ \<Rightarrow> ACQUIRE_PATH | RenewRequest _ _ _ _ \<Rightarrow> RENEW_PATH
                             | ReleaseRequest _ _ _ \<Rightarrow> RELEASE_PATH))"

lemma addressed_paths [simp]:
  "addressed t (base_url t @ ACQUIRE_PATH, bearer t, AcquireRequest key hold request_id ttl)"
  "addressed t (base_url t @ RENEW_PATH, bearer t, RenewRequest key hold token ttl)"
  "addressed t (base_url t @ RELEASE_PATH, bearer t, ReleaseRequest key hold token)"
  by (simp_all add: addressed_def)

lemma post_json_world: "snd (post_json t dec path req w) = logged [(base_url t @ path, bearer t, req)] w"
  by (rule post_json_cases [of t dec path req w]) simp_all

lemma within_post_json:
  "addressed t (base_url t @ path, bearer t, req) \<Longrightarrow> within (appends (addressed t)) (post_json t dec path req)"
  unfolding within_def post_json_world by (auto simp: appends_def intro!: exI [of _ "[(base_url t @ path, bearer t, req)]"])

lemma within_renew_wire: "within (appends (addressed t)) (renew_wire t J key hold token ttl)"
  unfolding renew_wire_def
  by (intro wire_frame.within_rules within_post_json) simp

lemma within_lease_operations:
  "within (appends (addressed t)) (do_acquire t J backend key hold request_id ttl)"
  "within (appends (addressed t)) (do_renew t J backend grant ttl)"
  "within (appends (addressed t)) (do_release t J backend grant)"
  unfolding do_acquire_def do_renew_def do_release_def
  by (auto split: ManagedAcquireResult.splits ManagedRenewResult.splits
      intro!: wire_frame.within_rules within_post_json within_renew_wire)

lemma post_json_Ok:
  "post_json t dec path req w = (Ok a, w') \<longleftrightarrow>
     w' = logged [(base_url t @ path, bearer t, req)] w
     \<and> answered w dec (wire_sent w @ [(base_url t @ path, bearer t, req)]) a"
  by (auto simp: post_json_def send_request_def eff_defs Let_def logged_def answered_def split: sum.splits option.splits)

lemma renew_wire_Ok:
  "renew_wire t J key hold token ttl w = (Ok a, w') \<longleftrightarrow>
     (let req = (base_url t @ RENEW_PATH, bearer t, RenewRequest key hold (show_nat (unat token)) ttl) in
      w' = logged [req] w
      \<and> (\<exists>r. answered w (dec_renew J) (wire_sent w @ [req]) r \<and> parse_renew_response r = Ok a))"
  by (auto simp: renew_wire_def eff_Ok_iff post_json_Ok Let_def)

lemma parse_renew_Renewed: "parse_renew_response r = Ok (LeaseRenewed e) \<Longrightarrow> renewed r"
  by (auto simp: parse_renew_response_def split: if_splits)

lemma renew_wire_Renewed:
  assumes "renew_wire t J key hold token ttl w = (Ok (LeaseRenewed e), w')"
  obtains r where "w' = logged [(base_url t @ RENEW_PATH, bearer t, RenewRequest key hold (show_nat (unat token)) ttl)] w"
    and "answered w (dec_renew J) (wire_sent w') r" and "renewed r"
  using assms parse_renew_Renewed unfolding renew_wire_Ok Let_def by (metis logged_simps(1))

lemma parse_acquire_Acquired:
  "parse_acquire_response r = Ok (LeaseAcquired g, b) \<Longrightarrow>
   acquired r \<and> replayed r = b \<and> parse_wire_u64 (acq_fencing_token r) ''fencing_token'' True = Ok (mg_fencing_token g)"
  by (auto simp: parse_acquire_response_def bindR_Ok_iff split: if_splits)

lemma confirmed_grant_Ok:
  "(case renewal of
      LeaseRenewed expires \<Rightarrow> returnE (LeaseAcquired \<lparr>mg_fencing_token = token, mg_lease_expires_ms = expires\<rparr>)
    | LeaseLost \<Rightarrow> throwE e) w = (Ok (LeaseAcquired g), w')
   \<longleftrightarrow> renewal = LeaseRenewed (mg_lease_expires_ms g) \<and> token = mg_fencing_token g \<and> w' = w"
  by (cases renewal; cases g) (auto simp: eff_Ok_iff)

lemma do_acquire_Acquired:
  assumes "do_acquire t J backend key hold request_id ttl w = (Ok (LeaseAcquired g), w')"
  obtains a g0 where "backend = CloudflareDurableObject"
    and "answered w (dec_acquire J) (wire_sent w @ [(base_url t @ ACQUIRE_PATH, bearer t, AcquireRequest key hold request_id ttl)]) a"
    and "parse_acquire_response a = Ok (LeaseAcquired g0, replayed a)" and "mg_fencing_token g0 = mg_fencing_token g"
    and "if replayed a
         then renew_wire t J key hold (mg_fencing_token g) ttl
                (logged [(base_url t @ ACQUIRE_PATH, bearer t, AcquireRequest key hold request_id ttl)] w)
                = (Ok (LeaseRenewed (mg_lease_expires_ms g)), w')
         else w' = logged [(base_url t @ ACQUIRE_PATH, bearer t, AcquireRequest key hold request_id ttl)] w \<and> g0 = g"
proof -
  let ?req = "(base_url t @ ACQUIRE_PATH, bearer t, AcquireRequest key hold request_id ttl)"
  obtain a res b where a: "backend = CloudflareDurableObject" "answered w (dec_acquire J) (wire_sent w @ [?req]) a"
      "parse_acquire_response a = Ok (res, b)"
    and rest: "(if \<not> b then returnE res
      else (case res of
             LeaseContended \<Rightarrow> throwE ''cloudflare-do replay response was not acquired''
           | LeaseAcquired grant \<Rightarrow>
               bindE (renew_wire t J key hold (mg_fencing_token grant) ttl) (\<lambda>renewal.
               case renewal of
                 LeaseRenewed expires \<Rightarrow>
                   returnE (LeaseAcquired \<lparr>mg_fencing_token = mg_fencing_token grant, mg_lease_expires_ms = expires\<rparr>)
               | LeaseLost \<Rightarrow> throwE ''cloudflare-do replay renewal refused; fenced authority is lost'')))
         (logged [?req] w) = (Ok (LeaseAcquired g), w')"
    using assms unfolding do_acquire_def require_cloudflare_backend_def
    by (auto simp: eff_Ok_iff post_json_Ok split: if_splits)
  obtain g0 where g0: "res = LeaseAcquired g0"
    using rest by (cases res) (auto simp: eff_Ok_iff split: if_splits)
  then have "replayed a = b"
    using parse_acquire_Acquired a(3) by blast
  then show ?thesis
    using that [OF a(1,2), of g0] a(3) rest g0
    by (cases b) (auto simp: eff_Ok_iff confirmed_grant_Ok)
qed

text \<open>
  C22: An acquired lease is one that the authority confirmed. The fencing token of a grant is positive and an exact
  JSON integer, and it is the token of a decoded answer that says that the lease was acquired. An answer that
  repeats an earlier acquisition is not believed by itself: the grant is returned only after a renewal, the last
  request on the wire, of exactly this key, holder and token that the authority accepted. Nothing else is sent.
\<close>

theorem acquired_lease_is_confirmed:
  assumes "do_acquire t J backend key hold request_id ttl w = (Ok (LeaseAcquired g), w')"
  shows "let token = mg_fencing_token g;
      log = wire_sent w @ [(base_url t @ ACQUIRE_PATH, bearer t, AcquireRequest key hold request_id ttl)];
      relog = log @ [(base_url t @ RENEW_PATH, bearer t, RenewRequest key hold (show_nat (unat token)) ttl)]
    in token \<noteq> 0 \<and> token \<le> MAX_JSON_SAFE_U64
      \<and> (\<exists>a. answered w (dec_acquire J) log a \<and> acquired a
            \<and> parse_wire_u64 (acq_fencing_token a) ''fencing_token'' True = Ok token
            \<and> (if replayed a then wire_sent w' = relog \<and> (\<exists>r. answered w (dec_renew J) relog r \<and> renewed r)
               else wire_sent w' = log))"
proof -
  obtain a g0 where a: "answered w (dec_acquire J)
        (wire_sent w @ [(base_url t @ ACQUIRE_PATH, bearer t, AcquireRequest key hold request_id ttl)]) a"
    and p: "parse_acquire_response a = Ok (LeaseAcquired g0, replayed a)" and g0: "mg_fencing_token g0 = mg_fencing_token g"
    and c: "if replayed a
         then renew_wire t J key hold (mg_fencing_token g) ttl
                (logged [(base_url t @ ACQUIRE_PATH, bearer t, AcquireRequest key hold request_id ttl)] w)
                = (Ok (LeaseRenewed (mg_lease_expires_ms g)), w')
         else w' = logged [(base_url t @ ACQUIRE_PATH, bearer t, AcquireRequest key hold request_id ttl)] w \<and> g0 = g"
    using do_acquire_Acquired [OF assms] by metis
  note fresh = parse_acquire_Acquired [OF p]
  moreover have "mg_fencing_token g \<noteq> 0 \<and> mg_fencing_token g \<le> MAX_JSON_SAFE_U64"
    using fresh parse_wire_u64_bounds g0 by fastforce
  moreover have "if replayed a
      then wire_sent w' = wire_sent w @ [(base_url t @ ACQUIRE_PATH, bearer t, AcquireRequest key hold request_id ttl),
             (base_url t @ RENEW_PATH, bearer t, RenewRequest key hold (show_nat (unat (mg_fencing_token g))) ttl)]
           \<and> (\<exists>r. answered w (dec_renew J) (wire_sent w') r \<and> renewed r)
      else wire_sent w' = wire_sent w @ [(base_url t @ ACQUIRE_PATH, bearer t, AcquireRequest key hold request_id ttl)]"
    using c by (cases "replayed a") (auto elim!: renew_wire_Renewed)
  ultimately show ?thesis
    using a g0 unfolding Let_def by (cases "replayed a"; intro conjI exI [of _ a]) simp_all
qed

definition sample_transport :: CloudflareDoLeaseTransport where
  "sample_transport = \<lparr>base_url = ''https://locks'', bearer = ''t''\<rparr>"

text \<open>An authority that repeats an acquisition with token 9 and confirms its renewal.\<close>

definition sample_codec :: wire_codec where
  "sample_codec =
     \<lparr>dec_acquire = (\<lambda>b. if b = ''a'' then Some \<lparr>acquired = True, acq_fencing_token = Some (WireString ''9''),
        acq_lease_expires_ms = None, replayed = True\<rparr> else None),
      dec_renew = (\<lambda>b. if b = ''r'' then Some \<lparr>renewed = True, ren_lease_expires_ms = Some (WireNumber 500)\<rparr> else None),
      dec_release = (\<lambda>b. None)\<rparr>"

definition sample_wire :: lease_wire where
  "sample_wire = \<lparr>wire_sent = [],
     authority_reply = (\<lambda>log. Some \<lparr>http_status = 200, http_content_length = None,
       http_body = [Ok (if length log = 1 then ''a'' else ''r'')]\<rparr>)\<rparr>"

lemma sample_wire_answers:
  "answered sample_wire dec [x] a \<longleftrightarrow> dec ''a'' = Some a"
  "answered sample_wire dec [x, y] a \<longleftrightarrow> dec ''r'' = Some a"
  by (auto simp: answered_def sample_wire_def decode_response_def is_success_def append_bounded_response_chunk_def
      MAX_RESPONSE_BYTES_def)

lemma sample_parsed:
  "parse_acquire_response \<lparr>acquired = True, acq_fencing_token = Some (WireString ''9''),
     acq_lease_expires_ms = None, replayed = True\<rparr> = Ok (LeaseAcquired \<lparr>mg_fencing_token = 9, mg_lease_expires_ms = None\<rparr>, True)"
  "parse_renew_response \<lparr>renewed = True, ren_lease_expires_ms = Some (WireNumber 500)\<rparr> = Ok (LeaseRenewed (Some 500))"
proof -
  have "parse_u64 ''9'' = Some 9"
    by (simp add: parse_u64_def parse_unsigned_def is_ascii_digit_def byte_in_def digits_value_def digit_value_def)
  then show "parse_acquire_response \<lparr>acquired = True, acq_fencing_token = Some (WireString ''9''),
     acq_lease_expires_ms = None, replayed = True\<rparr> = Ok (LeaseAcquired \<lparr>mg_fencing_token = 9, mg_lease_expires_ms = None\<rparr>, True)"
    by (simp add: parse_acquire_response_def parse_wire_u64_def parse_optional_wire_u64_def MAX_JSON_SAFE_U64_def)
qed (simp add: parse_renew_response_def parse_wire_u64_def parse_optional_wire_u64_def MAX_JSON_SAFE_U64_def)

lemma sample_acquire:
  "\<exists>w'. do_acquire sample_transport sample_codec CloudflareDurableObject ''k'' ''h'' ''id'' 1000 sample_wire
     = (Ok (LeaseAcquired \<lparr>mg_fencing_token = 9, mg_lease_expires_ms = Some 500\<rparr>), w')"
proof -
  define a where "a = \<lparr>acquired = True, acq_fencing_token = Some (WireString ''9''), acq_lease_expires_ms = None, replayed = True\<rparr>"
  define r where "r = \<lparr>renewed = True, ren_lease_expires_ms = Some (WireNumber 500)\<rparr>"
  obtain w1 where w1: "post_json sample_transport (dec_acquire sample_codec) ACQUIRE_PATH (AcquireRequest ''k'' ''h'' ''id'' 1000) sample_wire
      = (Ok a, w1)" "w1 = logged [(base_url sample_transport @ ACQUIRE_PATH, bearer sample_transport, AcquireRequest ''k'' ''h'' ''id'' 1000)] sample_wire"
    unfolding post_json_Ok by (simp add: sample_wire_def [THEN arg_cong, of wire_sent] sample_wire_answers a_def sample_codec_def)
  obtain w2 where "renew_wire sample_transport sample_codec ''k'' ''h'' 9 1000 w1 = (Ok (LeaseRenewed (Some 500)), w2)"
    unfolding renew_wire_Ok Let_def w1(2)
    using sample_parsed(2) by (simp add: sample_wire_def [THEN arg_cong, of wire_sent] sample_wire_answers sample_codec_def)
  then have "do_acquire sample_transport sample_codec CloudflareDurableObject ''k'' ''h'' ''id'' 1000 sample_wire
      = (Ok (LeaseAcquired \<lparr>mg_fencing_token = 9, mg_lease_expires_ms = Some 500\<rparr>), w2)"
    unfolding do_acquire_def require_cloudflare_backend_def
    using w1(1) sample_parsed(1) by (simp add: bindE_def liftE_def returnE_def a_def)
  then show ?thesis by blast
qed

theorem acquired_lease_is_confirmed_witness:
  "\<exists>w'. do_acquire sample_transport sample_codec CloudflareDurableObject ''k'' ''h'' ''id'' 1000 sample_wire
      = (Ok (LeaseAcquired \<lparr>mg_fencing_token = 9, mg_lease_expires_ms = Some 500\<rparr>), w')
      \<and> (9 :: u64) \<le> MAX_JSON_SAFE_U64 \<and> wire_sent w' \<noteq> []"
proof -
  obtain w' where run: "do_acquire sample_transport sample_codec CloudflareDurableObject ''k'' ''h'' ''id'' 1000 sample_wire
      = (Ok (LeaseAcquired \<lparr>mg_fencing_token = 9, mg_lease_expires_ms = Some 500\<rparr>), w')"
    using sample_acquire by blast
  from acquired_lease_is_confirmed [OF run] have "(9 :: u64) \<le> MAX_JSON_SAFE_U64 \<and> wire_sent w' \<noteq> []"
    unfolding Let_def by (auto split: if_splits)
  then show ?thesis
    using run by blast
qed

subsection \<open>Where the credential goes\<close>

lemma normalize_base_url_Ok:
  assumes "normalize_base_url url_parse v = Ok b"
  obtains u where "url_parse v = Some u" and "url_scheme u = ''https''" and "url_host u \<noteq> None" and "url_path u = ''/''"
    and "url_username u = []" and "url_password u = None" and "url_query u = None" and "url_fragment u = None"
    and "b = trim_end_matches ((=) (CHR ''/'')) v"
  using assms by (auto simp: normalize_base_url_def bindR_Ok_iff split: if_splits)

lemma from_systemd_credential_Ok:
  assumes "from_systemd_credential env url_parse client_builds url cred h = (Ok t, h')"
  obtains d where "env ''CREDENTIALS_DIRECTORY'' = Some d" and "is_absolute d" and "validate_credential_name cred = Ok ()"
    and "validate_bearer (bearer t) = Ok ()" and "normalize_base_url url_parse url = Ok (base_url t)"
  using assms
  by (auto simp: from_systemd_credential_def from_credential_directory_def validate_credentials_directory_def from_bearer_def
      eff_Ok_iff bindR_Ok_iff Let_def split: option.splits if_splits)

text \<open>
  C23: The credential reaches only the configured authority. A transport that was built from the systemd credential has
  a bearer of 1 to 4096 printable ASCII bytes, so it cannot break out of its header, and an endpoint that parses as an
  HTTPS URL with a host, no path, no user information, no query and no fragment. Whatever it is asked to do and
  whatever the authority answers, every request that an acquisition, a renewal or a release adds to the wire goes to
  this endpoint, at the path of its kind, with this bearer; nothing else on the wire changes.
\<close>

theorem lease_credential_reaches_only_the_authority:
  assumes "from_systemd_credential env url_parse client_builds url cred h = (Ok t, h')"
    and "w' \<in> {snd (do_acquire t J backend key hold request_id ttl w), snd (do_renew t J backend grant ttl w),
               snd (do_release t J backend grant w)}"
  shows "bearer t \<noteq> [] \<and> length (bearer t) \<le> 4096 \<and> list_all is_ascii_graphic (bearer t)
    \<and> (\<exists>u. url_parse url = Some u \<and> url_scheme u = ''https'' \<and> url_host u \<noteq> None \<and> url_path u = ''/'' \<and> url_username u = []
          \<and> url_password u = None \<and> url_query u = None \<and> url_fragment u = None)
    \<and> base_url t = trim_end_matches ((=) (CHR ''/'')) url
    \<and> (\<exists>reqs. w' = w\<lparr>wire_sent := wire_sent w @ reqs\<rparr> \<and> list_all (addressed t) reqs)"
proof -
  obtain d where v: "validate_bearer (bearer t) = Ok ()" and n: "normalize_base_url url_parse url = Ok (base_url t)"
    using from_systemd_credential_Ok [OF assms(1)] by metis
  obtain u where u: "url_parse url = Some u" "url_scheme u = ''https''" "url_host u \<noteq> None" "url_path u = ''/''"
      "url_username u = []" "url_password u = None" "url_query u = None" "url_fragment u = None"
      "base_url t = trim_end_matches ((=) (CHR ''/'')) url"
    using normalize_base_url_Ok [OF n] by metis
  have "bearer t \<noteq> [] \<and> length (bearer t) \<le> 4096 \<and> list_all is_ascii_graphic (bearer t)"
    using v by (auto simp: validate_bearer_def MAX_BEARER_BYTES_def split: if_splits)
  moreover have "appends (addressed t) w w'"
    using assms(2) within_lease_operations [THEN within_snd] by blast
  ultimately show ?thesis
    using u unfolding appends_def logged_def by blast
qed

definition sample_credential_kernel :: kernel where
  "sample_credential_kernel =
     \<lparr>k_read = (\<lambda>_ _ p. if p = ''/run/c/api'' then Ok (''t'' @ [newline]) else Err OtherKind),
      k_stat = (\<lambda>_ _ p. if p = ''/run/c'' then Ok DirNode else if p = ''/run/c/api'' then Ok (FileNode [] True) else Err OtherKind),
      k_write = (\<lambda>_ _ _ _. Err OtherKind)\<rparr>"

definition sample_credential_host :: host where
  "sample_credential_host = \<lparr>nodes = [], history = [], pending = [], faults = [], clock = [], pid = 1, now = 0, lags = [], writes = [],
     sent = [], kernel_of = sample_credential_kernel,
     peer_of = (\<lambda>_ _. \<lparr>connects = False, timeouts_set = False, replies = (\<lambda>_. \<lparr>accepts_request = False, shuts_down = False,
       chunks = []\<rparr>)\<rparr>)\<rparr>"

definition sample_url :: "string \<Rightarrow> parsed_url option" where
  "sample_url v = (if v = ''https://locks/'' then Some \<lparr>url_scheme = ''https'', url_host = Some ''locks'', url_path = ''/'',
     url_username = [], url_password = None, url_query = None, url_fragment = None\<rparr> else None)"

lemma sample_transport_built:
  "\<exists>h'. from_systemd_credential [''CREDENTIALS_DIRECTORY'' \<mapsto> ''/run/c''] sample_url True ''https://locks/'' ''api''
     sample_credential_host = (Ok sample_transport, h')"
proof -
  have parts: "is_absolute ''/run/c''" "path_join ''/run/c'' ''api'' = ''/run/c/api''" "valid_utf8 (''t'' @ [newline])"
    "trim_end_matches (\<lambda>c. c = carriage_return \<or> c = newline) (''t'' @ [newline]) = ''t''"
    "trim_end_matches ((=) (CHR ''/'')) ''https://locks/'' = ''https://locks''"
    "validate_credential_name ''api'' = Ok ()" "validate_bearer ''t'' = Ok ()"
    by code_simp+
  define dir where "dir = ''/run/c''"
  define cfile where "cfile = ''/run/c/api''"
  have ne: "cfile \<noteq> dir"
    by (simp add: dir_def cfile_def)
  show ?thesis
    using parts ne unfolding dir_def [symmetric] cfile_def [symmetric]
    by (simp add: from_systemd_credential_def from_credential_directory_def validate_credentials_directory_def from_bearer_def
        normalize_base_url_def lstat_def read_to_string_def eff_defs Let_def sample_credential_host_def
        sample_credential_kernel_def sample_url_def sample_transport_def elapse_def dir_def [symmetric] cfile_def [symmetric])
qed

theorem lease_credential_reaches_only_the_authority_witness:
  "list_all (addressed sample_transport)
     (wire_sent (snd (do_acquire sample_transport sample_codec CloudflareDurableObject ''k'' ''h'' ''id'' 1000 sample_wire)))"
proof -
  obtain h' where built: "from_systemd_credential [''CREDENTIALS_DIRECTORY'' \<mapsto> ''/run/c''] sample_url True ''https://locks/'' ''api''
     sample_credential_host = (Ok sample_transport, h')"
    using sample_transport_built by blast
  from lease_credential_reaches_only_the_authority [OF built insertI1, of sample_codec CloudflareDurableObject "''k''" "''h''" "''id''" 1000 sample_wire]
  obtain reqs where "snd (do_acquire sample_transport sample_codec CloudflareDurableObject ''k'' ''h'' ''id'' 1000 sample_wire)
      = sample_wire\<lparr>wire_sent := wire_sent sample_wire @ reqs\<rparr>" "list_all (addressed sample_transport) reqs"
    by blast
  then show ?thesis
    by (simp add: sample_wire_def)
qed

subsection \<open>Endpoints with a path\<close>

text \<open>
  The configuration of the agent admits an endpoint with a path; the transport refuses it when it is built,
  whatever else the URL contains.
\<close>

lemma endpoint_with_path_is_admitted_then_refused:
  "validate_lease_endpoint ''https://locks/v2'' = Ok ''https://locks/v2''
   \<and> (\<forall>u. url_path u \<noteq> ''/'' \<longrightarrow> normalize_base_url (\<lambda>_. Some u) ''https://locks/v2'' = Err InvalidBaseUrl)"
proof -
  have "validate_lease_endpoint ''https://locks/v2'' = Ok ''https://locks/v2''"
    by code_simp
  then show ?thesis
    by (simp add: normalize_base_url_def)
qed

end
