(* ===== verification/Criu.thy ===== *)
theory Criu
  imports Host_World
begin

section \<open>Checkpoint and restore through CRIU\<close>

text \<open>
  The CRIU part of \<open>src/src/adapters/linux_process_lifecycle.rs\<close> (its cgroup part is in theory \<open>Cgroup_Freeze\<close>). The
  operating system is the record \<open>criu_os\<close>: every call is logged with its arguments, and the answer is any function
  of the calls so far, so that files may change between two calls. An exit status is its code, absent
  when the command was killed by a signal.

  The theorem says that each operation runs along one fixed script of calls, stops at the first one that fails or
  answers wrongly, and that the one command it starts is the resolved regular file with these exact arguments, on a
  directory that was checked and made private.
\<close>

datatype CriuOperation = Dump | Restore

datatype CriuLifecycleError =
    CriuIo io_kind
  | CommandFailed CriuOperation "int option"
  | InvalidPidFile
  | InvalidRootPid
  | NonAbsoluteBinary
  | InvalidBinary
  | InvalidCheckpointDirectory

text \<open>The texts of the errors; \<open>{:?}\<close> of an operation is its name and that of an exit code \<open>None\<close> or \<open>Some(n)\<close>.\<close>

fun CriuOperation_debug :: "CriuOperation \<Rightarrow> string" where
  "CriuOperation_debug Dump = ''Dump''"
| "CriuOperation_debug Restore = ''Restore''"

definition show_int :: "int \<Rightarrow> string" where
  "show_int n = (if n < 0 then CHR ''-'' # show_nat (nat (- n)) else show_nat (nat n))"

definition exit_code_debug :: "int option \<Rightarrow> string" where
  "exit_code_debug c = (case c of None \<Rightarrow> ''None'' | Some n \<Rightarrow> ''Some('' @ show_int n @ '')'')"

fun CriuLifecycleError_fmt :: "(io_kind \<Rightarrow> string) \<Rightarrow> CriuLifecycleError \<Rightarrow> string" where
  "CriuLifecycleError_fmt T (CriuIo k) = ''CRIU I/O failed: '' @ T k"
| "CriuLifecycleError_fmt T (CommandFailed operation code) =
     ''CRIU '' @ CriuOperation_debug operation @ '' failed with exit code '' @ exit_code_debug code"
| "CriuLifecycleError_fmt T InvalidPidFile = ''CRIU restore pidfile is invalid''"
| "CriuLifecycleError_fmt T InvalidRootPid = ''CRIU root pid must be positive''"
| "CriuLifecycleError_fmt T NonAbsoluteBinary = ''CRIU binary path must be absolute''"
| "CriuLifecycleError_fmt T InvalidBinary = ''CRIU binary must be a regular non-symlink file''"
| "CriuLifecycleError_fmt T InvalidCheckpointDirectory = ''CRIU checkpoint directory must be a real directory''"

record CriuController =
  criu_binary :: string

definition CriuController_new :: "string \<Rightarrow> CriuController" where
  "CriuController_new b = \<lparr>criu_binary = b\<rparr>"

definition CriuController_default :: CriuController where
  "CriuController_default = CriuController_new ''/run/current-system/sw/bin/criu''"

subsection \<open>The operating system\<close>

datatype criu_call =
    Canonicalize string
  | Metadata string
  | CreateDirAll string
  | SymlinkMetadata string
  | SetMode string nat
  | RemoveFile string
  | Spawn string "string list"
  | ReadToString string

record criu_os =
  os_calls :: "criu_call list"
  os_resolved :: "criu_call list \<Rightarrow> io_kind + string"
  os_node :: "criu_call list \<Rightarrow> io_kind + node"
  os_done :: "criu_call list \<Rightarrow> io_kind + unit"
  os_status :: "criu_call list \<Rightarrow> io_kind + int option"
  os_bytes :: "criu_call list \<Rightarrow> io_kind + bytes"

type_synonym 'a criu = "(criu_os, CriuLifecycleError, 'a) eff"

definition os_call :: "(criu_os \<Rightarrow> criu_call list \<Rightarrow> io_kind + 'a) \<Rightarrow> criu_call \<Rightarrow> 'a criu" where
  "os_call answer c w =
     (let log = os_calls w @ [c] in (map_err CriuIo (answer w log), w\<lparr>os_calls := log\<rparr>))"

definition is_file_node :: "node \<Rightarrow> bool" where
  "is_file_node n = (case n of FileNode _ _ \<Rightarrow> True | _ \<Rightarrow> False)"

subsection \<open>Operations\<close>

definition validated_binary :: "CriuController \<Rightarrow> string criu" where
  "validated_binary c =
     (if \<not> is_absolute (criu_binary c) then throwE NonAbsoluteBinary
      else
        bindE (os_call os_resolved (Canonicalize (criu_binary c))) (\<lambda>resolved.
        bindE (os_call os_node (Metadata resolved)) (\<lambda>m.
        if \<not> is_file_node m then throwE InvalidBinary else returnE resolved)))"

definition prepare_private_checkpoint_directory :: "string \<Rightarrow> bool \<Rightarrow> unit criu" where
  "prepare_private_checkpoint_directory path create_if_missing =
     bindE (if create_if_missing then os_call os_done (CreateDirAll path) else returnE ()) (\<lambda>_.
     bindE (os_call os_node (SymlinkMetadata path)) (\<lambda>m.
     if m \<noteq> DirNode then throwE InvalidCheckpointDirectory
     else os_call os_done (SetMode path 448)))"

definition dump_args :: "u32 \<Rightarrow> string \<Rightarrow> string list" where
  "dump_args root_pid images_dir =
     [''dump'', ''--tree'', show_nat (unat root_pid), ''--images-dir'', images_dir, ''--log-file'', ''dump.log'']"

definition restore_args :: "string \<Rightarrow> string \<Rightarrow> string list" where
  "restore_args images_dir pid_file =
     [''restore'', ''--images-dir'', images_dir, ''--restore-detached'', ''--pidfile'', pid_file, ''--log-file'', ''restore.log'']"

definition criu_checkpoint_and_terminate :: "CriuController \<Rightarrow> u32 \<Rightarrow> string \<Rightarrow> unit criu" where
  "criu_checkpoint_and_terminate c root_pid images_dir =
     bindE (validated_binary c) (\<lambda>binary.
     if root_pid = 0 then throwE InvalidRootPid
     else
       bindE (prepare_private_checkpoint_directory images_dir True) (\<lambda>_.
       bindE (os_call os_status (Spawn binary (dump_args root_pid images_dir))) (\<lambda>status.
       if status \<noteq> Some 0 then throwE (CommandFailed Dump status) else returnE ())))"

text \<open>The removal of an old pid file: a file that is not there is as good as a removed one.\<close>

definition remove_pid_file :: "string \<Rightarrow> unit criu" where
  "remove_pid_file pid_file =
     catchE (os_call os_done (RemoveFile pid_file)) (\<lambda>e. if e = CriuIo NotFound then returnE () else throwE e)"

definition parse_pid_file :: "bytes \<Rightarrow> CriuLifecycleError + u32" where
  "parse_pid_file b =
     (if \<not> valid_utf8 b then Err (CriuIo OtherKind)
      else
        bindR (ok_or InvalidPidFile (parse_u32 (trim b))) (\<lambda>p.
        if p = 0 then Err InvalidPidFile else Ok p))"

definition criu_restore :: "CriuController \<Rightarrow> string \<Rightarrow> string \<Rightarrow> u32 criu" where
  "criu_restore c images_dir pid_file =
     bindE (validated_binary c) (\<lambda>binary.
     bindE (prepare_private_checkpoint_directory images_dir False) (\<lambda>_.
     bindE (remove_pid_file pid_file) (\<lambda>_.
     bindE (os_call os_status (Spawn binary (restore_args images_dir pid_file))) (\<lambda>status.
     if status \<noteq> Some 0 then throwE (CommandFailed Restore status)
     else
       bindE (os_call os_bytes (ReadToString pid_file)) (\<lambda>b. liftE (parse_pid_file b))))))"

subsection \<open>The abstract operation: a script\<close>

text \<open>Whether the answer to the last call of a log lets the operation go on.\<close>

fun granted :: "criu_os \<Rightarrow> criu_call list \<Rightarrow> criu_call \<Rightarrow> bool" where
  "granted w log (Canonicalize p) = (\<not> is_Err (os_resolved w log))"
| "granted w log (Metadata p) = (case os_node w log of Ok m \<Rightarrow> is_file_node m | Err _ \<Rightarrow> False)"
| "granted w log (CreateDirAll p) = (os_done w log = Ok ())"
| "granted w log (SymlinkMetadata p) = (os_node w log = Ok DirNode)"
| "granted w log (SetMode p m) = (os_done w log = Ok ())"
| "granted w log (RemoveFile p) = (os_done w log \<in> {Ok (), Err NotFound})"
| "granted w log (Spawn p args) = (os_status w log = Ok (Some 0))"
| "granted w log (ReadToString p) = (case os_bytes w log of Ok b \<Rightarrow> \<not> is_Err (parse_pid_file b) | Err _ \<Rightarrow> False)"

text \<open>The calls of a script up to the first one that is not granted, and whether all of them were granted.\<close>

fun run_script :: "criu_os \<Rightarrow> criu_call list \<Rightarrow> criu_call list \<Rightarrow> bool \<times> criu_call list" where
  "run_script w log [] = (True, log)"
| "run_script w log (c # cs) =
     (if granted w (log @ [c]) c then run_script w (log @ [c]) cs else (False, log @ [c]))"

text \<open>The regular file that the configured binary resolves to in this world.\<close>

definition resolved_binary :: "CriuController \<Rightarrow> criu_os \<Rightarrow> string" where
  "resolved_binary c w =
     (case os_resolved w (os_calls w @ [Canonicalize (criu_binary c)]) of Ok r \<Rightarrow> r | Err _ \<Rightarrow> [])"

definition binary_script :: "CriuController \<Rightarrow> criu_os \<Rightarrow> criu_call list" where
  "binary_script c w = [Canonicalize (criu_binary c), Metadata (resolved_binary c w)]"

definition dump_script :: "CriuController \<Rightarrow> u32 \<Rightarrow> string \<Rightarrow> criu_os \<Rightarrow> criu_call list" where
  "dump_script c root_pid dir w = binary_script c w
     @ [CreateDirAll dir, SymlinkMetadata dir, SetMode dir 448,
        Spawn (resolved_binary c w)
          [''dump'', ''--tree'', show_nat (unat root_pid), ''--images-dir'', dir, ''--log-file'', ''dump.log'']]"

definition restore_script :: "CriuController \<Rightarrow> string \<Rightarrow> string \<Rightarrow> criu_os \<Rightarrow> criu_call list" where
  "restore_script c dir pid_file w = binary_script c w
     @ [SymlinkMetadata dir, SetMode dir 448, RemoveFile pid_file,
        Spawn (resolved_binary c w)
          [''restore'', ''--images-dir'', dir, ''--restore-detached'', ''--pidfile'', pid_file, ''--log-file'', ''restore.log''],
        ReadToString pid_file]"

text \<open>\<open>script_ran w s r w'\<close>: the run that found the world \<open>w\<close> executed the script \<open>s\<close> and succeeded exactly when it was granted.\<close>

definition script_ran :: "criu_os \<Rightarrow> criu_call list \<Rightarrow> 'e + 'a \<Rightarrow> criu_os \<Rightarrow> bool" where
  "script_ran w s r w' \<longleftrightarrow>
     (\<not> is_Err r) = fst (run_script w (os_calls w) s) \<and> w' = w\<lparr>os_calls := snd (run_script w (os_calls w) s)\<rparr>"

subsection \<open>The operations run their scripts\<close>

lemma granted_calls [simp]: "granted (w\<lparr>os_calls := x\<rparr>) log c = granted w log c"
  by (cases c) simp_all

lemma run_script_calls [simp]: "run_script (w\<lparr>os_calls := x\<rparr>) log s = run_script w log s"
  by (induction s arbitrary: log) simp_all

lemma run_script_append:
  "run_script w log (s @ t) = (case run_script w log s of (ok, l) \<Rightarrow> if ok then run_script w l t else (False, l))"
  by (induction s arbitrary: log) simp_all

lemma ran_bindE:
  assumes "script_ran w s (fst (m w)) (snd (m w))"
    and "\<And>a w1. m w = (Ok a, w1) \<Longrightarrow> script_ran w1 t (fst (k a w1)) (snd (k a w1))"
  shows "script_ran w (s @ t) (fst (bindE m k w)) (snd (bindE m k w))"
proof -
  obtain r w1 where m: "m w = (r, w1)"
    by fastforce
  show ?thesis
    using assms m by (cases r) (auto simp: script_ran_def bindE_def run_script_append split: prod.splits)
qed

lemmas call_defs = os_call_def eff_defs Let_def script_ran_def map_err_def is_Err_def

lemma binary_ran:
  assumes "is_absolute (criu_binary c)"
  shows "script_ran w (binary_script c w) (fst (validated_binary c w)) (snd (validated_binary c w))"
    and "validated_binary c w = (Ok b, w1) \<Longrightarrow> b = resolved_binary c w"
  using assms
  by (auto simp: validated_binary_def binary_script_def resolved_binary_def call_defs split: sum.splits if_splits)

lemma prepare_ran:
  "script_ran w ((if create then [CreateDirAll dir] else []) @ [SymlinkMetadata dir, SetMode dir 448])
     (fst (prepare_private_checkpoint_directory dir create w)) (snd (prepare_private_checkpoint_directory dir create w))"
  by (auto simp: prepare_private_checkpoint_directory_def call_defs split: sum.splits if_splits)

lemma spawn_ran:
  "script_ran w [Spawn b args]
     (fst (bindE (os_call os_status (Spawn b args)) (\<lambda>status. if status \<noteq> Some 0 then throwE (CommandFailed oper status) else returnE ()) w))
     (snd (bindE (os_call os_status (Spawn b args)) (\<lambda>status. if status \<noteq> Some 0 then throwE (CommandFailed oper status) else returnE ()) w))"
  by (auto simp: call_defs split: sum.splits if_splits)

lemma remove_ran:
  "script_ran w [RemoveFile f] (fst (remove_pid_file f w)) (snd (remove_pid_file f w))"
  by (auto simp: remove_pid_file_def call_defs split: sum.splits if_splits)

lemma spawn_read_ran:
  "script_ran w [Spawn b args, ReadToString f]
     (fst (bindE (os_call os_status (Spawn b args)) (\<lambda>status. if status \<noteq> Some 0 then throwE (CommandFailed oper status)
        else bindE (os_call os_bytes (ReadToString f)) (\<lambda>b. liftE (parse_pid_file b))) w))
     (snd (bindE (os_call os_status (Spawn b args)) (\<lambda>status. if status \<noteq> Some 0 then throwE (CommandFailed oper status)
        else bindE (os_call os_bytes (ReadToString f)) (\<lambda>b. liftE (parse_pid_file b))) w))"
  by (auto simp: call_defs split: sum.splits if_splits)

lemma checkpoint_ran:
  assumes "is_absolute (criu_binary c)" and "root_pid \<noteq> 0"
  shows "script_ran w (dump_script c root_pid dir w) (fst (criu_checkpoint_and_terminate c root_pid dir w)) (snd (criu_checkpoint_and_terminate c root_pid dir w))"
proof -
  have "script_ran w (binary_script c w @ ([CreateDirAll dir, SymlinkMetadata dir, SetMode dir 448]
      @ [Spawn (resolved_binary c w) (dump_args root_pid dir)]))
    (fst (criu_checkpoint_and_terminate c root_pid dir w)) (snd (criu_checkpoint_and_terminate c root_pid dir w))"
    unfolding criu_checkpoint_and_terminate_def
    using assms(2) prepare_ran [where create = True] binary_ran(2) [OF assms(1)]
    by (intro ran_bindE binary_ran(1) [OF assms(1)]) (auto intro!: ran_bindE [where s = "[_, _, _]", simplified] spawn_ran)
  then show ?thesis
    by (simp add: dump_script_def dump_args_def)
qed

lemma restore_ran:
  assumes "is_absolute (criu_binary c)"
  shows "script_ran w (restore_script c dir f w) (fst (criu_restore c dir f w)) (snd (criu_restore c dir f w))"
proof -
  have "script_ran w (binary_script c w @ ([SymlinkMetadata dir, SetMode dir 448] @ ([RemoveFile f]
      @ [Spawn (resolved_binary c w) (restore_args dir f), ReadToString f])))
    (fst (criu_restore c dir f w)) (snd (criu_restore c dir f w))"
    unfolding criu_restore_def
    using prepare_ran [where create = False] binary_ran(2) [OF assms]
    by (intro ran_bindE binary_ran(1) [OF assms] remove_ran) (auto intro: spawn_read_ran)
  then show ?thesis
    by (simp add: restore_script_def restore_args_def)
qed

lemma restored_pid:
  assumes "criu_restore c dir f w = (Ok p, w')"
  shows "p \<noteq> 0 \<and> (\<exists>b. os_bytes w (os_calls w') = Ok b \<and> parse_u32 (trim b) = Some p)"
proof -
  obtain w1 b where "os_call os_bytes (ReadToString f) w1 = (Ok b, w')" "parse_pid_file b = Ok p"
    using assms by (auto simp: criu_restore_def eff_Ok_iff split: if_splits)
  then have "os_bytes w1 (os_calls w') = Ok b" "os_bytes w' = os_bytes w1" "p \<noteq> 0" "parse_u32 (trim b) = Some p"
    by (auto simp: os_call_def Let_def parse_pid_file_def bindR_Ok_iff split: if_splits)
  moreover have "os_bytes w' = os_bytes w"
    using restore_ran [of c w dir f] assms
    by (cases "is_absolute (criu_binary c)") (auto simp: script_ran_def criu_restore_def validated_binary_def eff_defs)
  ultimately show ?thesis
    by auto
qed

text \<open>
  C30: CRIU is run by the script. With an absolute binary path, and for a dump a positive root process, an operation
  makes exactly the calls of its script up to the first one that is not granted, and succeeds exactly when all
  are granted: the binary is resolved and is a regular file; the directory is a real directory and becomes mode
  0700; for a restore the old pid file is removed; then the resolved file is run, once, with exactly the fixed
  arguments, and must exit with 0. Otherwise nothing is run. A restore returns the positive number that the
  pid file holds after the command.
\<close>

theorem criu_runs_its_script:
  "(case criu_checkpoint_and_terminate c root_pid dir w of (r, w') \<Rightarrow>
      if \<not> is_absolute (criu_binary c) then r = Err NonAbsoluteBinary \<and> w' = w
      else if root_pid = 0
      then is_Err r \<and> w' = w\<lparr>os_calls := snd (run_script w (os_calls w) (binary_script c w))\<rparr>
      else script_ran w (dump_script c root_pid dir w) r w')
   \<and> (case criu_restore c dir pid_file w of (r, w') \<Rightarrow>
        (if \<not> is_absolute (criu_binary c) then r = Err NonAbsoluteBinary \<and> w' = w
         else script_ran w (restore_script c dir pid_file w) r w')
        \<and> (case r of
             Err _ \<Rightarrow> True
           | Ok p \<Rightarrow> p \<noteq> 0 \<and> (\<exists>b. os_bytes w (os_calls w') = Ok b \<and> parse_u32 (trim b) = Some p)))"
proof -
  have relative: "criu_checkpoint_and_terminate c root_pid dir w = (Err NonAbsoluteBinary, w)"
    "criu_restore c dir pid_file w = (Err NonAbsoluteBinary, w)" if "\<not> is_absolute (criu_binary c)"
    using that by (simp_all add: criu_checkpoint_and_terminate_def criu_restore_def validated_binary_def eff_defs)
  have zero: "is_Err (fst (criu_checkpoint_and_terminate c 0 dir w))
      \<and> snd (criu_checkpoint_and_terminate c 0 dir w) = w\<lparr>os_calls := snd (run_script w (os_calls w) (binary_script c w))\<rparr>"
    if "is_absolute (criu_binary c)"
    using binary_ran(1) [OF that, of w]
    by (auto simp: criu_checkpoint_and_terminate_def script_ran_def bindE_def throwE_def split: prod.splits sum.splits)
  show ?thesis
    using relative zero checkpoint_ran [of c root_pid w dir] restore_ran [of c w dir pid_file] restored_pid [of c dir pid_file w]
    by (cases "is_absolute (criu_binary c)") (auto split: prod.splits sum.splits)
qed

end
