(* ===== verification/Receiver.thy ===== *)
theory Receiver
  imports Byte_Stream
begin

section \<open>The framed receiver\<close>

text \<open>
  \<open>src/src/receiver.rs\<close>: metadata lines on one stream announce chunks of raw bytes on another. The parser of \<open>serde_json\<close> is a parameter;
  its value type is a datatype with the variants of \<open>serde_json::Value\<close>. On the supported platforms \<open>usize\<close>
  has 64 bits, so that the final \<open>try_from\<close> of \<open>parse_byte_length\<close> cannot fail.

  The theorems say that frames do not depend on how the streams are cut into chunks, that what a sender frames is
  what the sink gets, and that rejected metadata leaves the data stream alone.
\<close>

definition DEFAULT_MAX_METADATA_LINE_BYTES :: nat where
  "DEFAULT_MAX_METADATA_LINE_BYTES = 64 * 1024"

definition DEFAULT_MAX_DATA_CHUNK_BYTES :: nat where
  "DEFAULT_MAX_DATA_CHUNK_BYTES = 1024 * 1024"

datatype ReceiverError =
    ReceiverIo io_kind
  | MetadataTooLarge
  | TruncatedMetadata
  | InvalidMetadata
  | MissingSchemaVersion
  | InvalidByteLength
  | DataChunkTooLarge (requested: u64) (maximum: nat)
  | TruncatedData (expected: nat) (received: nat)

text \<open>The texts of the errors, for a text \<open>T\<close> of the system's own, and the underlying cause.\<close>

fun ReceiverError_fmt :: "(io_kind \<Rightarrow> string) \<Rightarrow> ReceiverError \<Rightarrow> string" where
  "ReceiverError_fmt T (ReceiverIo k) = ''receiver I/O failed: '' @ T k"
| "ReceiverError_fmt T MetadataTooLarge = ''receiver metadata line exceeds the configured bound''"
| "ReceiverError_fmt T TruncatedMetadata = ''receiver metadata stream closed before newline framing completed''"
| "ReceiverError_fmt T InvalidMetadata = ''receiver metadata is not a JSON object''"
| "ReceiverError_fmt T MissingSchemaVersion = ''receiver metadata is missing schemaVersion''"
| "ReceiverError_fmt T InvalidByteLength = ''receiver metadata byteLength must be a non-negative integer''"
| "ReceiverError_fmt T (DataChunkTooLarge req bound) =
     ''receiver data chunk requests '' @ show_nat (unat req) @ '' bytes, above the '' @ show_nat bound @ ''-byte bound''"
| "ReceiverError_fmt T (TruncatedData want got) =
     ''receiver data stream closed after '' @ show_nat got @ '' of '' @ show_nat want @ '' expected bytes''"

fun ReceiverError_source :: "ReceiverError \<Rightarrow> io_kind option" where
  "ReceiverError_source (ReceiverIo k) = Some k"
| "ReceiverError_source _ = None"

datatype json_value =
    JNull | JBool bool | JPosInt u64 | JNegInt int | JFloat string | JString string
  | JArray "json_value list" | JObject "(string \<times> json_value) list"

record ReceiverFrame =
  metadata :: json_value
  data :: bytes

record ReceiverLimits =
  max_metadata_line_bytes :: nat
  max_data_chunk_bytes :: nat

definition ReceiverLimits_default :: ReceiverLimits where
  "ReceiverLimits_default = \<lparr>max_metadata_line_bytes = DEFAULT_MAX_METADATA_LINE_BYTES,
     max_data_chunk_bytes = DEFAULT_MAX_DATA_CHUNK_BYTES\<rparr>"

subsection \<open>Accessors of JSON values\<close>

fun value_get :: "json_value \<Rightarrow> string \<Rightarrow> json_value option" where
  "value_get (JObject kvs) k = map_of kvs k"
| "value_get _ k = None"

fun as_u64 :: "json_value \<Rightarrow> u64 option" where
  "as_u64 (JPosInt n) = Some n"
| "as_u64 _ = None"

fun as_str :: "json_value \<Rightarrow> string option" where
  "as_str (JString s) = Some s"
| "as_str _ = None"

fun as_object :: "json_value \<Rightarrow> (string \<times> json_value) list option" where
  "as_object (JObject kvs) = Some kvs"
| "as_object _ = None"

subsection \<open>Metadata lines\<close>

definition strip_line_end :: "bytes \<Rightarrow> bytes" where
  "strip_line_end line = rev (dropWhile (\<lambda>c. c = newline \<or> c = carriage_return) (rev line))"

function read_bounded_line :: "nat \<Rightarrow> bytes \<Rightarrow> stream \<Rightarrow> (ReceiverError + bytes option) \<times> stream" where
  "read_bounded_line maxi line cs =
     (case fill_buf cs of
        (Err k, cs') \<Rightarrow> (Err (ReceiverIo k), cs')
      | (Ok available, cs') \<Rightarrow>
          if available = [] then (if line = [] then Ok None else Err TruncatedMetadata, cs')
          else
            let nl = position (\<lambda>b. b = newline) available;
                taken = (case nl of None \<Rightarrow> length available | Some i \<Rightarrow> i + 1) in
            if length line + taken > maxi then (Err MetadataTooLarge, cs')
            else
              let line' = line @ take taken available; rest = consume taken cs' in
              if nl \<noteq> None then (Ok (Some (strip_line_end line')), rest)
              else read_bounded_line maxi line' rest)"
  by pat_completeness auto
termination
proof (relation "measure (\<lambda>(maxi, line, cs). stream_bytes cs)", goal_cases)
  case (2 maxi line cs r cs' available nl taken line' rest)
  then show ?case
    using fill_buf_cases[of cs r cs'] by (auto split: option.splits if_splits)
qed simp

declare read_bounded_line.simps [simp del]

lemma read_bounded_line_progress:
  "read_bounded_line maxi line cs = (Ok (Some l), cs') \<Longrightarrow> stream_bytes cs' < stream_bytes cs"
proof (induction maxi line cs arbitrary: l cs' rule: read_bounded_line.induct)
  case (1 maxi line cs)
  obtain r ds where fill: "fill_buf cs = (r, ds)"
    by fastforce
  show ?case
    using 1 fill fill_buf_cases[OF fill]
    by (subst (asm) (2) read_bounded_line.simps)
       (fastforce simp: Let_def stream_bytes_consume split: sum.splits if_splits option.splits dest: position_bounds)
qed

subsection \<open>Frames\<close>

definition parse_byte_length :: "json_value \<Rightarrow> nat \<Rightarrow> ReceiverError + nat" where
  "parse_byte_length meta maxi =
     bindR (ok_or InvalidByteLength (Option.bind (value_get meta ''byteLength'') as_u64)) (\<lambda>req.
     if unat req > maxi then Err (DataChunkTooLarge req maxi)
     else Ok (unat req))"

definition schema_version_ok :: "(string \<times> json_value) list \<Rightarrow> bool" where
  "schema_version_ok object \<longleftrightarrow>
     (case Option.bind (map_of object ''schemaVersion'') as_str of
        None \<Rightarrow> False
      | Some v \<Rightarrow> trim v \<noteq> [] \<and> length v \<le> 128)"

definition admit_metadata :: "(bytes \<Rightarrow> json_value option) \<Rightarrow> ReceiverLimits \<Rightarrow> bytes \<Rightarrow> ReceiverError + json_value" where
  "admit_metadata from_slice limits line =
     bindR (ok_or InvalidMetadata (from_slice line)) (\<lambda>meta.
     bindR (ok_or InvalidMetadata (as_object meta)) (\<lambda>object.
     if \<not> schema_version_ok object then Err MissingSchemaVersion
     else
       bindR (parse_byte_length meta (max_data_chunk_bytes limits)) (\<lambda>_.
       Ok meta)))"

definition receive_metadata ::
  "(bytes \<Rightarrow> json_value option) \<Rightarrow> ReceiverLimits \<Rightarrow> stream \<Rightarrow> (ReceiverError + json_value option) \<times> stream" where
  "receive_metadata from_slice limits ms =
     (case read_bounded_line (max_metadata_line_bytes limits) [] ms of
        (Err e, ms') \<Rightarrow> (Err e, ms')
      | (Ok None, ms') \<Rightarrow> (Ok None, ms')
      | (Ok (Some line), ms') \<Rightarrow> (bindR (admit_metadata from_slice limits line) (\<lambda>meta. Ok (Some meta)), ms'))"

text \<open>The reading loop: \<open>acc\<close> is the part of the buffer that is filled.\<close>

function read_chunk :: "nat \<Rightarrow> bytes \<Rightarrow> stream \<Rightarrow> (ReceiverError + bytes) \<times> stream" where
  "read_chunk byte_length acc ds =
     (if length acc < byte_length
      then (case stream_read (byte_length - length acc) ds of
              (Err k, ds') \<Rightarrow> (Err (ReceiverIo k), ds')
            | (Ok b, ds') \<Rightarrow>
                if b = [] then (Err (TruncatedData byte_length (length acc)), ds')
                else read_chunk byte_length (acc @ b) ds')
      else (Ok acc, ds))"
  by pat_completeness auto
termination
  by (relation "measure (\<lambda>(n, acc, ds). n - length acc)") (auto intro!: diff_less_mono2)

declare read_chunk.simps [simp del]

definition receive_data :: "ReceiverLimits \<Rightarrow> stream \<Rightarrow> json_value \<Rightarrow> (ReceiverError + bytes) \<times> stream" where
  "receive_data limits ds meta =
     (case parse_byte_length meta (max_data_chunk_bytes limits) of
        Err e \<Rightarrow> (Err e, ds)
      | Ok byte_length \<Rightarrow> read_chunk byte_length [] ds)"

definition receive_one ::
  "(bytes \<Rightarrow> json_value option) \<Rightarrow> ReceiverLimits \<Rightarrow> stream \<times> stream
     \<Rightarrow> (ReceiverError + ReceiverFrame option) \<times> stream \<times> stream" where
  "receive_one from_slice limits s =
     (case receive_metadata from_slice limits (fst s) of
        (Err e, ms') \<Rightarrow> (Err e, ms', snd s)
      | (Ok None, ms') \<Rightarrow> (Ok None, ms', snd s)
      | (Ok (Some meta), ms') \<Rightarrow>
          (case receive_data limits (snd s) meta of
             (Err e, ds') \<Rightarrow> (Err e, ms', ds')
           | (Ok b, ds') \<Rightarrow> (Ok (Some \<lparr>metadata = meta, data = b\<rparr>), ms', ds')))"

lemma receive_one_progress:
  "receive_one from_slice limits s = (Ok (Some f), s') \<Longrightarrow> stream_bytes (fst s') < stream_bytes (fst s)"
  by (auto simp: receive_one_def receive_metadata_def split: prod.splits sum.splits option.splits
      dest: read_bounded_line_progress)

text \<open>The sink is a function of its state; the fold stops at the first error of the receiver or of the sink.\<close>

function receive_all ::
  "(bytes \<Rightarrow> json_value option) \<Rightarrow> ReceiverLimits \<Rightarrow> (ReceiverFrame \<Rightarrow> 's \<Rightarrow> (ReceiverError + unit) \<times> 's)
     \<Rightarrow> u64 \<Rightarrow> 's \<Rightarrow> stream \<times> stream \<Rightarrow> (ReceiverError + u64) \<times> 's" where
  "receive_all from_slice limits sink count x s =
     (case receive_one from_slice limits s of
        (Err e, s') \<Rightarrow> (Err e, x)
      | (Ok None, s') \<Rightarrow> (Ok count, x)
      | (Ok (Some frame), s') \<Rightarrow>
          (case sink frame x of
             (Err e, x') \<Rightarrow> (Err e, x')
           | (Ok _, x') \<Rightarrow> receive_all from_slice limits sink (saturating_add count 1) x' s'))"
  by pat_completeness auto
termination
  by (relation "measure (\<lambda>(from_slice, limits, sink, count, x, s). stream_bytes (fst s))")
    (auto dest!: receive_one_progress sym[of "(_, _)"])

declare receive_all.simps [simp del]

subsection \<open>Chunks do not matter\<close>

definition flat_line :: "nat \<Rightarrow> bytes \<times> io_kind option \<Rightarrow> ReceiverError + (bytes \<times> bytes) option" where
  "flat_line maxi bf =
     (case position (\<lambda>b. b = newline) (fst bf) of
        Some i \<Rightarrow>
          if i + 1 > maxi then Err MetadataTooLarge
          else Ok (Some (strip_line_end (take (i + 1) (fst bf)), drop (i + 1) (fst bf)))
      | None \<Rightarrow>
          if length (fst bf) > maxi then Err MetadataTooLarge
          else (case snd bf of
                  Some k \<Rightarrow> Err (ReceiverIo k)
                | None \<Rightarrow> if fst bf = [] then Ok None else Err TruncatedMetadata))"

lemma read_bounded_line_flat:
  assumes "position (\<lambda>b. b = newline) line = None" and "length line \<le> maxi"
    and "read_bounded_line maxi line cs = (r, cs')"
  shows "case flat_line maxi (line @ fst (flat cs), snd (flat cs)) of
      Err e \<Rightarrow> r = Err e
    | Ok None \<Rightarrow> r = Ok None
    | Ok (Some (l, rest)) \<Rightarrow> r = Ok (Some l) \<and> flat cs' = (rest, snd (flat cs))"
  using assms
proof (induction "stream_bytes cs" arbitrary: line cs rule: less_induct)
  case less
  obtain a ds where fill: "fill_buf cs = (a, ds)"
    by fastforce
  note flat = fill_buf_flat[OF fill] and step = read_bounded_line.simps[of maxi line cs]
  show ?case
  proof (cases "a \<in> {Ok []} \<union> range Inl")
    case True
    then show ?thesis
      using less.prems fill flat step by (auto simp: flat_line_def)
  next
    case False
    then obtain b es where b: "a = Ok b" "b \<noteq> []" "ds = Ok b # es"
        and cs: "flat cs = (b @ fst (flat es), snd (flat es))" "stream_bytes cs = length b + stream_bytes es"
      using flat by (cases a) auto
    show ?thesis
    proof (cases "position (\<lambda>b. b = newline) b")
      case (Some i)
      then show ?thesis
        using less.prems fill b cs position_bounds[OF Some]
        by (auto simp: step flat_line_def position_append Let_def flat_consume simp del: consume.simps)
    next
      case None
      show ?thesis
      proof (cases "length line + length b > maxi")
        case True
        then show ?thesis
          using less.prems fill b cs None
          by (auto simp: step flat_line_def position_append split: option.splits)
      next
        case False
        then have "read_bounded_line maxi (line @ b) es = (r, cs')"
          using less.prems(3) fill b None by (simp add: step Let_def)
        with less.hyps[of es "line @ b"] less.prems(1) False b cs None show ?thesis
          by (auto simp: position_append split: sum.splits option.splits)
      qed
    qed
  qed
qed

definition flat_chunk :: "nat \<Rightarrow> bytes \<times> io_kind option \<Rightarrow> ReceiverError + bytes \<times> bytes" where
  "flat_chunk n bf =
     (if n \<le> length (fst bf) then Ok (take n (fst bf), drop n (fst bf))
      else (case snd bf of Some k \<Rightarrow> Err (ReceiverIo k) | None \<Rightarrow> Err (TruncatedData n (length (fst bf)))))"

lemma read_chunk_flat:
  assumes "read_chunk n acc ds = (r, ds')" and "length acc \<le> n"
  shows "case flat_chunk n (acc @ fst (flat ds), snd (flat ds)) of
      Err e \<Rightarrow> r = Err e
    | Ok (b, rest) \<Rightarrow> r = Ok b \<and> flat ds' = (rest, snd (flat ds))"
  using assms
proof (induction n acc ds rule: read_chunk.induct)
  case (1 n acc ds)
  note step = read_chunk.simps[of n acc ds]
  show ?case
  proof (cases "length acc < n")
    case True
    obtain a es where read: "stream_read (n - length acc) ds = (a, es)"
      by fastforce
    note flat = stream_read_flat[OF read]
    show ?thesis
    proof (cases "a \<in> {Ok []} \<union> range Inl")
      case False
      then obtain b where b: "a = Ok b" "b \<noteq> []"
        by (cases a) auto
      then have "read_chunk n (acc @ b) es = (r, ds')"
        using 1(2) True read by (simp add: step)
      moreover have "flat ds = (b @ fst (flat es), snd (flat es))" "length (acc @ b) \<le> n"
        using flat b True by auto
      ultimately show ?thesis
        using "1.IH"[OF True read[symmetric] b] by (auto split: sum.splits)
    qed (use 1(2) True read flat step in \<open>auto simp: flat_chunk_def\<close>)
  qed (use 1 step in \<open>simp add: flat_chunk_def\<close>)
qed

lemma read_chunk_ErrD: "read_chunk n [] ds = (Err e, ds') \<Longrightarrow> flat_chunk n (flat ds) = Err e"
  and read_chunk_OkD: "read_chunk n [] ds = (Ok b, ds') \<Longrightarrow>
    flat_chunk n (flat ds) = Ok (b, fst (flat ds')) \<and> snd (flat ds') = snd (flat ds)"
  using read_chunk_flat[of n "[]" ds] by (fastforce split: sum.splits prod.splits)+

lemma read_line_ErrD: "read_bounded_line n [] ms = (Err e, ms') \<Longrightarrow> flat_line n (flat ms) = Err e"
  and read_line_NoneD: "read_bounded_line n [] ms = (Ok None, ms') \<Longrightarrow> flat_line n (flat ms) = Ok None"
  and read_line_SomeD: "read_bounded_line n [] ms = (Ok (Some l), ms') \<Longrightarrow>
    flat_line n (flat ms) = Ok (Some (l, fst (flat ms'))) \<and> snd (flat ms') = snd (flat ms)"
  using read_bounded_line_flat[of "[]" n ms]
  by (fastforce simp: position_def split: sum.splits option.splits prod.splits)+

definition flat_one ::
  "(bytes \<Rightarrow> json_value option) \<Rightarrow> ReceiverLimits \<Rightarrow> bytes \<times> io_kind option \<Rightarrow> bytes \<times> io_kind option
     \<Rightarrow> ReceiverError + (ReceiverFrame \<times> bytes \<times> bytes) option" where
  "flat_one from_slice limits mf df =
     bindR (flat_line (max_metadata_line_bytes limits) mf) (\<lambda>l.
     case l of
       None \<Rightarrow> Ok None
     | Some (line, mrest) \<Rightarrow>
         bindR (admit_metadata from_slice limits line) (\<lambda>meta.
         bindR (parse_byte_length meta (max_data_chunk_bytes limits)) (\<lambda>n.
         bindR (flat_chunk n df) (\<lambda>(b, drest).
         Ok (Some (\<lparr>metadata = meta, data = b\<rparr>, mrest, drest))))))"

lemma receive_one_flat:
  assumes "receive_one from_slice limits s = (r, s')"
  shows "case flat_one from_slice limits (flat (fst s)) (flat (snd s)) of
      Err e \<Rightarrow> r = Err e
    | Ok None \<Rightarrow> r = Ok None
    | Ok (Some (f, mrest, drest)) \<Rightarrow> r = Ok (Some f) \<and> flat (fst s') = (mrest, snd (flat (fst s)))
        \<and> flat (snd s') = (drest, snd (flat (snd s)))"
  using assms
  by (auto simp: receive_one_def receive_metadata_def receive_data_def flat_one_def bindR_def
      split: sum.splits option.splits prod.splits
      dest!: read_chunk_ErrD read_chunk_OkD read_line_ErrD read_line_NoneD read_line_SomeD intro!: prod_eqI)

text \<open>The frames of the streams, as the sink sees them, and how the fold over them ends.\<close>

lemma receive_all_flat:
  assumes "flat (fst s) = flat (fst t)" and "flat (snd s) = flat (snd t)"
  shows "receive_all from_slice limits sink count x s = receive_all from_slice limits sink count x t"
  using assms
proof (induction from_slice limits sink count x s arbitrary: t rule: receive_all.induct)
  case (1 from_slice limits sink count x s)
  obtain a s' where s: "receive_one from_slice limits s = (a, s')"
    by (cases "receive_one from_slice limits s")
  obtain b t' where t: "receive_one from_slice limits t = (b, t')"
    by (cases "receive_one from_slice limits t")
  have same: "a = b" "\<And>f. a = Ok (Some f) \<Longrightarrow> flat (fst s') = flat (fst t') \<and> flat (snd s') = flat (snd t')"
    using receive_one_flat[OF s] receive_one_flat[OF t] 1(2,3) by (auto split: sum.splits option.splits prod.splits)
  show ?case
  proof (cases "\<exists>f y. a = Ok (Some f) \<and> sink f x = (Ok (), y)")
    case True
    then obtain f y where f: "a = Ok (Some f)" "sink f x = (Ok (), y)"
      by blast
    then show ?thesis
      using 1(1)[OF s[symmetric] f(1) refl f(2)[symmetric] refl, of t'] same s t
      by (simp add: receive_all.simps[of from_slice limits sink count x])
  qed (use s t same in \<open>auto simp: receive_all.simps[of from_slice limits sink count x]
      split: sum.splits option.splits prod.splits\<close>)
qed

text \<open>
  The receiver does not depend on how the streams are cut. Two pairs of streams that deliver the same
  bytes and end the same way, in whatever chunks, give the sink the same frames in the same order and the same
  count or the same error, for every sink, every JSON parser and all limits.
\<close>

theorem frames_do_not_depend_on_chunks:
  "(delivered ms, failure ms) = (delivered ms', failure ms') \<and> (delivered ds, failure ds) = (delivered ds', failure ds') \<longrightarrow>
     receive_all from_slice limits sink count x (ms, ds) = receive_all from_slice limits sink count x (ms', ds')"
  by (auto simp: flat_def intro!: receive_all_flat)

theorem frames_do_not_depend_on_chunks_witness:
  "receive_all (\<lambda>_. None) ReceiverLimits_default (\<lambda>f (n :: nat). (Ok (), Suc n)) 0 0 ([Ok ''{'', Ok [newline]], [])
     = receive_all (\<lambda>_. None) ReceiverLimits_default (\<lambda>f (n :: nat). (Ok (), Suc n)) 0 0 ([Ok ''{\<newline>''], [Ok []])"
  using frames_do_not_depend_on_chunks[of "[Ok ''{'', Ok [newline]]" "[Ok ''{\<newline>'']" "[]" "[Ok []]"] by simp

subsection \<open>What a sender frames is what the sink gets\<close>

text \<open>
  A frame and the metadata line that announces it: the line has no line break and fits the bound with its
  line feed, the parser reads it as the metadata of the frame, which passes admission and announces the length of
  the data.
\<close>

definition framed :: "(bytes \<Rightarrow> json_value option) \<Rightarrow> ReceiverLimits \<Rightarrow> bytes \<Rightarrow> ReceiverFrame \<Rightarrow> bool" where
  "framed from_slice limits line f \<longleftrightarrow> newline \<notin> set line \<and> carriage_return \<notin> set line
     \<and> length line < max_metadata_line_bytes limits \<and> admit_metadata from_slice limits line = Ok (metadata f)
     \<and> parse_byte_length (metadata f) (max_data_chunk_bytes limits) = Ok (length (data f))"

fun feed :: "(ReceiverFrame \<Rightarrow> 's \<Rightarrow> (ReceiverError + unit) \<times> 's) \<Rightarrow> u64 \<Rightarrow> 's \<Rightarrow> ReceiverFrame list
    \<Rightarrow> (ReceiverError + u64) \<times> 's" where
  "feed sink count x [] = (Ok count, x)"
| "feed sink count x (f # fs) =
     (case sink f x of
        (Err e, x') \<Rightarrow> (Err e, x')
      | (Ok _, x') \<Rightarrow> feed sink (saturating_add count 1) x' fs)"

lemma strip_line_end_line: "newline \<notin> set l \<Longrightarrow> carriage_return \<notin> set l \<Longrightarrow> strip_line_end (l @ [newline]) = l"
  by (cases l rule: rev_cases) (auto simp: strip_line_end_def)

lemma position_newline: "newline \<notin> set l \<Longrightarrow> position (\<lambda>b. b = newline) (l @ newline # r) = Some (length l)"
  by (induction l) (auto simp: position_def)

lemma flat_line_line:
  assumes "newline \<notin> set l" and "carriage_return \<notin> set l" and "length l < n"
  shows "flat_line n (l @ newline # r, f) = Ok (Some (l, r))"
  using assms strip_line_end_line[OF assms(1,2)] by (simp add: flat_line_def position_newline)

lemma flat_one_framed:
  assumes "framed from_slice limits l f"
  shows "flat_one from_slice limits (l @ newline # mr, e) (data f @ dr, e') = Ok (Some (f, mr, dr))"
  using assms by (simp add: framed_def flat_one_def flat_line_line flat_chunk_def)

lemma flat_one_end: "flat_one from_slice limits ([], None) df = Ok None"
  by (simp add: flat_one_def flat_line_def position_def)

lemma receive_all_frames:
  assumes "list_all2 (framed from_slice limits) ls fs"
    and "flat (fst s) = (concat (map (\<lambda>l. l @ [newline]) ls), None)" and "fst (flat (snd s)) = concat (map data fs) @ extra"
  shows "receive_all from_slice limits sink count x s = feed sink count x fs"
  using assms
proof (induction ls fs arbitrary: s count x rule: list_all2_induct)
  case Nil
  then obtain s' where "receive_one from_slice limits s = (Ok None, s')"
    using receive_one_flat[of from_slice limits s] flat_one_end[of from_slice limits]
    by (cases "receive_one from_slice limits s") (auto split: sum.splits option.splits)
  then show ?case
    by (simp add: receive_all.simps[of from_slice limits sink count x s])
next
  case (Cons l ls f fs)
  have "flat_one from_slice limits (flat (fst s)) (flat (snd s)) =
      Ok (Some (f, concat (map (\<lambda>l. l @ [newline]) ls), concat (map data fs) @ extra))"
    using flat_one_framed[OF Cons(1), of "concat (map (\<lambda>l. l @ [newline]) ls)" None "concat (map data fs) @ extra"
        "snd (flat (snd s))"] Cons(4,5) by (cases "flat (snd s)") simp
  then obtain s' where s': "receive_one from_slice limits s = (Ok (Some f), s')"
      "flat (fst s') = (concat (map (\<lambda>l. l @ [newline]) ls), None)" "fst (flat (snd s')) = concat (map data fs) @ extra"
    using receive_one_flat[of from_slice limits s] Cons(4) by (cases "receive_one from_slice limits s") auto
  show ?case
    using s'(1) Cons(3)[OF s'(2,3)]
    by (simp add: receive_all.simps[of from_slice limits sink count x s] split: sum.splits prod.splits)
qed

text \<open>
  C25: Framing round trip. When the metadata stream delivers the lines of a list of frames, each with its line feed,
  and then ends, and the data stream delivers at least the concatenated data, in whatever chunks, then the
  sink gets exactly these frames in this order, until it refuses one, and the count of the accepted frames is
  returned. Bytes after the announced ones are left alone.
\<close>

theorem framed_streams_reach_the_sink:
  assumes "list_all2 (framed from_slice limits) ls fs"
    and "delivered ms = concat (map (\<lambda>l. l @ [newline]) ls)" and "failure ms = None"
    and "delivered ds = concat (map data fs) @ extra"
  shows "receive_all from_slice limits sink count x (ms, ds) = feed sink count x fs"
  using receive_all_frames[of from_slice limits ls fs "(ms, ds)" extra] assms by (simp add: flat_def)

definition sample_metadata :: "u64 \<Rightarrow> json_value" where
  "sample_metadata n = JObject [(''schemaVersion'', JString ''v1''), (''byteLength'', JPosInt n)]"

definition sample_parser :: "bytes \<Rightarrow> json_value option" where
  "sample_parser l = (if l = ''five'' then Some (sample_metadata 5) else if l = ''four'' then Some (sample_metadata 4) else None)"

lemma sample_framed:
  "framed sample_parser ReceiverLimits_default ''five'' \<lparr>metadata = sample_metadata 5, data = ''hello''\<rparr>"
  "framed sample_parser ReceiverLimits_default ''four'' \<lparr>metadata = sample_metadata 4, data = ''Rust''\<rparr>"
  by (simp_all add: framed_def sample_parser_def sample_metadata_def admit_metadata_def parse_byte_length_def
      schema_version_ok_def ReceiverLimits_default_def DEFAULT_MAX_METADATA_LINE_BYTES_def DEFAULT_MAX_DATA_CHUNK_BYTES_def
      ok_or_def trim_word is_ascii_graphic_def byte_in_def)

theorem framed_streams_reach_the_sink_witness:
  "receive_all sample_parser ReceiverLimits_default (\<lambda>f fs. (Ok (), fs @ [data f])) 0 []
     ([Ok ''fi'', Ok ''ve\<newline>four\<newline>''], [Ok ''hel'', Ok ''loRu'', Ok ''st-tail'']) = (Ok 2, [''hello'', ''Rust''])"
  using framed_streams_reach_the_sink[where from_slice = sample_parser and limits = ReceiverLimits_default
      and ls = "[''five'', ''four'']" and extra = "''-tail''"
      and fs = "[\<lparr>metadata = sample_metadata 5, data = ''hello''\<rparr>, \<lparr>metadata = sample_metadata 4, data = ''Rust''\<rparr>]"
      and ms = "[Ok ''fi'', Ok ''ve\<newline>four\<newline>'']" and ds = "[Ok ''hel'', Ok ''loRu'', Ok ''st-tail'']"
      and sink = "\<lambda>f fs. (Ok (), fs @ [data f])" and count = 0 and x = "[]"] sample_framed
  by (simp add: saturating_add_def)

text \<open>
  C26: Metadata that is not admitted does not touch the data stream, and no frame exceeds its bounds. Whatever error
  a receive reports before it reads data (framing, JSON, schema version, byte length), the data stream is
  unchanged; a frame that is returned has admitted metadata, exactly the announced number of bytes and at
  most the configured maximum, and the stream has lost exactly these bytes.
\<close>

theorem frames_are_bounded_and_rejections_read_no_data:
  "case receive_one from_slice limits s of
     (Err e, s') \<Rightarrow> snd s' = snd s \<or> (\<exists>n m. e = TruncatedData n m) \<or> (\<exists>k. e = ReceiverIo k)
   | (Ok None, s') \<Rightarrow> snd s' = snd s
   | (Ok (Some f), s') \<Rightarrow> (\<exists>n. value_get (metadata f) ''byteLength'' = Some (JPosInt n) \<and> length (data f) = unat n)
        \<and> length (data f) \<le> max_data_chunk_bytes limits \<and> delivered (snd s) = data f @ delivered (snd s')"
proof -
  obtain r s' where one: "receive_one from_slice limits s = (r, s')"
    by (cases "receive_one from_slice limits s")
  have chunk_err: "(\<exists>n m. e = TruncatedData n m) \<or> (\<exists>k. e = ReceiverIo k)"
    if "read_chunk n [] (snd s) = (Err e, ds)" for n e ds
    using read_chunk_ErrD[OF that] by (auto simp: flat_chunk_def split: if_splits option.splits)
  have chunk_ok: "length b = n \<and> delivered (snd s) = b @ delivered ds" if "read_chunk n [] (snd s) = (Ok b, ds)" for n b ds
    using read_chunk_OkD[OF that]
    by (auto simp: flat_chunk_def flat_def split: if_splits option.splits) (metis append_take_drop_id)
  have len: "parse_byte_length m k = Ok n \<Longrightarrow> n \<le> k \<and> (\<exists>w. value_get m ''byteLength'' = Some (JPosInt w) \<and> n = unat w)" for m k n
    by (auto simp: parse_byte_length_def bindR_Ok_iff ok_or_def split: option.splits if_splits
        elim!: as_u64.elims Option.bind_eq_Some_conv[THEN iffD1, elim_format])
  show ?thesis
    using one
    by (auto simp: receive_one_def receive_data_def split: sum.splits option.splits prod.splits
        dest!: len dest: chunk_err chunk_ok)
qed

end
