(* ===== verification/Sidecar_Apm.thy ===== *)
theory Sidecar_Apm
  imports Rust_Path "HOL-Library.List_Lexorder" "HOL-Library.Char_ord" "HOL-Library.Product_Lexorder" "HOL-Library.Multiset"
begin

section \<open>Resource metrics\<close>

text \<open>
  \<open>src/src/apm.rs\<close>: the snapshot of the process and its file systems, and its rendering as Prometheus text.
  What \<open>sysinfo\<close> reports is the record \<open>system_sample\<close>. Floating-point numbers keep an abstract type with the
  operations of \<open>f64\<close> that the code uses in the record \<open>f64_ops\<close>; no theorem depends on their rounding.

  The theorems say that a label can be read back from the text whatever the name of the service, and that the
  snapshot holds consistent sizes under logical names, in the order of the mount points.
\<close>

subsection \<open>The order of paths\<close>

text \<open>\<open>Path::cmp\<close> compares components, with the order that \<open>Component\<close> derives from its variants.\<close>

fun component_key :: "path_component \<Rightarrow> nat \<times> string" where
  "component_key RootDir = (1, [])"
| "component_key CurDir = (2, [])"
| "component_key ParentDir = (3, [])"
| "component_key (Normal n) = (4, n)"

lemma component_key_inject [simp]: "component_key c = component_key d \<longleftrightarrow> c = d"
  by (cases c; cases d) simp_all

instantiation path_component :: linorder
begin

definition less_eq_path_component :: "path_component \<Rightarrow> path_component \<Rightarrow> bool" where
  "less_eq_path_component c d \<longleftrightarrow> component_key c \<le> component_key d"

definition less_path_component :: "path_component \<Rightarrow> path_component \<Rightarrow> bool" where
  "less_path_component c d \<longleftrightarrow> component_key c < component_key d"

instance
proof
  fix c d :: path_component
  assume "c \<le> d" and "d \<le> c"
  then show "c = d"
    unfolding less_eq_path_component_def by (metis component_key_inject order_antisym)
qed (auto simp: less_eq_path_component_def less_path_component_def less_le)

end

subsection \<open>Snapshots\<close>

record 'f f64_ops =
  f64_of_u64 :: "u64 \<Rightarrow> 'f"
  f64_of_u8 :: "u8 \<Rightarrow> 'f"
  f64_of_f32 :: "'f \<Rightarrow> 'f"
  f64_div :: "'f \<Rightarrow> 'f \<Rightarrow> 'f"
  f64_clamp_unit :: "'f \<Rightarrow> 'f"
  f64_zero :: 'f
  f64_show :: "'f \<Rightarrow> string"

record 'f ProcessResourceSnapshot =
  cpu_time_seconds :: 'f
  cpu_utilization_ratio :: "'f option"
  cpu_sample_warmed :: bool
  memory_usage_bytes :: u64
  memory_virtual_bytes :: u64
  disk_read_bytes :: u64
  disk_write_bytes :: u64
  uptime_seconds :: u64

record 'f FilesystemResourceSnapshot =
  fs_target :: string
  total_bytes :: u64
  used_bytes :: u64
  available_bytes :: u64
  utilization_ratio :: 'f
  fs_read_only :: bool

record 'f ResourceSnapshot =
  snap_process :: "'f ProcessResourceSnapshot"
  filesystems :: "'f FilesystemResourceSnapshot list"

record 'f process_sample =
  ps_cpu_usage :: 'f
  ps_accumulated_cpu_time :: u64
  ps_memory :: u64
  ps_virtual_memory :: u64
  ps_total_read_bytes :: u64
  ps_total_written_bytes :: u64
  ps_run_time :: u64

record disk_sample =
  mount_point :: string
  total_space :: u64
  available_space :: u64
  disk_read_only :: bool

record 'f system_sample =
  sample_process :: "'f process_sample option"
  sample_disks :: "disk_sample list"

record ResourceCollector =
  warmed :: bool
  logical_cpus :: u64

text \<open>The platform is supported or not; the process may fail to find its own id or its parallelism.\<close>

definition ResourceCollector_new :: "bool \<Rightarrow> bool \<Rightarrow> u64 option \<Rightarrow> ResourceCollector option" where
  "ResourceCollector_new is_supported_system has_current_pid available_parallelism =
     (if \<not> is_supported_system \<or> \<not> has_current_pid then None
      else Some \<lparr>warmed = False, logical_cpus = max (case available_parallelism of Some n \<Rightarrow> n | None \<Rightarrow> 1) 1\<rparr>)"

definition saturating_sub :: "u64 \<Rightarrow> u64 \<Rightarrow> u64" where
  "saturating_sub a b = (if b \<le> a then a - b else 0)"

definition filesystem_snapshot :: "'f f64_ops \<Rightarrow> nat \<Rightarrow> disk_sample \<Rightarrow> 'f FilesystemResourceSnapshot" where
  "filesystem_snapshot F index disk =
     (let total = total_space disk;
          available = min (available_space disk) total;
          used = saturating_sub total available in
      \<lparr>fs_target = ''fs'' @ show_nat index, total_bytes = total, used_bytes = used, available_bytes = available,
       utilization_ratio =
         (if total = 0 then f64_zero F
          else f64_clamp_unit F (f64_div F (f64_of_u64 F used) (f64_of_u64 F total))),
       fs_read_only = disk_read_only disk\<rparr>)"

definition collect ::
  "'f f64_ops \<Rightarrow> 'f system_sample \<Rightarrow> ResourceCollector \<Rightarrow> 'f ResourceSnapshot option \<times> ResourceCollector" where
  "collect F sys c =
     (case sample_process sys of
        None \<Rightarrow> (None, c)
      | Some p \<Rightarrow>
          let was_warmed = warmed c;
              cpu_ratio =
                (if was_warmed
                 then Some (f64_clamp_unit F (f64_div F (f64_div F (f64_of_f32 F (ps_cpu_usage p)) (f64_of_u64 F 100))
                        (f64_of_u64 F (logical_cpus c))))
                 else None);
              disks = sort_key (\<lambda>d. components (mount_point d)) (sample_disks sys) in
          (Some \<lparr>snap_process =
                   \<lparr>cpu_time_seconds = f64_div F (f64_of_u64 F (ps_accumulated_cpu_time p)) (f64_of_u64 F 1000),
                    cpu_utilization_ratio = cpu_ratio, cpu_sample_warmed = was_warmed,
                    memory_usage_bytes = ps_memory p, memory_virtual_bytes = ps_virtual_memory p,
                    disk_read_bytes = ps_total_read_bytes p, disk_write_bytes = ps_total_written_bytes p,
                    uptime_seconds = ps_run_time p\<rparr>,
                 filesystems = map (\<lambda>(i, d). filesystem_snapshot F i d) (enumerate 0 disks)\<rparr>,
           c\<lparr>warmed := True\<rparr>))"

subsection \<open>Rendering\<close>

definition replace_byte :: "char \<Rightarrow> string \<Rightarrow> string \<Rightarrow> string" where
  "replace_byte c r s = concat (map (\<lambda>x. if x = c then r else [x]) s)"

definition escape_label :: "string \<Rightarrow> string" where
  "escape_label s =
     replace_byte (CHR 0x0A) [CHR 0x5C, CHR ''n'']
       (replace_byte (CHR 0x22) [CHR 0x5C, CHR 0x22]
         (replace_byte (CHR 0x5C) [CHR 0x5C, CHR 0x5C] s))"

definition text_line :: "string \<Rightarrow> string" where
  "text_line s = s @ [CHR 0x0A]"

definition quoted :: "string \<Rightarrow> string" where
  "quoted s = CHR 0x22 # s @ [CHR 0x22]"

definition push_u64_metric :: "string \<Rightarrow> string \<Rightarrow> string \<Rightarrow> string \<Rightarrow> u64 \<Rightarrow> string \<Rightarrow> string" where
  "push_u64_metric name help kind service val out =
     out @ text_line (''# HELP '' @ name @ '' '' @ help)
         @ text_line (''# TYPE '' @ name @ '' '' @ kind)
         @ text_line (name @ ''{service='' @ quoted service @ ''} '' @ show_nat (unat val))"

definition push_filesystem_metric ::
  "'f f64_ops \<Rightarrow> string \<Rightarrow> string \<Rightarrow> string \<Rightarrow> string \<Rightarrow> 'f \<Rightarrow> string \<Rightarrow> string" where
  "push_filesystem_metric F name help service target val out =
     out @ text_line (''# HELP '' @ name @ '' '' @ help)
         @ text_line (''# TYPE '' @ name @ '' gauge'')
         @ text_line (name @ ''{service='' @ quoted service @ '',target='' @ quoted target @ ''} '' @ f64_show F val)"

definition bool_u8 :: "bool \<Rightarrow> u8" where
  "bool_u8 b = (if b then 1 else 0)"

definition render_process :: "'f f64_ops \<Rightarrow> string \<Rightarrow> 'f ProcessResourceSnapshot \<Rightarrow> string" where
  "render_process F service p =
     (let out =
        text_line ''# HELP ores_otel_resource_collector_supported Whether portable process/filesystem collection is supported.''
        @ text_line ''# TYPE ores_otel_resource_collector_supported gauge''
        @ text_line ''ores_otel_resource_collector_supported 1''
        @ text_line ''# HELP ores_otel_process_cpu_time_seconds Total accumulated process CPU time.''
        @ text_line ''# TYPE ores_otel_process_cpu_time_seconds counter''
        @ text_line (''ores_otel_process_cpu_time_seconds{service='' @ quoted service @ ''} '' @ f64_show F (cpu_time_seconds p))
        @ text_line ''# HELP ores_otel_process_cpu_sample_warmed Whether process CPU utilization has a prior sample.''
        @ text_line ''# TYPE ores_otel_process_cpu_sample_warmed gauge''
        @ text_line (''ores_otel_process_cpu_sample_warmed{service='' @ quoted service @ ''} ''
            @ show_nat (unat (bool_u8 (cpu_sample_warmed p))))
        @ (case cpu_utilization_ratio p of
             None \<Rightarrow> []
           | Some cpu \<Rightarrow>
               text_line ''# HELP ores_otel_process_cpu_utilization_ratio Process CPU utilization normalized to logical CPU capacity.''
               @ text_line ''# TYPE ores_otel_process_cpu_utilization_ratio gauge''
               @ text_line (''ores_otel_process_cpu_utilization_ratio{service='' @ quoted service @ ''} '' @ f64_show F cpu));
      out = push_u64_metric ''ores_otel_process_memory_usage_bytes'' ''Resident process memory usage in bytes.''
              ''gauge'' service (memory_usage_bytes p) out;
      out = push_u64_metric ''ores_otel_process_memory_virtual_bytes'' ''Virtual process memory usage in bytes.''
              ''gauge'' service (memory_virtual_bytes p) out;
      out = push_u64_metric ''ores_otel_process_disk_read_bytes_total''
              ''Cumulative bytes read by the process. On Windows this may include non-disk I/O.''
              ''counter'' service (disk_read_bytes p) out;
      out = push_u64_metric ''ores_otel_process_disk_write_bytes_total''
              ''Cumulative bytes written by the process. On Windows this may include non-disk I/O.''
              ''counter'' service (disk_write_bytes p) out
      in push_u64_metric ''ores_otel_process_uptime_seconds'' ''Process uptime in seconds.''
              ''gauge'' service (uptime_seconds p) out)"

definition render_filesystem :: "'f f64_ops \<Rightarrow> string \<Rightarrow> 'f FilesystemResourceSnapshot \<Rightarrow> string \<Rightarrow> string" where
  "render_filesystem F service fsn out =
     (let target = escape_label (fs_target fsn);
          out = push_filesystem_metric F ''ores_otel_filesystem_total_bytes'' ''Filesystem total capacity in bytes.''
                  service target (f64_of_u64 F (total_bytes fsn)) out;
          out = push_filesystem_metric F ''ores_otel_filesystem_used_bytes'' ''Filesystem used capacity in bytes.''
                  service target (f64_of_u64 F (used_bytes fsn)) out;
          out = push_filesystem_metric F ''ores_otel_filesystem_available_bytes''
                  ''Filesystem space available to the current process in bytes.''
                  service target (f64_of_u64 F (available_bytes fsn)) out;
          out = push_filesystem_metric F ''ores_otel_filesystem_utilization_ratio'' ''Filesystem utilization ratio.''
                  service target (utilization_ratio fsn) out
      in push_filesystem_metric F ''ores_otel_filesystem_read_only'' ''Whether the filesystem is read-only.''
                  service target (f64_of_u8 F (bool_u8 (fs_read_only fsn))) out)"

definition render_prometheus :: "'f f64_ops \<Rightarrow> string \<Rightarrow> 'f ResourceSnapshot \<Rightarrow> string" where
  "render_prometheus F service snapshot =
     (let service = escape_label service in
      fold (render_filesystem F service) (filesystems snapshot) (render_process F service (snap_process snapshot)))"

definition unsupported_metrics :: string where
  "unsupported_metrics =
     text_line ''# HELP ores_otel_resource_collector_supported Whether portable process/filesystem collection is supported.''
     @ text_line ''# TYPE ores_otel_resource_collector_supported gauge''
     @ text_line ''ores_otel_resource_collector_supported 0''"

text \<open>
  The lazily created collector behind its mutex: \<open>None\<close> inside when the platform is not supported. The
  function returns the text and the collector after the scrape.
\<close>

definition prometheus_text ::
  "'f f64_ops \<Rightarrow> 'f system_sample \<Rightarrow> bool \<Rightarrow> ResourceCollector option \<Rightarrow> string \<Rightarrow> string \<times> ResourceCollector option" where
  "prometheus_text F sys poisoned collector service =
     (if poisoned then (unsupported_metrics, collector)
      else (case collector of
              None \<Rightarrow> (unsupported_metrics, None)
            | Some c \<Rightarrow>
                (case collect F sys c of
                   (None, c') \<Rightarrow> (unsupported_metrics, Some c')
                 | (Some snapshot, c') \<Rightarrow> (render_prometheus F service snapshot, Some c'))))"

subsection \<open>Labels can be read back\<close>

text \<open>The reader of the exposition format: a label value ends at the first quote that is not escaped.\<close>

fun read_label :: "string \<Rightarrow> (string \<times> string) option" where
  "read_label [] = None"
| "read_label (c # cs) =
     (if c = CHR 0x22 then Some ([], cs)
      else if c = CHR 0x0A then None
      else if c = CHR 0x5C then
        (case cs of
           [] \<Rightarrow> None
         | d # ds \<Rightarrow>
             map_option (\<lambda>(l, r). ((if d = CHR ''n'' then CHR 0x0A else d) # l, r)) (read_label ds))
      else map_option (\<lambda>(l, r). (c # l, r)) (read_label cs))"

fun escape_char :: "char \<Rightarrow> string" where
  "escape_char c =
     (if c = CHR 0x5C then [CHR 0x5C, CHR 0x5C]
      else if c = CHR 0x22 then [CHR 0x5C, CHR 0x22]
      else if c = CHR 0x0A then [CHR 0x5C, CHR ''n'']
      else [c])"

lemma escape_label_chars: "escape_label s = concat (map escape_char s)"
  by (induction s) (simp_all add: escape_label_def replace_byte_def)

lemma read_label_escape: "read_label (escape_label s @ CHR 0x22 # r) = Some (s, r)"
  by (induction s) (auto simp: escape_label_chars)

lemma u64_metric_text:
  "push_u64_metric name help kind service val out =
     out @ ''# HELP '' @ name @ '' '' @ help @ [CHR 0x0A] @ ''# TYPE '' @ name @ '' '' @ kind @ [CHR 0x0A]
       @ name @ ''{service='' @ [CHR 0x22] @ service @ CHR 0x22 # ''} '' @ show_nat (unat val) @ [CHR 0x0A]"
  by (simp add: push_u64_metric_def text_line_def quoted_def)

text \<open>
  No label can break out of its quotes. Whatever the name of the service, the text of a metric starts with
  its fixed header and opening quote, and from there a reader of the format gets back exactly the
  service name, followed by the rest of the line; a name with quotes, backslashes or line feeds cannot forge
  a metric. The same holds for the file system label.
\<close>

theorem metric_labels_round_trip:
  "(\<exists>pre. push_u64_metric name help kind (escape_label service) val out
        = pre @ name @ ''{service='' @ CHR 0x22 # escape_label service @ CHR 0x22 # ''} '' @ show_nat (unat val) @ [CHR 0x0A])
   \<and> read_label (escape_label service @ CHR 0x22 # rest) = Some (service, rest)
   \<and> CHR 0x0A \<notin> set (escape_label service)"
proof (intro conjI)
  show "CHR 0x0A \<notin> set (escape_label service)"
    by (induction service) (auto simp: escape_label_chars)
qed (auto simp: u64_metric_text read_label_escape)

subsection \<open>Consistent sizes\<close>

lemma unat_saturating_sub: "unat (saturating_sub a b) = unat a - unat b"
  by (auto simp: saturating_sub_def word_le_nat_alt unat_sub not_le)

lemma collect_filesystems:
  assumes "collect F sys c = (Some snap, c')"
  shows "filesystems snap = map (\<lambda>(i, d). filesystem_snapshot F i d)
     (enumerate 0 (sort_key (\<lambda>d. components (mount_point d)) (sample_disks sys)))"
  using assms by (auto simp: collect_def Let_def split: option.splits)

text \<open>
  A collected snapshot is consistent and reveals no path. It has one entry per disk, named \<open>fs0\<close>, \<open>fs1\<close> and so
  on in the order of the mount points; in every entry the available space is within the total and used plus
  available is the total, also when the system reports more available than total space. The CPU ratio is given
  exactly from the second collection on.
\<close>

theorem collected_snapshot_is_consistent:
  assumes "collect F sys c = (Some snap, c')"
  shows "map fs_target (filesystems snap) = map (\<lambda>i. ''fs'' @ show_nat i) [0..<length (sample_disks sys)]
    \<and> (\<exists>disks. mset disks = mset (sample_disks sys) \<and> sorted (map (\<lambda>d. components (mount_point d)) disks)
         \<and> map total_bytes (filesystems snap) = map total_space disks)
    \<and> list_all (\<lambda>f. available_bytes f \<le> total_bytes f
         \<and> unat (used_bytes f) + unat (available_bytes f) = unat (total_bytes f)) (filesystems snap)
    \<and> (cpu_utilization_ratio (snap_process snap) \<noteq> None \<longleftrightarrow> warmed c) \<and> warmed c'"
proof (intro conjI exI[of _ "sort_key (\<lambda>d. components (mount_point d)) (sample_disks sys)"])
  let ?disks = "sort_key (\<lambda>d. components (mount_point d)) (sample_disks sys)"
  show "map fs_target (filesystems snap) = map (\<lambda>i. ''fs'' @ show_nat i) [0..<length (sample_disks sys)]"
    unfolding collect_filesystems[OF assms]
    by (rule nth_equalityI) (auto simp: nth_enumerate_eq filesystem_snapshot_def Let_def)
  show "map total_bytes (filesystems snap) = map total_space ?disks"
    unfolding collect_filesystems[OF assms]
    by (rule nth_equalityI) (auto simp: nth_enumerate_eq filesystem_snapshot_def Let_def)
  show "list_all (\<lambda>f. available_bytes f \<le> total_bytes f
      \<and> unat (used_bytes f) + unat (available_bytes f) = unat (total_bytes f)) (filesystems snap)"
    unfolding collect_filesystems[OF assms]
    by (auto simp: list_all_iff filesystem_snapshot_def Let_def unat_saturating_sub word_le_nat_alt min_def)
qed (use assms in \<open>auto simp: collect_def Let_def split: option.splits if_splits\<close>)

definition sample_system :: "nat system_sample" where
  "sample_system = \<lparr>sample_process = Some \<lparr>ps_cpu_usage = 50, ps_accumulated_cpu_time = 1000, ps_memory = 256,
       ps_virtual_memory = 1024, ps_total_read_bytes = 0, ps_total_written_bytes = 0, ps_run_time = 60\<rparr>,
     sample_disks = [\<lparr>mount_point = ''/var'', total_space = 10, available_space = 20, disk_read_only = False\<rparr>,
       \<lparr>mount_point = ''/'', total_space = 8, available_space = 3, disk_read_only = True\<rparr>]\<rparr>"

definition nat_f64 :: "nat f64_ops" where
  "nat_f64 = \<lparr>f64_of_u64 = unat, f64_of_u8 = unat, f64_of_f32 = id, f64_div = (div), f64_clamp_unit = min 1, f64_zero = 0,
     f64_show = show_nat\<rparr>"

theorem collected_snapshot_is_consistent_witness:
  "\<exists>snap. fst (collect nat_f64 sample_system \<lparr>warmed = False, logical_cpus = 2\<rparr>) = Some snap
     \<and> map fs_target (filesystems snap) = [''fs'' @ show_nat 0, ''fs'' @ show_nat 1]"
proof -
  obtain snap c' where run: "collect nat_f64 sample_system \<lparr>warmed = False, logical_cpus = 2\<rparr> = (Some snap, c')"
    by (simp add: collect_def sample_system_def Let_def)
  then have "map fs_target (filesystems snap) = map (\<lambda>i. ''fs'' @ show_nat i) [0..<length (sample_disks sample_system)]"
    using collected_snapshot_is_consistent[OF run] by blast
  then show ?thesis
    using run by (simp add: sample_system_def upt_rec)
qed

end
