(* ===== verification/Sidecar_Http.thy ===== *)
theory Sidecar_Http
  imports Receiver Sidecar_Apm
begin

section \<open>The probe listener\<close>

text \<open>
  \<open>src/src/http.rs\<close> and \<open>src/src/http_api.rs\<close>, with \<open>identity.rs\<close>, \<open>health.rs\<close> and \<open>probe.rs\<close>: the HTTP listener
  for \<open>/healthz\<close>, \<open>/readyz\<close> and \<open>/metrics\<close>, and the client that in-container probes use. A connection is the stream
  of chunks that the peer sends and the bytes that are written back. The serialiser of \<open>serde_json\<close> is a parameter.
  The methods of a product probe are the two values that it reports during the request.

  The theorems say which requests are served, that the answer is framed by its length, and that the probe
  client and the listener agree: the exit code of a probe is the readiness of the product.
\<close>

subsection \<open>Identity and health\<close>

record SidecarIdentity =
  service :: string
  bind_env :: string
  default_bind :: string

definition SERVICE :: string where
  "SERVICE = ''ores-otel-sidecar''"

definition BIND :: string where
  "BIND = ''ORES_OTEL_SIDECAR_BIND''"

definition BIND_DEFAULT :: string where
  "BIND_DEFAULT = ''127.0.0.1:9090''"

definition ALLOW_NON_LOOPBACK :: string where
  "ALLOW_NON_LOOPBACK = ''ORES_OTEL_SIDECAR_ALLOW_NON_LOOPBACK''"

definition SidecarIdentity_new :: "string \<Rightarrow> string \<Rightarrow> SidecarIdentity" where
  "SidecarIdentity_new svc benv = \<lparr>service = svc, bind_env = benv, default_bind = BIND_DEFAULT\<rparr>"

definition ORES_OTEL :: SidecarIdentity where
  "ORES_OTEL = SidecarIdentity_new SERVICE BIND"

record ProductProbe =
  extra_health :: "json_value option"
  ready :: bool

definition NoopProbe :: ProductProbe where
  "NoopProbe = \<lparr>extra_health = None, ready = True\<rparr>"

record Health =
  health_ok :: bool
  health_service :: string
  health_product :: "json_value option"

definition current_health :: "SidecarIdentity \<Rightarrow> json_value option \<Rightarrow> Health" where
  "current_health identity product = \<lparr>health_ok = True, health_service = service identity, health_product = product\<rparr>"

text \<open>The derived serialisation: the fields in order, without an absent product.\<close>

definition health_value :: "Health \<Rightarrow> json_value" where
  "health_value h = JObject ([(''ok'', JBool (health_ok h)), (''service'', JString (health_service h))]
     @ (case health_product h of None \<Rightarrow> [] | Some v \<Rightarrow> [(''product'', v)]))"

subsection \<open>Requests\<close>

definition MAX_REQUEST_LINE :: nat where
  "MAX_REQUEST_LINE = 2048"

definition MAX_HEADERS :: nat where
  "MAX_HEADERS = 32"

definition MAX_HEADER_LINE :: nat where
  "MAX_HEADER_LINE = 1024"

datatype Method = Get | Head

datatype Route = Healthz | Readyz | Metrics

datatype Reject = MethodNotAllowed | RouteNotFound | LineTooLong | HeaderTooLarge | BodyNotAllowed | Invalid

datatype Request = RequestOk Method Route | RequestReject Reject

fun is_ok_request :: "Request \<Rightarrow> bool" where
  "is_ok_request (RequestOk m r) = True"
| "is_ok_request (RequestReject r) = False"

definition classify_request_line :: "string \<Rightarrow> Request" where
  "classify_request_line line0 =
     (let line = trim_end_matches (\<lambda>c. c = carriage_return \<or> c = newline) line0 in
      if length line > MAX_REQUEST_LINE then RequestReject LineTooLong
      else if CHR 0x00 \<in> set line \<or> carriage_return \<in> set line then RequestReject Invalid
      else
        let parts = split_byte (CHR '' '') line in
        (case (if hd parts = ''GET'' then Inr Get
               else if hd parts = ''HEAD'' then Inr Head
               else if hd parts = [] then Inl Invalid
               else Inl MethodNotAllowed) of
           Inl r \<Rightarrow> RequestReject r
         | Inr mth \<Rightarrow>
             (case parts of
                [_, path, version] \<Rightarrow>
                  if path = [] \<or> version \<noteq> ''HTTP/1.1'' \<and> version \<noteq> ''HTTP/1.0'' then RequestReject Invalid
                  else if CHR ''%'' \<in> set path \<or> contains_str ''..'' path \<or> CHR 0x5C \<in> set path
                    \<or> CHR 0x09 \<in> set path \<or> \<not> starts_with ''/'' path
                  then RequestReject RouteNotFound
                  else
                    let path = hd (split_byte (CHR ''?'') path) in
                    if path \<in> {''/healthz'', ''/health''} then RequestOk mth Healthz
                    else if path \<in> {''/readyz'', ''/ready''} then RequestOk mth Readyz
                    else if path = ''/metrics'' then RequestOk mth Metrics
                    else RequestReject RouteNotFound
              | _ \<Rightarrow> RequestReject Invalid)))"

definition status_line :: "u16 \<Rightarrow> string" where
  "status_line code =
     (if code = 200 then ''200 OK''
      else if code = 405 then ''405 Method Not Allowed''
      else if code = 404 then ''404 Not Found''
      else if code = 400 then ''400 Bad Request''
      else if code = 413 then ''413 Payload Too Large''
      else if code = 431 then ''431 Request Header Fields Too Large''
      else if code = 503 then ''503 Service Unavailable''
      else ''500 Internal Server Error'')"

definition failed_health :: string where
  "failed_health = ''{'' @ quoted ''ok'' @ '':false}''"

definition up_metric :: "string \<Rightarrow> string" where
  "up_metric svc =
     text_line ''# HELP ores_otel_sidecar_up Whether the sidecar probe listener is serving.''
     @ text_line ''# TYPE ores_otel_sidecar_up gauge''
     @ text_line (''ores_otel_sidecar_up{service='' @ quoted svc @ ''} 1'')"

definition response_for ::
  "(json_value \<Rightarrow> string option) \<Rightarrow> (string \<Rightarrow> string) \<Rightarrow> Request \<Rightarrow> SidecarIdentity \<Rightarrow> ProductProbe \<Rightarrow> u16 \<times> string \<times> string" where
  "response_for to_json prometheus request identity probe =
     (case request of
        RequestReject MethodNotAllowed \<Rightarrow> (405, ''text/plain; charset=utf-8'', text_line ''method not allowed'')
      | RequestReject RouteNotFound \<Rightarrow> (404, ''text/plain; charset=utf-8'', text_line ''not found'')
      | RequestReject LineTooLong \<Rightarrow> (431, ''text/plain; charset=utf-8'', text_line ''request too large'')
      | RequestReject HeaderTooLarge \<Rightarrow> (431, ''text/plain; charset=utf-8'', text_line ''request too large'')
      | RequestReject BodyNotAllowed \<Rightarrow> (400, ''text/plain; charset=utf-8'', text_line ''request body not allowed'')
      | RequestReject Invalid \<Rightarrow> (400, ''text/plain; charset=utf-8'', text_line ''bad request'')
      | RequestOk _ Healthz \<Rightarrow>
          let body = (case to_json (health_value (current_health identity (extra_health probe))) of
                        Some s \<Rightarrow> s | None \<Rightarrow> failed_health) in
          (200, ''application/json'', text_line body)
      | RequestOk _ Readyz \<Rightarrow>
          let payload = JObject [(''ok'', JBool (ready probe)),
                (''product'', case extra_health probe of None \<Rightarrow> JNull | Some v \<Rightarrow> v),
                (''service'', JString (service identity))];
              body = (case to_json payload of Some s \<Rightarrow> s | None \<Rightarrow> failed_health) in
          (if ready probe then 200 else 503, ''application/json'', text_line body)
      | RequestOk _ Metrics \<Rightarrow>
          (200, ''text/plain; version=0.0.4'', up_metric (service identity) @ prometheus (service identity)))"

definition crlf :: string where
  "crlf = [carriage_return, newline]"

definition write_http :: "u16 \<Rightarrow> string \<Rightarrow> string \<Rightarrow> bool \<Rightarrow> string" where
  "write_http code content_type body head_only =
     (let content_length = (if head_only then 0 else length body);
          payload = (if head_only then [] else body) in
      ''HTTP/1.1 '' @ status_line code @ crlf
      @ ''content-type: '' @ content_type @ crlf
      @ ''content-length: '' @ show_nat content_length @ crlf
      @ ''connection: close'' @ crlf
      @ ''cache-control: no-store'' @ crlf
      @ ''x-content-type-options: nosniff'' @ crlf
      @ ''x-frame-options: DENY'' @ crlf
      @ ''content-security-policy: default-src '' @ [CHR 0x27] @ ''none'' @ [CHR 0x27] @ ''; connect-src ''
      @ [CHR 0x27] @ ''self'' @ [CHR 0x27] @ crlf
      @ crlf
      @ payload)"

subsection \<open>Headers\<close>

record Headers =
  header_count :: nat
  content_length :: "u64 option"
  saw_host :: bool

definition Headers_default :: Headers where
  "Headers_default = \<lparr>header_count = 0, content_length = None, saw_host = False\<rparr>"

definition headers_with :: "Headers \<Rightarrow> string \<Rightarrow> Reject + Headers" where
  "headers_with h line =
     (if CHR 0x00 \<in> set line \<or> CHR '':'' \<notin> set line then Err Invalid
      else if header_count h + 1 > MAX_HEADERS then Err HeaderTooLarge
      else
        let lower = to_ascii_lowercase line;
            host = starts_with ''host:'' lower;
            host_value = (case split_once (CHR '':'') line of None \<Rightarrow> [] | Some (_, rest) \<Rightarrow> trim rest) in
        if host \<and> host_value = [] then Err Invalid
        else if starts_with ''expect:'' lower \<or> starts_with ''transfer-encoding:'' lower then Err BodyNotAllowed
        else
          bindR
            (case strip_prefix ''content-length:'' lower of
               None \<Rightarrow> Ok (content_length h)
             | Some rest \<Rightarrow>
                 let parsed = (case parse_u64 (trim rest) of Some n \<Rightarrow> n | None \<Rightarrow> - 1) in
                 if (case content_length h of None \<Rightarrow> False | Some previous \<Rightarrow> previous \<noteq> parsed) then Err Invalid
                 else Ok (Some parsed)) (\<lambda>len.
          Ok \<lparr>header_count = header_count h + 1, content_length = len, saw_host = host \<or> saw_host h\<rparr>))"

text \<open>The fold over the header lines, which ends at the end of the stream or at the blank line.\<close>

function fold_headers :: "Headers \<Rightarrow> stream \<Rightarrow> (Reject + Headers) \<times> stream" where
  "fold_headers h cs =
     (case read_line cs of
        (Err _, cs') \<Rightarrow> (Err Invalid, cs')
      | (Ok line, cs') \<Rightarrow>
          if line = [] then (Ok h, cs')
          else if length line > MAX_HEADER_LINE then (Err HeaderTooLarge, cs')
          else if line = crlf \<or> line = [newline] then (Ok h, cs')
          else (case headers_with h line of
                  Err r \<Rightarrow> (Err r, cs')
                | Ok h' \<Rightarrow> fold_headers h' cs'))"
  by pat_completeness auto
termination
  by (relation "measure (\<lambda>(h, cs). stream_size cs)") (auto dest: read_line_size[OF sym])

declare fold_headers.simps [simp del]

definition read_request :: "stream \<Rightarrow> Request \<times> stream" where
  "read_request cs =
     (case read_line cs of
        (Err _, cs') \<Rightarrow> (RequestReject Invalid, cs')
      | (Ok line, cs') \<Rightarrow>
          if line = [] then (RequestReject Invalid, cs')
          else if length line > MAX_REQUEST_LINE then (RequestReject LineTooLong, cs')
          else
            let http11 = contains_str ''HTTP/1.1'' line; classified = classify_request_line line in
            (case fold_headers Headers_default cs' of
               (Err r, cs'') \<Rightarrow> (RequestReject r, cs'')
             | (Ok headers, cs'') \<Rightarrow>
                 if is_ok_request classified \<and> http11 \<and> \<not> saw_host headers
                 then (RequestReject Invalid, cs'')
                 else
                   let len = (case content_length headers of None \<Rightarrow> 0 | Some n \<Rightarrow> n) in
                   if len > 0 then (RequestReject BodyNotAllowed, snd (stream_read (min (unat len) 64) cs''))
                   else (classified, cs'')))"

definition handle_connection ::
  "(json_value \<Rightarrow> string option) \<Rightarrow> (string \<Rightarrow> string) \<Rightarrow> SidecarIdentity \<Rightarrow> ProductProbe \<Rightarrow> stream \<Rightarrow> string" where
  "handle_connection to_json prometheus identity probe cs =
     (let request = fst (read_request cs);
          head_only = (case request of RequestOk Head _ \<Rightarrow> True | _ \<Rightarrow> False);
          (code, content_type, body) = response_for to_json prometheus request identity probe in
      write_http code content_type body head_only)"

text \<open>
  The accept loop: it serves connections one after the other, goes on after an interrupted \<open>accept\<close> and ends with
  the first other error. Its first call, the switch to blocking mode, is a result of the system in \<open>run_with_probe\<close>. The
  \<open>incoming\<close> iterator never ends by itself; a finite list is a prefix of its history.
\<close>

fun serve_listener ::
  "(stream \<Rightarrow> string) \<Rightarrow> (io_kind + stream) list \<Rightarrow> string list \<times> io_kind option" where
  "serve_listener handle [] = ([], None)"
| "serve_listener handle (Ok cs # incoming) =
     (let (served, end) = serve_listener handle incoming in (handle cs # served, end))"
| "serve_listener handle (Err k # incoming) =
     (if k = Interrupted then serve_listener handle incoming else ([], Some k))"

subsection \<open>The probe client\<close>

record tcp_peer =
  tcp_connect :: "io_kind + unit"
  tcp_timeouts :: "io_kind + unit"
  tcp_write :: "bytes \<Rightarrow> io_kind + unit"
  tcp_reply :: "bytes \<Rightarrow> stream"

definition MAX_STATUS_LINE :: nat where
  "MAX_STATUS_LINE = 256"

definition probe_request :: "string \<Rightarrow> string" where
  "probe_request path =
     ''GET '' @ path @ '' HTTP/1.1'' @ crlf @ ''Host: 127.0.0.1'' @ crlf @ ''Connection: close'' @ crlf @ crlf"

definition parse_status_line :: "string \<Rightarrow> io_kind + u16" where
  "parse_status_line status =
     (if status = [] \<or> length status > MAX_STATUS_LINE then Err OtherKind
      else
        let line = trim_end_matches (\<lambda>c. c = carriage_return \<or> c = newline) status in
        if CHR 0x00 \<in> set line \<or> carriage_return \<in> set line then Err OtherKind
        else
          let parts = split_whitespace line;
              version = (case parts of v # _ \<Rightarrow> v | _ \<Rightarrow> []);
              code = (case parts of _ # c # _ \<Rightarrow> c | _ \<Rightarrow> []) in
          if version \<notin> {''HTTP/1.0'', ''HTTP/1.1''} \<or> length code \<noteq> 3 \<or> \<not> list_all is_ascii_digit code
          then Err OtherKind
          else ok_or OtherKind (parse_u16 code))"

definition probe_get :: "tcp_peer \<Rightarrow> string \<Rightarrow> io_kind + u16" where
  "probe_get peer path =
     (if path \<notin> {''/healthz'', ''/health'', ''/readyz'', ''/ready''} then Err InvalidInput
      else
        bindR (tcp_connect peer) (\<lambda>_.
        bindR (tcp_timeouts peer) (\<lambda>_.
        bindR (tcp_write peer (probe_request path)) (\<lambda>_.
        bindR (fst (read_line (tcp_reply peer (probe_request path)))) parse_status_line))))"

definition probe_exit :: "tcp_peer \<Rightarrow> string \<Rightarrow> int" where
  "probe_exit peer path = (case probe_get peer path of Ok c \<Rightarrow> if c = 200 then 0 else 1 | Err _ \<Rightarrow> 1)"

subsection \<open>Which request lines are served\<close>

fun method_name :: "Method \<Rightarrow> string" where
  "method_name Get = ''GET''"
| "method_name Head = ''HEAD''"

fun route_paths :: "Route \<Rightarrow> string set" where
  "route_paths Healthz = {''/healthz'', ''/health''}"
| "route_paths Readyz = {''/readyz'', ''/ready''}"
| "route_paths Metrics = {''/metrics''}"

text \<open>The request target: a path of the route, and a query without the refused characters.\<close>

definition served_target :: "Route \<Rightarrow> string \<Rightarrow> bool" where
  "served_target r target \<longleftrightarrow> (\<exists>p q. target = p @ q \<and> p \<in> route_paths r \<and> (q = [] \<or> hd q = CHR ''?''))
     \<and> set target \<inter> {CHR '' '', CHR ''%'', CHR 0x5C, CHR 0x09, CHR 0x00, carriage_return} = {}
     \<and> \<not> contains_str ''..'' target"

definition served_line :: "Method \<Rightarrow> Route \<Rightarrow> string \<Rightarrow> bool" where
  "served_line m r line \<longleftrightarrow> length line \<le> MAX_REQUEST_LINE
     \<and> (\<exists>target version. line = method_name m @ '' '' @ target @ '' '' @ version
          \<and> served_target r target \<and> version \<in> {''HTTP/1.1'', ''HTTP/1.0''})"

lemma route_paths_no_query: "p \<in> route_paths r \<Longrightarrow> CHR ''?'' \<notin> set p \<and> starts_with ''/'' p"
  by (cases r) (auto simp: starts_with_def)

lemma hd_split_byte: "hd (split_byte d s) = takeWhile (\<lambda>c. c \<noteq> d) s"
  by (induction s) (auto split: list.splits simp: hd_Cons_tl neq_Nil_conv)

lemma split_three:
  "split_byte d s = [a, b, c] \<longleftrightarrow> s = a @ d # b @ d # c \<and> d \<notin> set a \<and> d \<notin> set b \<and> d \<notin> set c"
proof
  assume split: "split_byte d s = [a, b, c]"
  then show "s = a @ d # b @ d # c \<and> d \<notin> set a \<and> d \<notin> set b \<and> d \<notin> set c"
    using join_split_byte[of d s] split_byte_no_sep[of _ d s] by auto
qed (auto simp: split_byte_append_sep split_byte_no_occurrence)

lemma takeWhile_path:
  "(\<exists>p q. t = p @ q \<and> p \<in> A \<and> (q = [] \<or> hd q = CHR ''?'')) \<longleftrightarrow> takeWhile (\<lambda>c. c \<noteq> CHR ''?'') t \<in> A"
  if "\<And>p. p \<in> A \<Longrightarrow> CHR ''?'' \<notin> set p"
proof
  assume "\<exists>p q. t = p @ q \<and> p \<in> A \<and> (q = [] \<or> hd q = CHR ''?'')"
  then obtain p q where pq: "t = p @ q" "p \<in> A" "q = [] \<or> hd q = CHR ''?''"
    by blast
  then have "takeWhile (\<lambda>c. c \<noteq> CHR ''?'') t = p"
    using that[OF pq(2)] by (cases q) (auto simp: takeWhile_tail takeWhile_append)
  with pq show "takeWhile (\<lambda>c. c \<noteq> CHR ''?'') t \<in> A"
    by simp
next
  assume "takeWhile (\<lambda>c. c \<noteq> CHR ''?'') t \<in> A"
  moreover have "dropWhile (\<lambda>c. c \<noteq> CHR ''?'') t = [] \<or> hd (dropWhile (\<lambda>c. c \<noteq> CHR ''?'') t) = CHR ''?''"
    using hd_dropWhile[of "\<lambda>c. c \<noteq> CHR ''?''" t] by auto
  ultimately show "\<exists>p q. t = p @ q \<and> p \<in> A \<and> (q = [] \<or> hd q = CHR ''?'')"
    by (metis takeWhile_dropWhile_id)
qed

lemma served_target_iff:
  "served_target r t \<longleftrightarrow> takeWhile (\<lambda>c. c \<noteq> CHR ''?'') t \<in> route_paths r
     \<and> set t \<inter> {CHR '' '', CHR ''%'', CHR 0x5C, CHR 0x09, CHR 0x00, carriage_return} = {} \<and> \<not> contains_str ''..'' t"
  unfolding served_target_def by (subst takeWhile_path) (use route_paths_no_query in auto)

lemma served_path_slash: "takeWhile (\<lambda>c. c \<noteq> CHR ''?'') t \<in> route_paths r \<Longrightarrow> starts_with ''/'' t \<and> t \<noteq> []"
  by (cases t) (use route_paths_no_query[of "takeWhile (\<lambda>c. c \<noteq> CHR ''?'') t" r] in \<open>auto simp: starts_with_def split: if_splits\<close>)

abbreviation chomp :: "string \<Rightarrow> string" where
  "chomp l \<equiv> trim_end_matches (\<lambda>c. c = carriage_return \<or> c = newline) l"

lemma classified_line_is_served:
  assumes ok: "classify_request_line l = RequestOk m r"
  shows "served_line m r (chomp l)"
proof -
  define line where "line = chomp l"
  note unfold = classify_request_line_def Let_def line_def[symmetric]
  obtain x t v where parts: "split_byte (CHR '' '') line = [x, t, v]"
    using ok unfolding unfold by (auto split: if_splits list.splits)
  then have "line = x @ CHR '' '' # t @ CHR '' '' # v" "CHR '' '' \<notin> set t"
    by (simp_all add: split_three)
  moreover have "x = method_name m" "v \<in> {''HTTP/1.1'', ''HTTP/1.0''}" "length line \<le> MAX_REQUEST_LINE"
      "CHR 0x00 \<notin> set line" "carriage_return \<notin> set line" "\<not> contains_str ''..'' t"
      "CHR ''%'' \<notin> set t" "CHR 0x5C \<notin> set t" "CHR 0x09 \<notin> set t"
      "takeWhile (\<lambda>c. c \<noteq> CHR ''?'') t \<in> route_paths r"
    using ok unfolding unfold parts by (auto simp: hd_split_byte split: if_splits)
  ultimately show ?thesis
    unfolding served_line_def served_target_iff line_def[symmetric] by auto
qed

lemma served_line_is_classified:
  assumes "served_line m r (chomp l)"
  shows "classify_request_line l = RequestOk m r"
proof -
  define line where "line = chomp l"
  obtain t v where line: "line = method_name m @ CHR '' '' # t @ CHR '' '' # v" and t: "served_target r t"
      and v: "v \<in> {''HTTP/1.1'', ''HTTP/1.0''}" and len: "length line \<le> MAX_REQUEST_LINE"
    using assms by (auto simp: served_line_def line_def)
  have clean: "CHR 0x00 \<notin> set line" "carriage_return \<notin> set line"
    using t v by (cases m; auto simp: line served_target_iff)+
  have parts: "split_byte (CHR '' '') line = [method_name m, t, v]"
    unfolding line split_three using t v by (cases m) (auto simp: served_target_iff)
  define p where "p = hd (split_byte (CHR ''?'') t)"
  have p: "p \<in> route_paths r"
    using t by (simp add: hd_split_byte served_target_iff p_def)
  have facts: "starts_with ''/'' t" "t \<noteq> []" "\<not> contains_str ''..'' t"
      "CHR ''%'' \<notin> set t" "CHR 0x5C \<notin> set t" "CHR 0x09 \<notin> set t" "\<not> (v \<noteq> ''HTTP/1.1'' \<and> v \<noteq> ''HTTP/1.0'')"
    using t v served_path_slash[of t r] unfolding served_target_iff by blast+
  have "(case (if method_name m = ''GET'' then Inr Get else if method_name m = ''HEAD'' then Inr Head
      else if method_name m = [] then Inl Invalid else Inl MethodNotAllowed) of Inl e \<Rightarrow> RequestReject e | Inr n \<Rightarrow> k n) = k m"
    for k by (cases m) simp_all
  moreover have "(if p \<in> {''/healthz'', ''/health''} then RequestOk m Healthz
      else if p \<in> {''/readyz'', ''/ready''} then RequestOk m Readyz
      else if p = ''/metrics'' then RequestOk m Metrics else RequestReject RouteNotFound) = RequestOk m r"
    using p by (cases r) auto
  ultimately show ?thesis
    unfolding classify_request_line_def Let_def line_def[symmetric] parts list.sel using clean len facts
    by (simp add: p_def[symmetric] split: if_splits) (elim disjE; simp)+
qed

text \<open>
  The listener serves exactly the documented requests. A request line, without its line end, is accepted as
  method \<open>m\<close> on route \<open>r\<close> exactly when it is \<open>m\<close>, one space, a path of \<open>r\<close> with at most a query behind it, one
  space, and \<open>HTTP/1.1\<close> or \<open>HTTP/1.0\<close>, with at most 2048 bytes and without percent signs, backslashes, tabs, dot-dot,
  NUL or stray carriage returns in the target.
\<close>

theorem classify_accepts_exactly_served_lines:
  "classify_request_line l = RequestOk m r \<longleftrightarrow> served_line m r (chomp l)"
  using classified_line_is_served served_line_is_classified by blast

subsection \<open>The probe client and the listener agree\<close>

definition probe_route :: "string \<Rightarrow> Route" where
  "probe_route path = (if path \<in> {''/healthz'', ''/health''} then Healthz else Readyz)"

lemma host_header:
  "headers_with Headers_default (''Host: 127.0.0.1'' @ crlf) = Ok \<lparr>header_count = 1, content_length = None, saw_host = True\<rparr>"
proof -
  have lower: "to_ascii_lowercase (''Host: 127.0.0.1'' @ crlf) = ''host: 127.0.0.1'' @ crlf"
    by (simp add: to_ascii_lowercase_def is_ascii_uppercase_def byte_in_def char_of_def bit_0 crlf_def)
  have "trim ('' 127.0.0.1'' @ crlf) \<noteq> []"
    by (rule trim_nonempty[of "CHR ''1''"]) (simp_all add: is_ascii_graphic_def byte_in_def)
  then show ?thesis
    unfolding headers_with_def lower
    by (simp add: crlf_def MAX_HEADERS_def starts_with_def strip_prefix_def Headers_default_def)
qed

lemma connection_header:
  "headers_with \<lparr>header_count = 1, content_length = None, saw_host = True\<rparr> (''Connection: close'' @ crlf)
     = Ok \<lparr>header_count = 2, content_length = None, saw_host = True\<rparr>"
proof -
  have lower: "to_ascii_lowercase (''Connection: close'' @ crlf) = ''connection: close'' @ crlf"
    by (simp add: to_ascii_lowercase_def is_ascii_uppercase_def byte_in_def char_of_def bit_0 crlf_def)
  show ?thesis
    unfolding headers_with_def lower by (simp add: crlf_def MAX_HEADERS_def starts_with_def strip_prefix_def)
qed

text \<open>One step of the header fold on a stream without failures.\<close>

lemma fold_headers_line:
  assumes "failure cs = None" and "delivered cs = l @ crlf @ rest" and "newline \<notin> set l" and "valid_utf8 (l @ crlf)"
    and "l \<noteq> []" and "length l + 2 \<le> MAX_HEADER_LINE" and "headers_with h (l @ crlf) = Ok h'"
  obtains cs' where "fst (fold_headers h cs) = fst (fold_headers h' cs')" and "delivered cs' = rest" and "failure cs' = None"
proof -
  obtain cs' where "read_line cs = (Ok (l @ crlf), cs')" and "delivered cs' = rest" and "failure cs' = None"
    using read_line_cons[OF assms(1), of "l @ [carriage_return]" rest] assms by (auto simp: crlf_def)
  then show thesis
    using that assms(5-7) fold_headers.simps[of h cs] by (auto simp: crlf_def)
qed

lemma fold_headers_end:
  assumes "failure cs = None" and "delivered cs = crlf @ rest"
  shows "fst (fold_headers h cs) = Ok h"
proof -
  obtain cs' where "read_line cs = (Ok crlf, cs')"
    using read_line_cons[OF assms(1), of "[carriage_return]" rest] assms(2)
    by (auto simp: crlf_def valid_utf8_ascii)
  then show ?thesis
    using fold_headers.simps[of h cs] by (simp add: crlf_def MAX_HEADER_LINE_def)
qed

lemma probe_headers:
  assumes "failure cs = None"
    and "delivered cs = ''Host: 127.0.0.1'' @ crlf @ ''Connection: close'' @ crlf @ crlf"
  shows "fst (fold_headers Headers_default cs) = Ok \<lparr>header_count = 2, content_length = None, saw_host = True\<rparr>"
proof -
  obtain cs1 where cs1: "fst (fold_headers Headers_default cs)
        = fst (fold_headers \<lparr>header_count = 1, content_length = None, saw_host = True\<rparr> cs1)"
      "delivered cs1 = ''Connection: close'' @ crlf @ crlf" "failure cs1 = None"
    by (rule fold_headers_line[OF assms _ _ _ _ host_header])
      (simp_all add: crlf_def MAX_HEADER_LINE_def valid_utf8_ascii)
  obtain cs2 where "fst (fold_headers \<lparr>header_count = 1, content_length = None, saw_host = True\<rparr> cs1)
        = fst (fold_headers \<lparr>header_count = 2, content_length = None, saw_host = True\<rparr> cs2)"
      "delivered cs2 = crlf @ []" "failure cs2 = None"
    by (rule fold_headers_line[OF cs1(3,2) _ _ _ _ connection_header, unfolded append_Nil2])
      (simp_all add: crlf_def MAX_HEADER_LINE_def valid_utf8_ascii)
  with cs1(1) fold_headers_end show ?thesis
    by metis
qed

lemma chomp_crlf: "l = [] \<or> last l \<noteq> carriage_return \<and> last l \<noteq> newline \<Longrightarrow> chomp (l @ crlf) = l"
  by (cases l rule: rev_cases) (auto simp: trim_end_matches_def crlf_def)

lemma probe_request_line:
  assumes "path \<in> {''/healthz'', ''/health'', ''/readyz'', ''/ready''}"
  shows "classify_request_line (''GET '' @ path @ '' HTTP/1.1'' @ crlf) = RequestOk Get (probe_route path)"
    and "contains_str ''HTTP/1.1'' (''GET '' @ path @ '' HTTP/1.1'' @ crlf)"
    and "newline \<notin> set (''GET '' @ path @ '' HTTP/1.1'' @ [carriage_return])"
    and "valid_utf8 (''GET '' @ path @ '' HTTP/1.1'' @ crlf)"
    and "length (''GET '' @ path @ '' HTTP/1.1'' @ crlf) \<le> MAX_REQUEST_LINE"
proof -
  have "path \<in> route_paths (probe_route path)"
    using assms by (auto simp: probe_route_def)
  moreover have "set path \<inter> {CHR '' '', CHR ''%'', CHR 0x5C, CHR 0x09, CHR 0x00, carriage_return} = {}"
      "\<not> contains_str ''..'' path" "length path \<le> 9"
    using assms by (auto simp: starts_with_def)
  ultimately have "served_target (probe_route path) path" and "length path \<le> 9"
    by (auto simp: served_target_def intro: exI[of _ path])
  then have "served_line Get (probe_route path) (''GET '' @ path @ '' HTTP/1.1'')"
    unfolding served_line_def by (intro conjI exI[of _ path] exI[of _ "''HTTP/1.1''"]) (auto simp: MAX_REQUEST_LINE_def)
  moreover have "chomp ((''GET '' @ path @ '' HTTP/1.1'') @ crlf) = ''GET '' @ path @ '' HTTP/1.1''"
    by (rule chomp_crlf) simp
  ultimately show "classify_request_line (''GET '' @ path @ '' HTTP/1.1'' @ crlf) = RequestOk Get (probe_route path)"
    by (intro served_line_is_classified) simp
qed (use assms in \<open>auto simp: crlf_def MAX_REQUEST_LINE_def starts_with_def valid_utf8_ascii\<close>)

lemma read_probe_request:
  assumes "path \<in> {''/healthz'', ''/health'', ''/readyz'', ''/ready''}" and "failure cs = None"
    and "delivered cs = probe_request path"
  shows "fst (read_request cs) = RequestOk Get (probe_route path)"
proof -
  note line = probe_request_line[OF assms(1)]
  obtain cs' where cs': "read_line cs = (Ok (''GET '' @ path @ '' HTTP/1.1'' @ crlf), cs')"
      "delivered cs' = ''Host: 127.0.0.1'' @ crlf @ ''Connection: close'' @ crlf @ crlf" "failure cs' = None"
    using read_line_cons[OF assms(2), of "''GET '' @ path @ '' HTTP/1.1'' @ [carriage_return]"] line(3,4) assms(3)
    by (auto simp: crlf_def probe_request_def)
  obtain r cs'' where headers: "fold_headers Headers_default cs' = (r, cs'')"
    by fastforce
  then have "r = Ok \<lparr>header_count = 2, content_length = None, saw_host = True\<rparr>"
    using probe_headers[OF cs'(3,2)] by simp
  then show ?thesis
    using line cs'(1) headers by (simp add: read_request_def)
qed

lemma split_two_words:
  assumes "v \<noteq> []" and "c \<noteq> []" and "list_all is_ascii_graphic v" and "list_all is_ascii_graphic c"
  shows "split_whitespace (v @ CHR '' '' # c @ CHR '' '' # s) = v # c # split_whitespace s"
  using assms(1,2) uwords_from_graphic[OF assms(3), of "[]" "CHR '' '' # c @ CHR '' '' # s"]
    uwords_from_graphic[OF assms(4), of "[]" "CHR '' '' # s"]
  by (simp add: split_whitespace_def uwords_from.simps[of "rev v"] uwords_from.simps[of "rev c"])

lemma parse_status_text:
  assumes "length c = 3" and "list_all is_ascii_digit c" and "reason \<noteq> []" and "list_all (\<lambda>x. is_ascii_graphic x \<or> x = CHR '' '') reason"
    and "length reason \<le> 200"
  shows "parse_status_line (''HTTP/1.1 '' @ c @ CHR '' '' # reason @ crlf) = ok_or OtherKind (parse_u16 c)"
proof -
  let ?l = "''HTTP/1.1'' @ CHR '' '' # c @ CHR '' '' # reason"
  have graphic: "list_all is_ascii_graphic c" "list_all is_ascii_graphic ''HTTP/1.1''"
    using assms(2) is_ascii_digit_graphic by (auto simp: list_all_iff is_ascii_graphic_def byte_in_def)
  have words: "split_whitespace ?l = ''HTTP/1.1'' # c # split_whitespace reason"
    using assms(1) graphic by (intro split_two_words) auto
  have plain: "\<not> is_ascii_graphic (CHR 0x00)" "\<not> is_ascii_graphic carriage_return" "\<not> is_ascii_graphic newline"
    by (simp_all add: is_ascii_graphic_def byte_in_def)
  have "is_ascii_graphic (last reason) \<or> last reason = CHR '' ''"
    using assms(3,4) last_in_set[of reason] by (auto simp: list_all_iff)
  then have "chomp (?l @ crlf) = ?l"
    using assms(3) plain by (intro chomp_crlf) auto
  moreover have "CHR 0x00 \<notin> set ?l" "carriage_return \<notin> set ?l"
    using assms(4) graphic(1) plain by (auto simp: list_all_iff)
  ultimately show ?thesis
    using assms words by (simp add: parse_status_line_def Let_def MAX_STATUS_LINE_def crlf_def)
qed

lemma parse_written_status:
  assumes "code \<in> {200, 503}"
  shows "parse_status_line (''HTTP/1.1 '' @ status_line code @ crlf) = Ok code"
    and "newline \<notin> set (''HTTP/1.1 '' @ status_line code @ [carriage_return])"
    and "valid_utf8 (''HTTP/1.1 '' @ status_line code @ crlf)"
proof -
  have "parse_u16 ''200'' = Some 200" "parse_u16 ''503'' = Some 503"
    by (simp_all add: is_ascii_digit_def byte_in_def parse_u16_def parse_unsigned_def digits_value_def digit_value_def)
  then show "parse_status_line (''HTTP/1.1 '' @ status_line code @ crlf) = Ok code"
    using assms parse_status_text[of "''200''" "''OK''"] parse_status_text[of "''503''" "''Service Unavailable''"]
    by (auto simp: status_line_def is_ascii_digit_def is_ascii_graphic_def byte_in_def)
qed (use assms in \<open>auto simp: status_line_def crlf_def valid_utf8_ascii\<close>)

lemma written_status:
  "\<exists>rest. handle_connection to_json prometheus identity probe cs = (''HTTP/1.1 ''
     @ status_line (fst (response_for to_json prometheus (fst (read_request cs)) identity probe)) @ [carriage_return]) @ newline # rest"
  by (cases "response_for to_json prometheus (fst (read_request cs)) identity probe")
    (auto simp: handle_connection_def write_http_def Let_def crlf_def)

lemma probe_response_code:
  "fst (response_for to_json prometheus (RequestOk m (probe_route path)) identity probe)
     = (if path \<in> {''/healthz'', ''/health''} \<or> ready probe then 200 else 503)"
  by (simp add: response_for_def probe_route_def Let_def)

text \<open>
  C17: The probe client and the listener agree. When the connection works, the listener gets the bytes that the
  client sends and the client gets the bytes that the listener answers, each cut into any chunks, a health
  probe exits with 0, and a readiness probe exits with 0 exactly when the product is ready; whatever the identity,
  the product payload, the JSON serialiser and the metrics.
\<close>

theorem probe_exit_is_readiness:
  assumes "path \<in> {''/healthz'', ''/health'', ''/readyz'', ''/ready''}"
    and "tcp_connect peer = Ok ()" and "tcp_timeouts peer = Ok ()" and "tcp_write peer (probe_request path) = Ok ()"
    and "failure server = None" and "delivered server = probe_request path"
    and "failure (tcp_reply peer (probe_request path)) = None"
    and "delivered (tcp_reply peer (probe_request path)) = handle_connection to_json prometheus identity probe server"
  shows "probe_exit peer path = (if path \<in> {''/healthz'', ''/health''} \<or> ready probe then 0 else 1)"
proof -
  define code :: u16 where "code = (if path \<in> {''/healthz'', ''/health''} \<or> ready probe then 200 else 503)"
  obtain rest where "handle_connection to_json prometheus identity probe server
      = (''HTTP/1.1 '' @ status_line code @ [carriage_return]) @ newline # rest"
    using written_status[of to_json prometheus identity probe server]
    unfolding read_probe_request[OF assms(1,5,6)] probe_response_code code_def by blast
  moreover have code: "code \<in> {200, 503}"
    by (simp add: code_def)
  ultimately obtain cs' where "read_line (tcp_reply peer (probe_request path)) = (Ok (''HTTP/1.1 '' @ status_line code @ crlf), cs')"
    using read_line_cons[OF assms(7), of "''HTTP/1.1 '' @ status_line code @ [carriage_return]" rest]
      parse_written_status(2,3)[OF code] assms(8) by (auto simp: crlf_def)
  then have "probe_get peer path = Ok code"
    using assms(1-4) parse_written_status(1)[OF code] by (auto simp: probe_get_def)
  then show ?thesis
    by (simp add: probe_exit_def code_def)
qed

definition sample_listener :: "ProductProbe \<Rightarrow> tcp_peer" where
  "sample_listener probe = \<lparr>tcp_connect = Ok (), tcp_timeouts = Ok (), tcp_write = (\<lambda>_. Ok ()),
     tcp_reply = (\<lambda>req. [Ok (handle_connection (\<lambda>_. None) (\<lambda>_. []) ORES_OTEL probe [Ok req])])\<rparr>"

theorem probe_exit_is_readiness_witness:
  "probe_exit (sample_listener NoopProbe) ''/readyz'' = 0
   \<and> probe_exit (sample_listener (NoopProbe\<lparr>ready := False\<rparr>)) ''/readyz'' = 1
   \<and> probe_exit (sample_listener (NoopProbe\<lparr>ready := False\<rparr>)) ''/healthz'' = 0"
proof -
  have "probe_exit (sample_listener probe) path = (if path \<in> {''/healthz'', ''/health''} \<or> ready probe then 0 else 1)"
    if "path \<in> {''/healthz'', ''/health'', ''/readyz'', ''/ready''}" for path probe
    by (rule probe_exit_is_readiness[OF that, where server = "[Ok (probe_request path)]"])
      (simp_all add: sample_listener_def)
  then show ?thesis
    by (simp add: NoopProbe_def)
qed

end
