(* ===== verification/Sidecar_Answers.thy ===== *)
theory Sidecar_Answers
  imports Sidecar_Http
begin

section \<open>The answers of the listener read back\<close>

text \<open>
  A reference reader of HTTP/1.1 answers: header lines end with CR LF, an empty line ends the head, and \<open>content-length\<close>
  says how many bytes follow. The theorem says that every answer of the listener of \<open>src/src/http.rs\<close> is
  framed for this reader, whatever the request, the product's payload and the metrics contain.
\<close>

subsection \<open>The reader\<close>

fun until_crlf :: "string \<Rightarrow> (string \<times> string) option" where
  "until_crlf (c # d # s) =
     (if c = carriage_return \<and> d = newline then Some ([], s)
      else map_option (\<lambda>(l, r). (c # l, r)) (until_crlf (d # s)))"
| "until_crlf s = None"

lemma until_crlf_length: "until_crlf s = Some (l, r) \<Longrightarrow> length r < length s"
  by (induction s arbitrary: l rule: until_crlf.induct) (auto split: if_splits)

function head_lines :: "string \<Rightarrow> (string list \<times> string) option" where
  "head_lines s =
     (case until_crlf s of
        None \<Rightarrow> None
      | Some (l, r) \<Rightarrow> if l = [] then Some ([], r) else map_option (\<lambda>(ls, b). (l # ls, b)) (head_lines r))"
  by pat_completeness auto
termination
  by (relation "measure length") (auto dest: until_crlf_length)

declare head_lines.simps [simp del]

definition header_field :: "string \<Rightarrow> (string \<times> string) option" where
  "header_field l = map_option (\<lambda>(name, v). (name, tl v)) (split_once (CHR '':'') l)"

definition header_value :: "string \<Rightarrow> string list \<Rightarrow> string option" where
  "header_value name ls = map_of (List.map_filter header_field ls) name"

text \<open>The status, the content type and the body, which must be all of the rest.\<close>

definition read_answer :: "string \<Rightarrow> (string \<times> string \<times> string) option" where
  "read_answer s =
     Option.bind (head_lines s) (\<lambda>(ls, rest).
     case ls of
       [] \<Rightarrow> None
     | status # hs \<Rightarrow>
         Option.bind (strip_prefix ''HTTP/1.1 '' status) (\<lambda>code.
         Option.bind (header_value ''content-type'' hs) (\<lambda>ct.
         Option.bind (header_value ''content-length'' hs) (\<lambda>len.
         if list_all is_ascii_digit len \<and> digits_value len = length rest then Some (code, ct, rest) else None))))"

subsection \<open>Framing\<close>

lemma until_crlf_line: "carriage_return \<notin> set l \<Longrightarrow> until_crlf (l @ crlf @ r) = Some (l, r)"
proof (induction l)
  case (Cons c l)
  then show ?case
    by (cases "l @ crlf @ r") (auto simp: crlf_def)
qed (simp add: crlf_def)

lemma head_lines_joined:
  assumes "list_all (\<lambda>l. l \<noteq> [] \<and> carriage_return \<notin> set l) ls"
  shows "head_lines (concat (map (\<lambda>l. l @ crlf) ls) @ crlf @ b) = Some (ls, b)"
  using assms
proof (induction ls)
  case Nil
  show ?case
    using until_crlf_line [of "[]" b] by (subst head_lines.simps) simp
next
  case (Cons l ls)
  then show ?case
    using until_crlf_line [of l] by (subst head_lines.simps) simp
qed

definition answer_lines :: "u16 \<Rightarrow> string \<Rightarrow> nat \<Rightarrow> string list" where
  "answer_lines code content_type len =
     [''HTTP/1.1 '' @ status_line code, ''content-type: '' @ content_type, ''content-length: '' @ show_nat len,
      ''connection: close'', ''cache-control: no-store'', ''x-content-type-options: nosniff'', ''x-frame-options: DENY'',
      ''content-security-policy: default-src '' @ [CHR 0x27] @ ''none'' @ [CHR 0x27] @ ''; connect-src ''
        @ [CHR 0x27] @ ''self'' @ [CHR 0x27]]"

lemma write_http_lines:
  "write_http code content_type body head_only =
     (let payload = (if head_only then [] else body) in
      concat (map (\<lambda>l. l @ crlf) (answer_lines code content_type (length payload))) @ crlf @ payload)"
  by (simp add: write_http_def answer_lines_def Let_def)

lemma status_line_clean: "carriage_return \<notin> set (status_line code)"
  by (simp add: status_line_def)

lemma show_nat_clean: "carriage_return \<notin> set (show_nat n)"
  using show_nat_digits [of n] by (auto simp: list_all_iff is_ascii_digit_def byte_in_def)

lemma answer_lines_clean:
  "carriage_return \<notin> set content_type \<Longrightarrow>
   list_all (\<lambda>l. l \<noteq> [] \<and> carriage_return \<notin> set l) (answer_lines code content_type len)"
  using status_line_clean show_nat_clean by (simp add: answer_lines_def)

lemma header_field_line: "CHR '':'' \<notin> set name \<Longrightarrow> header_field (name @ CHR '':'' # CHR '' '' # v) = Some (name, v)"
  using split_once_Some_iff [of "CHR '':''" "name @ CHR '':'' # CHR '' '' # v" name "CHR '' '' # v"]
  by (simp add: header_field_def)

lemma answer_fields:
  "header_value ''content-type'' (tl (answer_lines code ct len)) = Some ct"
  "header_value ''content-length'' (tl (answer_lines code ct len)) = Some (show_nat len)"
  using header_field_line [of "''content-type''" ct] header_field_line [of "''content-length''" "show_nat len"]
  by (simp_all add: answer_lines_def header_value_def map_filter_simps)

lemma read_answer_write_http:
  assumes "carriage_return \<notin> set ct"
  shows "read_answer (write_http code ct body head_only) = Some (status_line code, ct, if head_only then [] else body)"
proof -
  define payload where "payload = (if head_only then [] else body)"
  have head: "head_lines (write_http code ct body head_only) = Some (answer_lines code ct (length payload), payload)"
    using head_lines_joined [OF answer_lines_clean [OF assms]] by (simp add: write_http_lines payload_def Let_def)
  obtain hs where lines: "answer_lines code ct (length payload) = (''HTTP/1.1 '' @ status_line code) # hs"
      "tl (answer_lines code ct (length payload)) = hs"
    by (simp add: answer_lines_def)
  have "strip_prefix ''HTTP/1.1 '' (''HTTP/1.1 '' @ status_line code) = Some (status_line code)"
    by (simp add: strip_prefix_def starts_with_def)
  then show ?thesis
    using answer_fields [of code ct "length payload"] show_nat_digits [of "length payload"]
    unfolding read_answer_def head lines(2) by (simp add: lines(1) digits_value_show_nat payload_def [symmetric])
qed

text \<open>The content types are fixed.\<close>

lemma response_type_clean:
  assumes "response_for to_json prometheus request identity probe = (code, ct, body)"
  shows "carriage_return \<notin> set ct"
  using assms
  by (cases request) (auto simp: response_for_def Let_def split: Reject.splits Route.splits)

text \<open>
  C28: Every answer is framed. Whatever bytes arrive on a connection, in whatever chunks, and whatever the identity, the
  product's payload, the JSON serialiser and the metrics produce, the listener writes one answer that the reference
  reader takes apart completely: the status text of the response, its content type, and as many bytes as
  \<open>content-length\<close> announces, which are the response body, or nothing for an accepted \<open>HEAD\<close> request.
\<close>

theorem answers_are_framed:
  "let request = fst (read_request cs); (code, ct, body) = response_for to_json prometheus request identity probe in
   read_answer (handle_connection to_json prometheus identity probe cs) =
     Some (status_line code, ct, case request of RequestOk Head _ \<Rightarrow> [] | _ \<Rightarrow> body)"
proof -
  obtain code ct body where r: "response_for to_json prometheus (fst (read_request cs)) identity probe = (code, ct, body)"
    by (metis prod_cases3)
  show ?thesis
    using read_answer_write_http [OF response_type_clean [OF r]]
    by (auto simp: r handle_connection_def Let_def split: Request.splits Method.splits)
qed

end
