(* ===== verification/Agent_Runtime.thy ===== *)
theory Agent_Runtime
  imports Host_Control Env_Flags
begin

section \<open>The agent process\<close>

text \<open>
  The command line and the main loop of \<open>ores-process-lifecycle-agent\<close>:
  \<open>src/src/process_lifecycle_runtime.rs\<close> and \<open>src/src/bin/ores-process-lifecycle-agent.rs\<close>. The parser of the
  \<open>flags2env\<close> crate is a parameter. \<open>serve_observe_only\<close> never returns in the source; the model gives the
  host after any number of rounds, and the result of \<open>run\<close> is \<open>None\<close> while it serves.
\<close>

datatype LifecycleAgentCommand = Serve | Preflight | ProbeProduct | ProbeHost

record LifecycleAgentInvocation =
  invocation_command :: LifecycleAgentCommand
  invocation_config :: LifecycleAgentConfig

subsection \<open>Command line\<close>

definition parse_command :: "string \<Rightarrow> LifecycleRuntimeError + LifecycleAgentCommand" where
  "parse_command v =
     (if v = [] then Ok Serve
      else if v = ''preflight'' then Ok Preflight
      else if v = ''probe-product'' then Ok ProbeProduct
      else if v = ''probe-host'' then Ok ProbeHost
      else Err InvalidArguments)"

text \<open>The checks of \<open>resolve\<close>, which come before the environment is read.\<close>

definition agent_arguments ::
  "flags2env \<Rightarrow> string list \<Rightarrow> string \<Rightarrow> LifecycleRuntimeError + LifecycleAgentCommand \<times> parsed_flags" where
  "agent_arguments F argv config_path =
     (if \<not> audit_config F config_path then Err InvalidCliConfiguration
      else
        bindR (ok_or InvalidArguments (parse_structured F argv config_path)) (\<lambda>parsed.
        if pf_errors parsed \<noteq> [] \<or> pf_unknown_options parsed \<noteq> [] \<or> pf_extras parsed \<noteq> []
        then Err InvalidArguments
        else bindR (parse_command (pf_command parsed)) (\<lambda>command. Ok (command, parsed))))"

definition resolve ::
  "flags2env \<Rightarrow> string list \<Rightarrow> bindings \<Rightarrow> string \<Rightarrow> LifecycleRuntimeError + LifecycleAgentInvocation" where
  "resolve F argv process_env config_path =
     bindR (agent_arguments F argv config_path) (\<lambda>(command, parsed).
     (let vs = collect_map (pf_flags parsed @ pf_dotenv parsed @ process_env
                 @ pf_dotenv_overrides parsed @ pf_provided_flags parsed) in
      bindR (from_values vs) (\<lambda>config.
      Ok \<lparr>invocation_command = command, invocation_config = config\<rparr>)))"

subsection \<open>Running\<close>

definition observe_round :: "host_json \<Rightarrow> LifecycleAgentConfig \<Rightarrow> 'x host_scheme \<Rightarrow> 'x host_scheme" where
  "observe_round J c w =
     (let w1 = snd (product_status (ProductControlClient_new c) w);
          w2 = snd (host_snapshot J (TrustedHostControlClient_new c) w1)
      in elapse (unat (reconcile_seconds c) * 1000000000) w2)"

fun serve_observe_only :: "nat \<Rightarrow> host_json \<Rightarrow> LifecycleAgentConfig \<Rightarrow> 'x host_scheme \<Rightarrow> 'x host_scheme" where
  "serve_observe_only 0 J c w = w"
| "serve_observe_only (Suc n) J c w = serve_observe_only n J c (observe_round J c w)"

text \<open>An effectful check, then a continuation whose result may be pending.\<close>

definition after ::
  "('w, 'e, 'a) eff \<Rightarrow> ('w \<Rightarrow> ('e + 'b) option \<times> 'w) \<Rightarrow> 'w \<Rightarrow> ('e + 'b) option \<times> 'w" where
  "after m k w = (case m w of (Err e, w') \<Rightarrow> (Some (Err e), w') | (Ok _, w') \<Rightarrow> k w')"

definition finished :: "('w, 'e, 'a) eff \<Rightarrow> 'w \<Rightarrow> ('e + 'a) option \<times> 'w" where
  "finished m w = (case m w of (r, w') \<Rightarrow> (Some r, w'))"

definition run ::
  "nat \<Rightarrow> bool \<Rightarrow> host_json \<Rightarrow> LifecycleAgentInvocation \<Rightarrow> 'x host_scheme \<Rightarrow> (LifecycleRuntimeError + unit) option \<times> 'x host_scheme" where
  "run n target_linux J invocation =
     (let c = invocation_config invocation in
      if invocation_command invocation = Preflight then finished (preflight_host target_linux c)
      else if invocation_command invocation = ProbeProduct then
        finished (bindE (preflight_host target_linux c) (\<lambda>_.
          bindE (product_status (ProductControlClient_new c)) (\<lambda>_. returnE ())))
      else if invocation_command invocation = ProbeHost then
        finished (bindE (preflight_host target_linux c) (\<lambda>_.
          bindE (host_snapshot J (TrustedHostControlClient_new c)) (\<lambda>_. returnE ())))
      else
        after (preflight_host target_linux c) (\<lambda>w.
          if effects_enabled c then (Some (Err MutationRuntimeNotEnabled), w)
          else (None, serve_observe_only n J c w)))"

text \<open>The exit code of the executable, \<open>None\<close> while it serves.\<close>

definition agent_main ::
  "nat \<Rightarrow> bool \<Rightarrow> host_json \<Rightarrow> flags2env \<Rightarrow> string list \<Rightarrow> bindings \<Rightarrow> string \<Rightarrow> 'x host_scheme \<Rightarrow> nat option \<times> 'x host_scheme" where
  "agent_main n target_linux J F argv process_env config_path w =
     (case resolve F argv process_env config_path of
        Err _ \<Rightarrow> (Some 2, w)
      | Ok invocation \<Rightarrow>
          (case run n target_linux J invocation w of
             (None, w') \<Rightarrow> (None, w')
           | (Some (Err _), w') \<Rightarrow> (Some 3, w')
           | (Some (Ok _), w') \<Rightarrow> (Some 0, w')))"

subsection \<open>What the agent does to its host\<close>

text \<open>
  \<open>only_asks c w w'\<close>: between \<open>w\<close> and \<open>w'\<close> no kernel file was written and no file changed, and all that was
  sent are status requests to the product and snapshot requests to the host.
\<close>

definition observation_requests :: "LifecycleAgentConfig \<Rightarrow> (string \<times> bytes) set" where
  "observation_requests c =
     {(product_socket c, ''v1 status'' @ [CHR 0x0A]), (host_control_socket c, ''v2 snapshot'' @ [CHR 0x0A])}"

definition only_asks :: "LifecycleAgentConfig \<Rightarrow> 'x host_scheme \<Rightarrow> 'x host_scheme \<Rightarrow> bool" where
  "only_asks c w w' \<longleftrightarrow> writes w' = writes w \<and> nodes w' = nodes w \<and> history w' = history w
     \<and> (\<exists>ms. sent w' = sent w @ ms \<and> set ms \<subseteq> observation_requests c)"

lemma only_asks_refl: "only_asks c w w"
  by (simp add: only_asks_def)

lemma only_asks_trans: "only_asks c u v \<Longrightarrow> only_asks c v w \<Longrightarrow> only_asks c u w"
  by (fastforce simp: only_asks_def)

lemma only_asks_elapse: "only_asks c w (elapse d w)"
  by (simp add: only_asks_def)

interpretation asking: frame_relation "only_asks c" for c
  by unfold_locales (auto intro: only_asks_refl only_asks_trans)

lemma asks_lstat: "within (only_asks c) (lstat p)"
  by (simp add: within_def lstat_def only_asks_elapse)

lemma asks_product_request:
  "(product_socket_path p, req) \<in> observation_requests c \<Longrightarrow> within (only_asks c) (product_request p req)"
  by (auto simp: within_def only_asks_def product_request_def product_configure_timeouts_def product_write_request_def
      eff_defs unix_connect_def set_timeouts_def stream_write_all_def shutdown_write_def Let_def)

lemma asks_host_request:
  "(host_socket_path k, req) \<in> observation_requests c \<Longrightarrow> within (only_asks c) (host_request k req)"
  by (auto simp: within_def only_asks_def host_request_def host_configure_timeouts_def host_write_request_def
      eff_defs unix_connect_def set_timeouts_def stream_write_all_def shutdown_write_def Let_def)

lemma asks_observations:
  "within (only_asks c) (product_status (ProductControlClient_new c))"
  "within (only_asks c) (host_snapshot J (TrustedHostControlClient_new c))"
  unfolding product_status_def host_snapshot_def
  by (intro asking.within_rules asks_product_request asks_host_request;
      simp add: observation_requests_def ProductControlClient_new_def TrustedHostControlClient_new_def)+

lemma asks_is_file: "within (only_asks c) (is_file p)"
  by (rule withinI) (auto simp: is_file_def dest: withinD [OF asks_lstat] split: prod.splits)

lemma asks_preflight: "within (only_asks c) (preflight_host l d)"
  unfolding preflight_host_def validate_existing_directory_def preflight_socket_def
  by (intro asking.within_rules asks_is_file asks_lstat)

lemma only_asks_round: "only_asks c w (observe_round J c w)"
proof -
  let ?w1 = "snd (product_status (ProductControlClient_new c) w)"
  have "only_asks c w ?w1"
    by (rule within_snd [OF asks_observations(1)])
  moreover have "only_asks c ?w1 (snd (host_snapshot J (TrustedHostControlClient_new c) ?w1))"
    by (rule within_snd [OF asks_observations(2)])
  ultimately show ?thesis
    unfolding observe_round_def Let_def using only_asks_trans only_asks_elapse by blast
qed

lemma only_asks_serve: "only_asks c w (serve_observe_only n J c w)"
proof (induction n arbitrary: w)
  case (Suc n)
  show ?case
    unfolding serve_observe_only.simps by (rule only_asks_trans [OF only_asks_round Suc])
qed (simp add: only_asks_refl)

lemma asks_finished: "within (only_asks c) m \<Longrightarrow> only_asks c w (snd (finished m w))"
  by (auto simp: finished_def dest: withinD split: prod.splits)

lemma only_asks_run: "only_asks (invocation_config i) w (snd (run n l J i w))"
proof (cases "invocation_command i = Serve")
  case True
  obtain r w1 where p: "preflight_host l (invocation_config i) w = (r, w1)"
    by fastforce
  have w1: "only_asks (invocation_config i) w w1"
    by (rule withinD [OF asks_preflight p])
  show ?thesis
    using True p w1 only_asks_trans [OF w1 only_asks_serve]
    by (cases r) (auto simp: run_def after_def Let_def)
next
  case False
  then show ?thesis
    by (cases "invocation_command i")
      (auto simp: run_def Let_def intro!: asks_finished asking.within_rules asks_preflight asks_observations)
qed

lemma preflight_sends_nothing:
  fixes w :: "'x host_scheme"
  shows "sent (snd (preflight_host l c w)) = sent w"
proof -
  have calls: "sent (snd (validate_existing_directory p v)) = sent v" "sent (snd (is_file p v)) = sent v"
      "sent (snd (preflight_socket p v)) = sent v" for p and v :: "'x host_scheme"
    by (auto simp: validate_existing_directory_def is_file_def preflight_socket_def lstat_def eff_defs split: prod.splits sum.splits)
  have bind: "sent (snd (m v)) = sent v \<Longrightarrow> (\<And>a v'. sent (snd (k a v')) = sent v') \<Longrightarrow> sent (snd (bindE m k v)) = sent v"
    for m and k :: "'b \<Rightarrow> ('x, 'c) agent" and v :: "'x host_scheme"
    by (auto simp: bindE_def split: prod.splits sum.splits)
  show ?thesis
    unfolding preflight_host_def by (auto simp: calls returnE_def throwE_def liftE_def intro!: bind)
qed

text \<open>
  C33: The agent only observes. Whatever command it is started with, and for however many rounds it serves, it
  writes no kernel file and no file of the store, and everything it sends is the status request on the
  product socket and the snapshot request on the host socket of its configuration.
\<close>

theorem agent_only_observes:
  "only_asks (invocation_config i) w (snd (run n target_linux J i w))"
  by (rule only_asks_run)

text \<open>
  The agent serves only with effects disabled. A run is still serving, after any number of rounds, exactly
  when it was started without a subcommand, the host passed the preflight and the configuration does not
  enable effects; with effects enabled it ends in an error before it sends anything. A probe or a
  preflight always ends.
\<close>

theorem agent_serves_only_without_effects:
  "if invocation_command i = Serve \<and> effects_enabled (invocation_config i)
   then (\<exists>e. fst (run n target_linux J i w) = Some (Err e)) \<and> sent (snd (run n target_linux J i w)) = sent w
   else fst (run n target_linux J i w) = None \<longleftrightarrow>
     invocation_command i = Serve \<and> fst (preflight_host target_linux (invocation_config i) w) = Ok ()"
proof -
  show ?thesis
    using preflight_sends_nothing [of target_linux "invocation_config i" w]
    by (cases "invocation_command i") (auto simp: run_def after_def finished_def Let_def split: prod.splits sum.splits)
qed

text \<open>
  Later sources win. An accepted command line was parsed without errors, unknown options and extra
  arguments; its configuration is the one of the values in which an explicit flag overrides the dotenv
  overrides, these the process environment, this the dotenv file, and that the flag defaults; and it is
  well formed.
\<close>

theorem resolved_configuration_precedence:
  assumes "resolve F argv env path = Ok i"
  shows "\<exists>p vs. parse_structured F argv path = Some p \<and> pf_errors p @ pf_unknown_options p @ pf_extras p = []
    \<and> from_values vs = Ok (invocation_config i) \<and> well_formed_config (invocation_config i)
    \<and> (\<forall>k. vs k = (case collect_map (pf_provided_flags p) k of Some v \<Rightarrow> Some v | None \<Rightarrow>
         (case collect_map (pf_dotenv_overrides p) k of Some v \<Rightarrow> Some v | None \<Rightarrow>
         (case collect_map env k of Some v \<Rightarrow> Some v | None \<Rightarrow>
         (case collect_map (pf_dotenv p) k of Some v \<Rightarrow> Some v | None \<Rightarrow> collect_map (pf_flags p) k)))))"
proof -
  obtain p where p: "parse_structured F argv path = Some p" "pf_errors p @ pf_unknown_options p @ pf_extras p = []"
      "from_values (collect_map (pf_flags p @ pf_dotenv p @ env @ pf_dotenv_overrides p @ pf_provided_flags p))
        = Ok (invocation_config i)"
    using assms by (auto simp: resolve_def agent_arguments_def bindR_Ok_iff Let_def split: if_splits)
  have "collect_map (pf_flags p @ pf_dotenv p @ env @ pf_dotenv_overrides p @ pf_provided_flags p) k =
      (case collect_map (pf_provided_flags p) k of Some v \<Rightarrow> Some v | None \<Rightarrow>
      (case collect_map (pf_dotenv_overrides p) k of Some v \<Rightarrow> Some v | None \<Rightarrow>
      (case collect_map env k of Some v \<Rightarrow> Some v | None \<Rightarrow>
      (case collect_map (pf_dotenv p) k of Some v \<Rightarrow> Some v | None \<Rightarrow> collect_map (pf_flags p) k))))" for k
    by (auto simp: collect_map_def map_add_def split: option.splits)
  moreover have "well_formed_config (invocation_config i)"
    using from_values_well_formed [OF p(3)] .
  ultimately show ?thesis
    using p by blast
qed

definition sample_flags2env :: flags2env where
  "sample_flags2env =
     \<lparr>audit_config = (\<lambda>_. True),
      parse_structured = (\<lambda>_ _. Some
        \<lparr>pf_command = ''probe-host'', pf_errors = [], pf_unknown_options = [], pf_extras = [],
         pf_flags = [(''ORES_PROCESS_LIFECYCLE_PRODUCT'', ''other'')], pf_dotenv = [],
         pf_dotenv_overrides = [], pf_provided_flags = []\<rparr>)\<rparr>"

lemma sample_collect: "collect_map ([(''ORES_PROCESS_LIFECYCLE_PRODUCT'', ''other'')] @ sample_bindings) = sample_values"
proof -
  have d: "distinct (map fst sample_bindings)"
    by (simp add: sample_bindings_def)
  have "map_of (rev sample_bindings) = map_of sample_bindings"
    by (subst map_of_inject_set) (use d in \<open>simp_all add: rev_map [symmetric]\<close>)
  moreover have "map_of sample_bindings ''ORES_PROCESS_LIFECYCLE_PRODUCT'' \<noteq> None"
    by (simp add: sample_bindings_def)
  ultimately show ?thesis
    by (auto simp: collect_map_def sample_values_def fun_eq_iff map_add_def split: option.splits)
qed

lemma sample_resolves:
  "resolve sample_flags2env [] sample_bindings ''f'' = Ok \<lparr>invocation_command = ProbeHost, invocation_config = sample_config\<rparr>"
  using sample_collect sample_values_accepted
  by (simp add: resolve_def agent_arguments_def sample_flags2env_def parse_command_def Let_def)

theorem resolved_configuration_precedence_witness:
  "resolve sample_flags2env [] sample_bindings ''f'' = Ok \<lparr>invocation_command = ProbeHost, invocation_config = sample_config\<rparr>
   \<and> well_formed_config sample_config"
  using resolved_configuration_precedence [OF sample_resolves] sample_resolves by auto

end
