(* ===== verification/Runtime_Values.thy ===== *)
theory Runtime_Values
  imports Rust_Str "HOL-Library.Finite_Map" "HOL-Library.List_Lexorder" "HOL-Library.Char_ord"
begin

section \<open>Runtime values of the sidecar\<close>

text \<open>
  \<open>src/src/error.rs\<close> and \<open>src/src/runtime_values.rs\<close>. A \<open>BTreeMap\<close> is a finite map and a \<open>BTreeSet\<close> a finite
  set; their iteration in key order, which decides the error that is reported first, is the sorted list
  of the map (strings are byte strings, compared byte by byte as Rust compares them). The value of the
  \<open>RwLock\<close> is a field of the record, next to the flag that says whether the lock is poisoned; a method that
  changes the value returns the next record.

  The theorems say that the overrides always stay within the declared, non-sensitive and bounded keys, that
  a rejected patch changes nothing, and what a lookup returns after a patch.
\<close>

datatype SidecarError =
    InvalidBind string | UnresolvedBind string | NonLoopbackBind string | InvalidConfig string
  | MissingSidecar string | RuntimeUpdateRejected string | RuntimeStateUnavailable | SidecarIo string

definition MAX_RUNTIME_KEYS :: nat where
  "MAX_RUNTIME_KEYS = 64"

definition MAX_RUNTIME_KEY_BYTES :: nat where
  "MAX_RUNTIME_KEY_BYTES = 128"

definition MAX_RUNTIME_VALUE_BYTES :: nat where
  "MAX_RUNTIME_VALUE_BYTES = 16 * 1024"

type_synonym value_map = "(string, string) fmap"

record RuntimeValueUpdate =
  update_key :: string
  update_value :: "string option"

definition update_set :: "string \<Rightarrow> string \<Rightarrow> RuntimeValueUpdate" where
  "update_set k v = \<lparr>update_key = k, update_value = Some v\<rparr>"

definition update_remove :: "string \<Rightarrow> RuntimeValueUpdate" where
  "update_remove k = \<lparr>update_key = k, update_value = None\<rparr>"

record RuntimeValues =
  mutable :: "string fset"
  baseline :: value_map
  overrides :: value_map
  overrides_poisoned :: bool

definition RuntimeValues_default :: RuntimeValues where
  "RuntimeValues_default = \<lparr>mutable = {||}, baseline = fmempty, overrides = fmempty, overrides_poisoned = False\<rparr>"

lemma update_sel [simp]:
  "update_key (update_set k s) = k" "update_value (update_set k s) = Some s"
  "update_key (update_remove k) = k" "update_value (update_remove k) = None"
  by (simp_all add: update_set_def update_remove_def)

subsection \<open>Keys\<close>

definition SENSITIVE_PARTS :: "string list" where
  "SENSITIVE_PARTS = [''PASSWORD'', ''PASS'', ''TOKEN'', ''SECRET'', ''CREDENTIAL'', ''CREDENTIALS'', ''COOKIE'',
     ''PRIVATE'', ''AUTHORIZATION'']"

definition is_sensitive_runtime_key :: "string \<Rightarrow> bool" where
  "is_sensitive_runtime_key key \<longleftrightarrow>
     (if key \<in> {''REDIS_URL'', ''DATABASE_URL''} \<or> ends_with ''_DSN'' key \<or> ends_with ''_KEY'' key then True
      else list_ex (\<lambda>part. part \<in> set SENSITIVE_PARTS) (split_byte (CHR ''_'') key))"

definition validate_runtime_key :: "string \<Rightarrow> SidecarError + unit" where
  "validate_runtime_key key =
     (let valid_shape = key \<noteq> [] \<and> length key \<le> MAX_RUNTIME_KEY_BYTES
            \<and> (is_ascii_uppercase (hd key) \<or> hd key = CHR ''_'')
            \<and> list_all (\<lambda>b. is_ascii_uppercase b \<or> is_ascii_digit b \<or> b = CHR ''_'') key in
      if \<not> valid_shape \<or> is_sensitive_runtime_key key then Err (RuntimeUpdateRejected key) else Ok ())"

definition validate_update :: "string fset \<Rightarrow> string \<Rightarrow> string option \<Rightarrow> SidecarError + unit" where
  "validate_update allowed key val =
     bindR (validate_runtime_key key) (\<lambda>_.
     if key |\<notin>| allowed then Err (RuntimeUpdateRejected key)
     else if (case val of None \<Rightarrow> False | Some v \<Rightarrow> length v > MAX_RUNTIME_VALUE_BYTES)
     then Err (RuntimeUpdateRejected key)
     else Ok ())"

subsection \<open>Maps\<close>

text \<open>Collecting pairs into a map: a later pair replaces an earlier one.\<close>

definition fmap_collect :: "('a \<times> 'b) list \<Rightarrow> ('a, 'b) fmap" where
  "fmap_collect kvs = fmap_of_list (rev kvs)"

definition layered :: "value_map \<Rightarrow> value_map \<Rightarrow> value_map" where
  "layered base overlay = fmfilter (\<lambda>k. k |\<notin>| fmdom overlay) base ++\<^sub>f overlay"

definition update_pair :: "RuntimeValueUpdate \<Rightarrow> (string \<times> string) option" where
  "update_pair u = map_option (Pair (update_key u)) (update_value u)"

definition patched :: "value_map \<Rightarrow> RuntimeValueUpdate list \<Rightarrow> value_map" where
  "patched current updates =
     fmfilter (\<lambda>k. \<not> list_ex (\<lambda>u. update_key u = k) updates) current
       ++\<^sub>f fmap_collect (List.map_filter update_pair updates)"

subsection \<open>Operations\<close>

definition admit_mutable :: "string fset \<Rightarrow> string \<Rightarrow> SidecarError + string fset" where
  "admit_mutable allowed key =
     bindR (validate_runtime_key key) (\<lambda>_.
     if fcard allowed \<ge> MAX_RUNTIME_KEYS \<or> key |\<in>| allowed
     then Err (InvalidConfig ''runtime mutable keys must be unique and bounded'')
     else Ok (finsert key allowed))"

definition admit_baseline :: "string fset \<Rightarrow> value_map \<Rightarrow> string \<times> string \<Rightarrow> SidecarError + value_map" where
  "admit_baseline allowed base kv =
     bindR (validate_update allowed (fst kv) (Some (snd kv))) (\<lambda>_.
     if fcard (fmdom base) \<ge> MAX_RUNTIME_KEYS \<or> fst kv |\<in>| fmdom base
     then Err (InvalidConfig ''runtime baseline values must be unique and bounded'')
     else Ok (fmupd (fst kv) (snd kv) base))"

definition RuntimeValues_new :: "string list \<Rightarrow> (string \<times> string) list \<Rightarrow> SidecarError + RuntimeValues" where
  "RuntimeValues_new keys initial =
     bindR (try_fold admit_mutable {||} keys) (\<lambda>allowed.
     bindR (try_fold (admit_baseline allowed) fmempty initial) (\<lambda>base.
     Ok \<lparr>mutable = allowed, baseline = base, overrides = fmempty, overrides_poisoned = False\<rparr>))"

definition is_mutable :: "RuntimeValues \<Rightarrow> string \<Rightarrow> bool" where
  "is_mutable v key \<longleftrightarrow> key |\<in>| mutable v"

definition values_get :: "RuntimeValues \<Rightarrow> string \<Rightarrow> SidecarError + string option" where
  "values_get v key =
     (if overrides_poisoned v then Err RuntimeStateUnavailable
      else Ok (case fmlookup (overrides v) key of Some s \<Rightarrow> Some s | None \<Rightarrow> fmlookup (baseline v) key))"

definition values_snapshot :: "RuntimeValues \<Rightarrow> SidecarError + value_map" where
  "values_snapshot v =
     (if overrides_poisoned v then Err RuntimeStateUnavailable else Ok (layered (baseline v) (overrides v)))"

definition admit_patch_key :: "string fset \<Rightarrow> string fset \<Rightarrow> RuntimeValueUpdate \<Rightarrow> SidecarError + string fset" where
  "admit_patch_key allowed seen u =
     (if update_key u |\<in>| seen then Err (RuntimeUpdateRejected (update_key u))
      else bindR (validate_update allowed (update_key u) (update_value u)) (\<lambda>_. Ok (finsert (update_key u) seen)))"

definition validate_patch :: "RuntimeValues \<Rightarrow> RuntimeValueUpdate list \<Rightarrow> SidecarError + unit" where
  "validate_patch v updates =
     (if length updates > MAX_RUNTIME_KEYS
      then Err (InvalidConfig ''runtime patch exceeds the bounded key count'')
      else bindR (try_fold (admit_patch_key (mutable v)) {||} updates) (\<lambda>_. Ok ()))"

definition apply_patch :: "RuntimeValues \<Rightarrow> RuntimeValueUpdate list \<Rightarrow> SidecarError + RuntimeValues" where
  "apply_patch v updates =
     bindR (validate_patch v updates) (\<lambda>_.
     if overrides_poisoned v then Err RuntimeStateUnavailable
     else Ok (v\<lparr>overrides := patched (overrides v) updates\<rparr>))"

definition replace_overrides :: "RuntimeValues \<Rightarrow> value_map \<Rightarrow> SidecarError + RuntimeValues" where
  "replace_overrides v nxt =
     (if fcard (fmdom nxt) > MAX_RUNTIME_KEYS
      then Err (InvalidConfig ''runtime override set exceeds the bounded key count'')
      else
        bindR (check_all (\<lambda>(k, s). validate_update (mutable v) k (Some s)) (sorted_list_of_fmap nxt)) (\<lambda>_.
        if overrides_poisoned v then Err RuntimeStateUnavailable
        else Ok (v\<lparr>overrides := nxt\<rparr>)))"

subsection \<open>The invariant\<close>

text \<open>A map that only holds declared keys and bounded values.\<close>

definition admissible :: "string fset \<Rightarrow> value_map \<Rightarrow> bool" where
  "admissible allowed m \<longleftrightarrow> fmdom m |\<subseteq>| allowed \<and> (\<forall>k v. fmlookup m k = Some v \<longrightarrow> length v \<le> MAX_RUNTIME_VALUE_BYTES)"

definition declared :: "string fset \<Rightarrow> bool" where
  "declared allowed \<longleftrightarrow> fcard allowed \<le> MAX_RUNTIME_KEYS \<and> (\<forall>k. k |\<in>| allowed \<longrightarrow> validate_runtime_key k = Ok ())"

definition values_ok :: "RuntimeValues \<Rightarrow> bool" where
  "values_ok v \<longleftrightarrow> declared (mutable v) \<and> admissible (mutable v) (baseline v) \<and> admissible (mutable v) (overrides v)"

lemma validate_update_Ok_iff:
  "validate_update allowed k v = Ok () \<longleftrightarrow> validate_runtime_key k = Ok () \<and> k |\<in>| allowed
     \<and> (\<forall>s. v = Some s \<longrightarrow> length s \<le> MAX_RUNTIME_VALUE_BYTES)"
  by (auto simp: validate_update_def bindR_Ok_iff split: option.splits)

lemma validate_runtime_key_not_sensitive: "validate_runtime_key k = Ok () \<Longrightarrow> \<not> is_sensitive_runtime_key k"
  by (simp add: validate_runtime_key_def Let_def split: if_splits)

lemma declaredD: "\<lbrakk>declared allowed; k |\<in>| allowed\<rbrakk> \<Longrightarrow> validate_runtime_key k = Ok ()"
  by (simp add: declared_def)

lemma admissible_empty [simp]: "admissible allowed fmempty"
  by (simp add: admissible_def)

lemma admissible_bounded:
  assumes "declared allowed" and "admissible allowed m"
  shows "fcard (fmdom m) \<le> MAX_RUNTIME_KEYS"
  using assms fcard_mono[of "fmdom m" allowed] by (simp add: declared_def admissible_def)

lemma admit_mutable_declared:
  "\<lbrakk>admit_mutable allowed k = Ok allowed'; declared allowed\<rbrakk> \<Longrightarrow> declared allowed'"
  by (auto simp: admit_mutable_def bindR_Ok_iff declared_def fcard_finsert_if split: if_splits)

lemma admit_baseline_admissible:
  "\<lbrakk>admit_baseline allowed m kv = Ok m'; admissible allowed m\<rbrakk> \<Longrightarrow> admissible allowed m'"
  by (auto simp: admit_baseline_def bindR_Ok_iff admissible_def validate_update_Ok_iff split: if_splits)

lemma try_fold_declared:
  "\<lbrakk>try_fold admit_mutable allowed ks = Ok allowed'; declared allowed\<rbrakk> \<Longrightarrow> declared allowed'"
  by (erule try_fold_invariant) (auto intro: admit_mutable_declared)

lemma try_fold_admissible:
  "\<lbrakk>try_fold (admit_baseline allowed) m kvs = Ok m'; admissible allowed m\<rbrakk> \<Longrightarrow> admissible allowed m'"
  by (erule try_fold_invariant) (auto intro: admit_baseline_admissible)

lemma declared_empty [simp]: "declared {||}"
  by (simp add: declared_def fcard_fempty)

lemma new_values_ok: "RuntimeValues_new ks kvs = Ok v \<Longrightarrow> values_ok v \<and> overrides v = fmempty \<and> \<not> overrides_poisoned v"
  by (auto simp: RuntimeValues_new_def bindR_Ok_iff values_ok_def dest: try_fold_declared try_fold_admissible)

lemma new_values_mutable: "RuntimeValues_new ks kvs = Ok v \<Longrightarrow> fset (mutable v) = set ks"
proof -
  have "try_fold admit_mutable a ks = Ok b \<Longrightarrow> fset b = fset a \<union> set ks" for a b
    by (induction ks arbitrary: a) (auto simp: bindR_Ok_iff admit_mutable_def split: if_splits)
  then show "RuntimeValues_new ks kvs = Ok v \<Longrightarrow> fset (mutable v) = set ks"
    by (auto simp: RuntimeValues_new_def bindR_Ok_iff)
qed

subsection \<open>Patches\<close>

text \<open>What a patch means: the update of a key decides, and keys without an update keep their value.\<close>

definition update_of :: "RuntimeValueUpdate list \<Rightarrow> string \<Rightarrow> RuntimeValueUpdate option" where
  "update_of us k = List.find (\<lambda>u. update_key u = k) us"

lemma admit_patch_keys_Ok_iff:
  "(\<exists>seen'. try_fold (admit_patch_key allowed) seen us = Ok seen') \<longleftrightarrow>
     distinct (map update_key us) \<and> (\<forall>u\<in>set us. update_key u |\<notin>| seen)
     \<and> (\<forall>u\<in>set us. validate_update allowed (update_key u) (update_value u) = Ok ())"
  by (induction us arbitrary: seen) (auto simp: admit_patch_key_def bindR_Ok_iff image_iff split: if_splits)

lemma validate_patch_Ok_iff:
  "validate_patch v us = Ok () \<longleftrightarrow> length us \<le> MAX_RUNTIME_KEYS \<and> distinct (map update_key us)
     \<and> (\<forall>u\<in>set us. validate_update (mutable v) (update_key u) (update_value u) = Ok ())"
  using admit_patch_keys_Ok_iff[of "mutable v" "{||}" us] by (auto simp: validate_patch_def bindR_Ok_iff)

lemma update_of_simps [simp]:
  "update_of [] k = None"
  "update_of (u # us) k = (if update_key u = k then Some u else update_of us k)"
  by (simp_all add: update_of_def)

lemma update_of_None_iff: "update_of us k = None \<longleftrightarrow> k \<notin> update_key ` set us"
  by (induction us) auto

lemma update_of_SomeD: "update_of us k = Some u \<Longrightarrow> u \<in> set us \<and> update_key u = k"
  by (induction us) (auto split: if_splits)

lemma map_of_updates:
  assumes "distinct (map update_key us)"
  shows "map_of (rev (List.map_filter update_pair us)) k = Option.bind (update_of us k) update_value"
  using assms
proof (induction us)
  case (Cons u us)
  then have "update_of us (update_key u) = None"
    by (simp add: update_of_None_iff)
  with Cons show ?case
    by (auto simp: update_pair_def map_filter_simps map_add_def split: option.splits)
qed (simp add: map_filter_simps)

lemma lookup_patched:
  assumes "distinct (map update_key us)"
  shows "fmlookup (patched m us) k = (case update_of us k of None \<Rightarrow> fmlookup m k | Some u \<Rightarrow> update_value u)"
proof -
  have "list_ex (\<lambda>u. update_key u = k) us \<longleftrightarrow> update_of us k \<noteq> None"
    by (auto simp: list_ex_iff update_of_None_iff)
  then show ?thesis
    by (auto simp: patched_def fmap_collect_def fmadd.rep_eq fmap_of_list.rep_eq map_add_def map_of_updates[OF assms]
        simp del: fmlookup_add split: option.splits)
qed

lemma lookup_layered: "fmlookup (layered b m) k = (case fmlookup m k of None \<Rightarrow> fmlookup b k | Some s \<Rightarrow> Some s)"
  by (auto simp: layered_def fmdom_notI split: option.splits dest: fmdomI)

lemma get_is_snapshot_lookup: "values_get v k = (case values_snapshot v of Err e \<Rightarrow> Err e | Ok m \<Rightarrow> Ok (fmlookup m k))"
  by (simp add: values_get_def values_snapshot_def lookup_layered split: option.splits)

lemma apply_patch_Ok_iff:
  "apply_patch v us = Ok v' \<longleftrightarrow> validate_patch v us = Ok () \<and> \<not> overrides_poisoned v
     \<and> v' = v\<lparr>overrides := patched (overrides v) us\<rparr>"
  by (auto simp: apply_patch_def bindR_Ok_iff)

lemma map_fst_sorted_list_of_fmap [simp]: "map fst (sorted_list_of_fmap m) = sorted_list_of_fset (fmdom m)"
  by (simp add: sorted_list_of_fmap_def comp_def)

lemma length_sorted_list_of_fmap [simp]: "length (sorted_list_of_fmap m) = fcard (fmdom m)"
  by (simp add: sorted_list_of_fmap_def sorted_list_of_fset.rep_eq fcard.rep_eq)

lemma set_sorted_list_of_fmap: "set (sorted_list_of_fmap m) = {(k, s). fmlookup m k = Some s}"
  by (auto simp: sorted_list_of_fmap_def image_iff intro: fmdomI dest!: fmlookup_dom_iff[THEN iffD1])

lemma replace_overrides_Ok_iff:
  "replace_overrides v m = Ok v' \<longleftrightarrow> fcard (fmdom m) \<le> MAX_RUNTIME_KEYS
     \<and> (\<forall>k s. fmlookup m k = Some s \<longrightarrow> validate_update (mutable v) k (Some s) = Ok ())
     \<and> \<not> overrides_poisoned v \<and> v' = v\<lparr>overrides := m\<rparr>"
  by (auto simp: replace_overrides_def bindR_Ok_iff check_all_Ok_iff set_sorted_list_of_fmap split: if_splits)

lemma patched_admissible:
  assumes "admissible (mutable v) m" and "validate_patch v us = Ok ()"
  shows "admissible (mutable v) (patched m us)"
proof -
  have "k |\<in>| mutable v \<and> length s \<le> MAX_RUNTIME_VALUE_BYTES" if "fmlookup (patched m us) k = Some s" for k s
    using that assms
    by (auto simp: validate_patch_Ok_iff lookup_patched admissible_def validate_update_Ok_iff
        split: option.splits dest!: update_of_SomeD dest: fmdomI)
  then show ?thesis
    by (auto simp: admissible_def fmlookup_dom_iff)
qed

lemma apply_patch_ok: "\<lbrakk>apply_patch v us = Ok v'; values_ok v\<rbrakk> \<Longrightarrow> values_ok v'"
  by (auto simp: apply_patch_Ok_iff values_ok_def intro: patched_admissible)

lemma replace_overrides_ok: "\<lbrakk>replace_overrides v m = Ok v'; values_ok v\<rbrakk> \<Longrightarrow> values_ok v'"
  by (auto simp: replace_overrides_Ok_iff values_ok_def admissible_def validate_update_Ok_iff fmlookup_dom_iff)

lemma replace_overrides_Ok_declared:
  assumes "values_ok v"
  shows "replace_overrides v m = Ok v' \<longleftrightarrow>
     admissible (mutable v) m \<and> \<not> overrides_poisoned v \<and> v' = v\<lparr>overrides := m\<rparr>"
  using assms admissible_bounded[of "mutable v" m]
  by (auto simp: replace_overrides_Ok_iff values_ok_def validate_update_Ok_iff admissible_def fmlookup_dom_iff
      dest: declaredD fmdomI)

text \<open>
  C24: A patch of the runtime values is all or nothing, and means what it says. For values that respect the
  invariant, a patch is accepted exactly when the lock is not poisoned, the patch has at most 64 updates of
  distinct declared keys, and no new value exceeds 16 KiB. After an accepted patch the invariant holds again, and
  every lookup returns the new value of a key that is set, the configured baseline value of a key that is
  removed, and the old answer for a key that the patch does not name.
\<close>

theorem patch_is_atomic_and_exact:
  assumes "values_ok v"
  shows "((\<exists>v'. apply_patch v us = Ok v') \<longleftrightarrow> \<not> overrides_poisoned v \<and> length us \<le> MAX_RUNTIME_KEYS
      \<and> distinct (map update_key us) \<and> (\<forall>u\<in>set us. update_key u |\<in>| mutable v)
      \<and> (\<forall>u\<in>set us. \<forall>s. update_value u = Some s \<longrightarrow> length s \<le> MAX_RUNTIME_VALUE_BYTES))
    \<and> (\<forall>v'. apply_patch v us = Ok v' \<longrightarrow> values_ok v' \<and> mutable v' = mutable v \<and> baseline v' = baseline v
      \<and> (\<forall>k. values_get v' k = (case update_of us k of
          None \<Rightarrow> values_get v k
        | Some u \<Rightarrow> Ok (case update_value u of Some s \<Rightarrow> Some s | None \<Rightarrow> fmlookup (baseline v) k))))"
proof (intro conjI allI impI)
  have "validate_runtime_key k = Ok ()" if "k |\<in>| mutable v" for k
    using that assms by (auto simp: values_ok_def dest: declaredD)
  then show "(\<exists>v'. apply_patch v us = Ok v') \<longleftrightarrow> \<not> overrides_poisoned v \<and> length us \<le> MAX_RUNTIME_KEYS
      \<and> distinct (map update_key us) \<and> (\<forall>u\<in>set us. update_key u |\<in>| mutable v)
      \<and> (\<forall>u\<in>set us. \<forall>s. update_value u = Some s \<longrightarrow> length s \<le> MAX_RUNTIME_VALUE_BYTES)"
    by (auto simp: apply_patch_Ok_iff validate_patch_Ok_iff validate_update_Ok_iff)
qed (use assms in \<open>auto simp: apply_patch_Ok_iff validate_patch_Ok_iff values_get_def lookup_patched
    intro: apply_patch_ok split: option.splits\<close>)

subsection \<open>What holders of a handle can do\<close>

text \<open>
  A handle is shared by the controller and the application. The locale is the contract that they rely on: a step
  through the handle keeps the invariant and the declared keys, and only declared keys can be read. Then no number
  of steps makes another key readable.
\<close>

locale guarded_handle =
  fixes step :: "'v \<Rightarrow> 'v \<Rightarrow> bool" and inv :: "'v \<Rightarrow> bool" and keys :: "'v \<Rightarrow> string fset"
    and lookup :: "'v \<Rightarrow> string \<Rightarrow> 'e + string option"
  assumes step_inv: "step v v' \<Longrightarrow> inv v \<Longrightarrow> inv v' \<and> keys v' = keys v"
    and lookup_declared: "inv v \<Longrightarrow> lookup v k = Ok (Some s) \<Longrightarrow> k |\<in>| keys v \<and> length s \<le> MAX_RUNTIME_VALUE_BYTES"
    and keys_declared: "inv v \<Longrightarrow> declared (keys v)"
begin

lemma steps_inv: "step\<^sup>*\<^sup>* v v' \<Longrightarrow> inv v \<Longrightarrow> inv v' \<and> keys v' = keys v"
  by (induction rule: rtranclp_induct) (use step_inv in auto)

lemma steps_lookup:
  assumes "step\<^sup>*\<^sup>* v v'" and "inv v" and "lookup v' k = Ok (Some s)"
  shows "k |\<in>| keys v \<and> validate_runtime_key k = Ok () \<and> \<not> is_sensitive_runtime_key k \<and> length s \<le> MAX_RUNTIME_VALUE_BYTES"
  using steps_inv [OF assms(1,2)] lookup_declared [OF _ assms(3)] keys_declared [of v] assms(2)
  by (auto dest: declaredD validate_runtime_key_not_sensitive)

end

text \<open>The operations of the handle that change a value.\<close>

definition handle_step :: "RuntimeValues \<Rightarrow> RuntimeValues \<Rightarrow> bool" where
  "handle_step v v' \<longleftrightarrow> (\<exists>us. apply_patch v us = Ok v') \<or> (\<exists>m. replace_overrides v m = Ok v')"

lemma handle_stepI:
  "apply_patch v us = Ok v' \<Longrightarrow> handle_step v v'" "replace_overrides v m = Ok v' \<Longrightarrow> handle_step v v'"
  by (auto simp: handle_step_def)

interpretation value_handle: guarded_handle handle_step values_ok mutable values_get
proof
  show "values_ok v' \<and> mutable v' = mutable v" if "handle_step v v'" "values_ok v" for v v'
    using that apply_patch_ok replace_overrides_ok
    by (auto simp: handle_step_def apply_patch_Ok_iff replace_overrides_Ok_iff)
  show "k |\<in>| mutable v \<and> length s \<le> MAX_RUNTIME_VALUE_BYTES" if "values_ok v" "values_get v k = Ok (Some s)" for v k s
    using that by (auto simp: values_get_def values_ok_def admissible_def split: if_splits option.splits dest: fmdomI)
qed (simp add: values_ok_def)

definition sample_runtime_values :: RuntimeValues where
  "sample_runtime_values = \<lparr>mutable = {|''LOG_FILTER'', ''REQUEST_TIMEOUT_MS''|},
     baseline = fmap_of_list [(''LOG_FILTER'', ''info'')], overrides = fmempty, overrides_poisoned = False\<rparr>"

lemma sample_runtime_keys:
  "validate_runtime_key ''LOG_FILTER'' = Ok ()" "validate_runtime_key ''REQUEST_TIMEOUT_MS'' = Ok ()"
  by (simp_all add: validate_runtime_key_def is_sensitive_runtime_key_def SENSITIVE_PARTS_def MAX_RUNTIME_KEY_BYTES_def
      ends_with_def is_ascii_uppercase_def is_ascii_digit_def byte_in_def)

lemma sample_runtime_values_new:
  "RuntimeValues_new [''REQUEST_TIMEOUT_MS'', ''LOG_FILTER''] [(''LOG_FILTER'', ''info'')] = Ok sample_runtime_values"
  by (simp add: RuntimeValues_new_def admit_mutable_def admit_baseline_def validate_update_def sample_runtime_keys
      MAX_RUNTIME_KEYS_def MAX_RUNTIME_VALUE_BYTES_def sample_runtime_values_def fcard_finsert_if fcard_fempty)

theorem patch_is_atomic_and_exact_witness:
  "\<exists>v'. apply_patch sample_runtime_values [update_set ''LOG_FILTER'' ''debug''] = Ok v'
     \<and> values_get v' ''LOG_FILTER'' = Ok (Some ''debug'')
     \<and> (\<exists>v''. apply_patch v' [update_remove ''LOG_FILTER''] = Ok v''
          \<and> values_get v'' ''LOG_FILTER'' = Ok (Some ''info''))"
proof -
  have ok: "values_ok sample_runtime_values"
    using new_values_ok[OF sample_runtime_values_new] by simp
  from patch_is_atomic_and_exact[OF ok, of "[update_set ''LOG_FILTER'' ''debug'']"]
  obtain v' where v': "apply_patch sample_runtime_values [update_set ''LOG_FILTER'' ''debug''] = Ok v'"
    "values_ok v'" "values_get v' ''LOG_FILTER'' = Ok (Some ''debug'')" 
    "mutable v' = mutable sample_runtime_values" "baseline v' = baseline sample_runtime_values" "\<not> overrides_poisoned v'"
    by (auto simp: update_set_def sample_runtime_values_def MAX_RUNTIME_KEYS_def MAX_RUNTIME_VALUE_BYTES_def
        apply_patch_Ok_iff)
  from patch_is_atomic_and_exact[OF v'(2), of "[update_remove ''LOG_FILTER'']"] v'
  obtain v'' where "apply_patch v' [update_remove ''LOG_FILTER''] = Ok v''"
    "values_get v'' ''LOG_FILTER'' = Ok (Some ''info'')"
    by (auto simp: update_remove_def sample_runtime_values_def MAX_RUNTIME_KEYS_def fmap_of_list.rep_eq)
  with v' show ?thesis
    by blast
qed

end
