(* ===== verification/Runtime_Updates.thy ===== *)
theory Runtime_Updates
  imports Runtime_Values
begin

section \<open>Backend updates of the runtime values\<close>

text \<open>
  \<open>src/src/runtime_updates.rs\<close>: the reducer that applies revisioned snapshots and events of a backend to
  the runtime values. The \<open>Mutex\<close> of the controller is a field next to its poison flag, and the controller owns
  the values whose handle it shares. A call returns the outcome with the next controller; an error returns no
  controller, because the code returns before it assigns anything. The two \<open>unreachable!\<close> arms are the value
  \<open>None\<close>, so that their absence is a theorem.

  The specification is a backend with one map per revision, of which the controller sees any subsequence of
  the snapshots and events, in any order and with repetitions, while the application patches the shared
  values on its own.
\<close>

definition MAX_SAFE_RUNTIME_REVISION :: u64 where
  "MAX_SAFE_RUNTIME_REVISION = 9007199254740991"

definition MAX_RUNTIME_KEYSPACE_SEGMENT_BYTES :: nat where
  "MAX_RUNTIME_KEYSPACE_SEGMENT_BYTES = 64"

record RuntimeUpdateTarget =
  target_namespace :: string
  target_cache :: string

definition valid_keyspace_segment :: "string \<Rightarrow> bool" where
  "valid_keyspace_segment s \<longleftrightarrow> s \<noteq> [] \<and> length s \<le> MAX_RUNTIME_KEYSPACE_SEGMENT_BYTES
     \<and> list_all (\<lambda>b. is_ascii_alphanumeric b \<or> b \<in> {CHR ''-'', CHR ''_'', CHR ''.''}) s"

definition RuntimeUpdateTarget_new :: "string \<Rightarrow> string \<Rightarrow> SidecarError + RuntimeUpdateTarget" where
  "RuntimeUpdateTarget_new ns ca =
     (let tgt = \<lparr>target_namespace = ns, target_cache = ca\<rparr> in
      if \<not> valid_keyspace_segment (target_namespace tgt) \<or> \<not> valid_keyspace_segment (target_cache tgt)
      then Err (InvalidConfig ''runtime update keyspace is invalid'')
      else Ok tgt)"

datatype RuntimeUpdateOperation = Upsert | Delete | Replace | Invalidate | Resync

record RuntimeUpdateBatch =
  batch_namespace :: string
  batch_cache :: string
  batch_revision :: u64
  batch_operation :: RuntimeUpdateOperation
  batch_entries :: value_map
  batch_keys :: "string list"

definition RuntimeUpdateBatch_new :: "string \<Rightarrow> string \<Rightarrow> u64 \<Rightarrow> RuntimeUpdateOperation \<Rightarrow> RuntimeUpdateBatch" where
  "RuntimeUpdateBatch_new ns ca revision op = \<lparr>batch_namespace = ns, batch_cache = ca, batch_revision = revision,
     batch_operation = op, batch_entries = fmempty, batch_keys = []\<rparr>"

datatype RuntimeUpdateOutcome =
    Applied u64
  | Duplicate u64
  | StaleSnapshotIgnored (current: u64) (incoming: u64)
  | ReconcileRequired (current: u64) (incoming: u64)

record RuntimeUpdateState =
  state_revision :: u64
  state_stale :: bool
  backend_key_count :: nat

record RuntimeUpdateInner =
  inner_revision :: u64
  inner_stale :: bool
  backend_keys :: "string fset"

definition RuntimeUpdateInner_default :: RuntimeUpdateInner where
  "RuntimeUpdateInner_default = \<lparr>inner_revision = 0, inner_stale = False, backend_keys = {||}\<rparr>"

datatype Admission = Rejected RuntimeUpdateInner RuntimeUpdateOutcome | Admitted

definition marked_stale :: "RuntimeUpdateInner \<Rightarrow> RuntimeUpdateInner" where
  "marked_stale s = s\<lparr>inner_stale := True\<rparr>"

definition advanced :: "u64 \<Rightarrow> string fset \<Rightarrow> RuntimeUpdateInner" where
  "advanced revision ks = \<lparr>inner_revision = revision, inner_stale = False, backend_keys = ks\<rparr>"

definition admit :: "RuntimeUpdateInner \<Rightarrow> RuntimeUpdateBatch \<Rightarrow> Admission" where
  "admit s b =
     (let reconcile_required = ReconcileRequired (inner_revision s) (batch_revision b) in
      if batch_revision b \<le> inner_revision s then Rejected s (Duplicate (inner_revision s))
      else if inner_stale s then Rejected s reconcile_required
      else if batch_revision b \<noteq> saturating_add (inner_revision s) 1 \<or> batch_operation b = Resync
      then Rejected (marked_stale s) reconcile_required
      else Admitted)"

definition backend_keys_after :: "RuntimeUpdateInner \<Rightarrow> RuntimeUpdateBatch \<Rightarrow> string fset option" where
  "backend_keys_after s b =
     (case batch_operation b of
        Upsert \<Rightarrow> Some (backend_keys s |\<union>| fmdom (batch_entries b))
      | Delete \<Rightarrow> Some (ffilter (\<lambda>k. k \<notin> set (batch_keys b)) (backend_keys s))
      | Replace \<Rightarrow> Some (fmdom (batch_entries b))
      | Invalidate \<Rightarrow> Some {||}
      | Resync \<Rightarrow> None)"

record RuntimeUpdateController =
  ctl_values :: RuntimeValues
  ctl_target :: "RuntimeUpdateTarget option"
  ctl_state :: RuntimeUpdateInner
  ctl_poisoned :: bool

definition RuntimeUpdateController_new :: "RuntimeValues \<Rightarrow> RuntimeUpdateController" where
  "RuntimeUpdateController_new vs =
     \<lparr>ctl_values = vs, ctl_target = None, ctl_state = RuntimeUpdateInner_default, ctl_poisoned = False\<rparr>"

definition for_target :: "RuntimeValues \<Rightarrow> string \<Rightarrow> string \<Rightarrow> SidecarError + RuntimeUpdateController" where
  "for_target vs ns ca =
     bindR (RuntimeUpdateTarget_new ns ca) (\<lambda>tgt.
     Ok \<lparr>ctl_values = vs, ctl_target = Some tgt, ctl_state = RuntimeUpdateInner_default, ctl_poisoned = False\<rparr>)"

definition controller_state :: "RuntimeUpdateController \<Rightarrow> SidecarError + RuntimeUpdateState" where
  "controller_state c =
     (if ctl_poisoned c then Err RuntimeStateUnavailable
      else Ok \<lparr>state_revision = inner_revision (ctl_state c), state_stale = inner_stale (ctl_state c),
               backend_key_count = fcard (backend_keys (ctl_state c))\<rparr>)"

definition validate_target :: "RuntimeUpdateController \<Rightarrow> string \<Rightarrow> string \<Rightarrow> SidecarError + unit" where
  "validate_target c ns ca =
     (case ctl_target c of
        None \<Rightarrow> Err (InvalidConfig ''runtime update target is not configured'')
      | Some tgt \<Rightarrow>
          if target_namespace tgt \<noteq> ns \<or> target_cache tgt \<noteq> ca
          then Err (InvalidConfig ''runtime update target does not match configured keyspace'')
          else Ok ())"

definition validate_snapshot :: "u64 \<Rightarrow> value_map \<Rightarrow> SidecarError + unit" where
  "validate_snapshot revision es =
     (if revision > MAX_SAFE_RUNTIME_REVISION \<or> revision = 0 \<and> es \<noteq> fmempty
      then Err (InvalidConfig ''runtime snapshot revision is invalid'')
      else if fcard (fmdom es) > MAX_RUNTIME_KEYS
      then Err (InvalidConfig ''runtime snapshot exceeds the bounded key count'')
      else Ok ())"

definition validate_batch_shape :: "RuntimeUpdateBatch \<Rightarrow> SidecarError + unit" where
  "validate_batch_shape b =
     (if batch_revision b = 0 \<or> batch_revision b > MAX_SAFE_RUNTIME_REVISION
      then Err (InvalidConfig ''runtime event revision is invalid'')
      else if fcard (fmdom (batch_entries b)) > MAX_RUNTIME_KEYS \<or> length (batch_keys b) > MAX_RUNTIME_KEYS
      then Err (InvalidConfig ''runtime event exceeds the bounded key count'')
      else
        let valid_shape = (case batch_operation b of
              Upsert \<Rightarrow> batch_entries b \<noteq> fmempty \<and> batch_keys b = []
            | Delete \<Rightarrow> batch_entries b = fmempty \<and> batch_keys b \<noteq> []
            | Replace \<Rightarrow> batch_keys b = []
            | Invalidate \<Rightarrow> batch_entries b = fmempty \<and> batch_keys b = []
            | Resync \<Rightarrow> batch_entries b = fmempty \<and> batch_keys b = []) in
        if \<not> valid_shape then Err (InvalidConfig ''runtime event operation payload is invalid'')
        else if fcard (fset_of_list (batch_keys b)) \<noteq> length (batch_keys b)
        then Err (InvalidConfig ''runtime delete event contains duplicate keys'')
        else Ok ())"

definition apply_snapshot ::
  "RuntimeUpdateController \<Rightarrow> string \<Rightarrow> string \<Rightarrow> u64 \<Rightarrow> value_map
     \<Rightarrow> SidecarError + RuntimeUpdateOutcome \<times> RuntimeUpdateController" where
  "apply_snapshot c ns ca revision es =
     bindR (validate_target c ns ca) (\<lambda>_.
     bindR (validate_snapshot revision es) (\<lambda>_.
     if ctl_poisoned c then Err RuntimeStateUnavailable
     else if revision < inner_revision (ctl_state c)
     then Ok (StaleSnapshotIgnored (inner_revision (ctl_state c)) revision, c)
     else
       bindR (replace_overrides (ctl_values c) es) (\<lambda>vs.
       Ok (Applied revision, c\<lparr>ctl_values := vs, ctl_state := advanced revision (fmdom es)\<rparr>))))"

definition apply_values :: "RuntimeValues \<Rightarrow> RuntimeUpdateBatch \<Rightarrow> (SidecarError + RuntimeValues) option" where
  "apply_values vs b =
     (case batch_operation b of
        Upsert \<Rightarrow> Some (apply_patch vs (map (\<lambda>(k, s). update_set k s) (sorted_list_of_fmap (batch_entries b))))
      | Delete \<Rightarrow> Some (apply_patch vs (map update_remove (batch_keys b)))
      | Replace \<Rightarrow> Some (replace_overrides vs (batch_entries b))
      | Invalidate \<Rightarrow> Some (replace_overrides vs fmempty)
      | Resync \<Rightarrow> None)"

definition apply_batch ::
  "RuntimeUpdateController \<Rightarrow> RuntimeUpdateBatch
     \<Rightarrow> (SidecarError + RuntimeUpdateOutcome \<times> RuntimeUpdateController) option" where
  "apply_batch c b =
     (case bindR (validate_target c (batch_namespace b) (batch_cache b)) (\<lambda>_. validate_batch_shape b) of
        Err e \<Rightarrow> Some (Err e)
      | Ok _ \<Rightarrow>
          if ctl_poisoned c then Some (Err RuntimeStateUnavailable)
          else
            (case admit (ctl_state c) b of
               Rejected s outcome \<Rightarrow> Some (Ok (outcome, c\<lparr>ctl_state := s\<rparr>))
             | Admitted \<Rightarrow>
                 (case apply_values (ctl_values c) b of
                    None \<Rightarrow> None
                  | Some (Err e) \<Rightarrow> Some (Err e)
                  | Some (Ok vs) \<Rightarrow>
                      (case backend_keys_after (ctl_state c) b of
                         None \<Rightarrow> None
                       | Some ks \<Rightarrow>
                           Some (Ok (Applied (batch_revision b),
                             c\<lparr>ctl_values := vs, ctl_state := advanced (batch_revision b) ks\<rparr>))))))"

subsection \<open>What a batch does to the values\<close>

text \<open>The meaning of an event for the backend's own map.\<close>

definition backend_effect :: "RuntimeUpdateBatch \<Rightarrow> value_map \<Rightarrow> value_map" where
  "backend_effect b m =
     (case batch_operation b of
        Upsert \<Rightarrow> m ++\<^sub>f batch_entries b
      | Delete \<Rightarrow> fmfilter (\<lambda>k. k \<notin> set (batch_keys b)) m
      | Replace \<Rightarrow> batch_entries b
      | Invalidate \<Rightarrow> fmempty
      | Resync \<Rightarrow> m)"

lemma effect_lookup_cong:
  "fmlookup m k = fmlookup m' k \<Longrightarrow> fmlookup (backend_effect b m) k = fmlookup (backend_effect b m') k"
  by (auto simp: backend_effect_def split: RuntimeUpdateOperation.splits)

lemma fmdom_effect: "backend_keys_after s b = Some ks \<Longrightarrow> backend_keys s = fmdom m \<Longrightarrow> ks = fmdom (backend_effect b m)"
  by (auto simp: backend_keys_after_def backend_effect_def split: RuntimeUpdateOperation.splits)

lemma update_of_map_set:
  "distinct (map fst kvs) \<Longrightarrow>
     update_of (map (\<lambda>(k, s). update_set k s) kvs) k = map_option (update_set k) (map_of kvs k)"
  by (induction kvs) auto

lemma update_of_map_remove:
  "update_of (map update_remove ks) k = (if k \<in> set ks then Some (update_remove k) else None)"
  by (induction ks) auto

lemma update_of_entries:
  "update_of (map (\<lambda>(k, s). update_set k s) (sorted_list_of_fmap m)) k = map_option (update_set k) (fmlookup m k)"
  by (simp add: update_of_map_set sorted_list_of_fset.rep_eq)

lemma apply_values_lookup:
  assumes "apply_values v b = Some (Ok v')"
  shows "fmlookup (overrides v') k = fmlookup (backend_effect b (overrides v)) k"
  using assms
  by (auto simp: apply_values_def backend_effect_def apply_patch_Ok_iff validate_patch_Ok_iff replace_overrides_Ok_iff
      lookup_patched update_of_entries update_of_map_remove fmdom_notI
      split: RuntimeUpdateOperation.splits option.splits dest: fmdomI)

lemma apply_values_frame:
  "apply_values v b = Some (Ok v') \<Longrightarrow> mutable v' = mutable v \<and> baseline v' = baseline v
     \<and> overrides_poisoned v' = overrides_poisoned v"
  by (auto simp: apply_values_def apply_patch_Ok_iff replace_overrides_Ok_iff split: RuntimeUpdateOperation.splits)

lemma apply_values_ok: "\<lbrakk>apply_values v b = Some (Ok v'); values_ok v\<rbrakk> \<Longrightarrow> values_ok v'"
  by (auto simp: apply_values_def intro: apply_patch_ok replace_overrides_ok split: RuntimeUpdateOperation.splits)

subsection \<open>Admission\<close>

lemma admit_Admitted_iff:
  "admit s b = Admitted \<longleftrightarrow> inner_revision s < batch_revision b \<and> \<not> inner_stale s
     \<and> batch_revision b = saturating_add (inner_revision s) 1 \<and> batch_operation b \<noteq> Resync"
  by (auto simp: admit_def Let_def not_le)

lemma admit_RejectedD: "admit s b = Rejected s' out \<Longrightarrow> s' = s \<or> s' = marked_stale s"
  by (auto simp: admit_def Let_def split: if_splits)

lemma admitted_next:
  assumes "admit s b = Admitted"
  shows "unat (batch_revision b) = Suc (unat (inner_revision s))"
  using assms unat_saturating_add[of "inner_revision s" 1]
  by (auto simp: admit_Admitted_iff word_less_nat_alt)

text \<open>The two \<open>unreachable!\<close> arms are unreachable.\<close>

lemma apply_values_defined: "batch_operation b \<noteq> Resync \<Longrightarrow> apply_values v b \<noteq> None"
  by (simp add: apply_values_def split: RuntimeUpdateOperation.splits)

lemma backend_keys_after_defined: "batch_operation b \<noteq> Resync \<Longrightarrow> backend_keys_after s b \<noteq> None"
  by (simp add: backend_keys_after_def split: RuntimeUpdateOperation.splits)

lemma apply_batch_never_panics: "apply_batch c b \<noteq> None"
  using apply_values_defined[of b "ctl_values c"] backend_keys_after_defined[of b "ctl_state c"]
  by (auto simp: apply_batch_def admit_Admitted_iff split: sum.splits Admission.splits option.splits)

lemma apply_batch_OkE:
  assumes "apply_batch c b = Some (Ok (out, c'))"
  obtains (rejected) s where "admit (ctl_state c) b = Rejected s out" and "c' = c\<lparr>ctl_state := s\<rparr>"
      and "validate_target c (batch_namespace b) (batch_cache b) = Ok ()" and "validate_batch_shape b = Ok ()"
  | (admitted) v ks where "admit (ctl_state c) b = Admitted" and "apply_values (ctl_values c) b = Some (Ok v)"
      and "backend_keys_after (ctl_state c) b = Some ks" and "out = Applied (batch_revision b)"
      and "c' = c\<lparr>ctl_values := v, ctl_state := advanced (batch_revision b) ks\<rparr>"
      and "validate_target c (batch_namespace b) (batch_cache b) = Ok ()" and "validate_batch_shape b = Ok ()"
  using assms
  by (auto simp: apply_batch_def bindR_Ok_iff split: sum.splits if_splits Admission.splits option.splits)

lemma apply_snapshot_OkE:
  assumes "apply_snapshot c ns ca revision es = Ok (out, c')"
  obtains (ignored) "revision < inner_revision (ctl_state c)" and "c' = c"
      and "out = StaleSnapshotIgnored (inner_revision (ctl_state c)) revision"
      and "validate_target c ns ca = Ok ()"
  | (installed) v where "\<not> revision < inner_revision (ctl_state c)"
      and "replace_overrides (ctl_values c) es = Ok v" and "out = Applied revision"
      and "c' = c\<lparr>ctl_values := v, ctl_state := advanced revision (fmdom es)\<rparr>"
      and "validate_target c ns ca = Ok ()"
  using assms by (auto simp: apply_snapshot_def bindR_Ok_iff split: if_splits)

subsection \<open>The controller as a replica of a backend\<close>

text \<open>
  A call that reaches the controller or, through the shared handle, its values. A backend is a map from
  revision numbers to the values at that revision; a message is genuine when it says the truth about the
  backend. The application's own patches are unconstrained.
\<close>

datatype controller_call =
    SnapshotCall string string u64 value_map
  | BatchCall RuntimeUpdateBatch
  | PatchCall "RuntimeValueUpdate list"

definition controller_step :: "controller_call \<Rightarrow> RuntimeUpdateController \<Rightarrow> RuntimeUpdateController option" where
  "controller_step call c =
     (case call of
        SnapshotCall ns ca revision es \<Rightarrow>
          Some (case apply_snapshot c ns ca revision es of Err _ \<Rightarrow> c | Ok (_, c') \<Rightarrow> c')
      | BatchCall b \<Rightarrow> map_option (\<lambda>r. case r of Err _ \<Rightarrow> c | Ok (_, c') \<Rightarrow> c') (apply_batch c b)
      | PatchCall us \<Rightarrow> Some (case apply_patch (ctl_values c) us of Err _ \<Rightarrow> c | Ok v \<Rightarrow> c\<lparr>ctl_values := v\<rparr>))"

fun controller_run :: "controller_call list \<Rightarrow> RuntimeUpdateController \<Rightarrow> RuntimeUpdateController option" where
  "controller_run [] c = Some c"
| "controller_run (call # calls) c = Option.bind (controller_step call c) (controller_run calls)"

lemma apply_values_steps: "apply_values v b = Some (Ok v') \<Longrightarrow> handle_step v v'"
  by (auto simp: apply_values_def handle_step_def split: RuntimeUpdateOperation.splits)

lemma controller_step_values:
  assumes "controller_step call c = Some c'"
  shows "handle_step\<^sup>*\<^sup>* (ctl_values c) (ctl_values c')"
proof (cases call)
  case (SnapshotCall ns ca r es)
  then show ?thesis
    using assms handle_stepI(2) by (auto simp: controller_step_def split: sum.splits elim!: apply_snapshot_OkE)
next
  case (BatchCall b)
  then obtain r where r: "apply_batch c b = Some r" "c' = (case r of Err _ \<Rightarrow> c | Ok (_, c') \<Rightarrow> c')"
    using assms by (auto simp: controller_step_def)
  then show ?thesis
    using apply_values_steps by (cases r) (auto elim!: apply_batch_OkE)
next
  case (PatchCall us)
  then show ?thesis
    using assms handle_stepI(1) by (auto simp: controller_step_def split: sum.splits)
qed

lemma controller_run_values: "controller_run calls c = Some c' \<Longrightarrow> handle_step\<^sup>*\<^sup>* (ctl_values c) (ctl_values c')"
  by (induction calls arbitrary: c) (auto simp: bind_eq_Some_conv dest: controller_step_values intro: rtranclp_trans)

lemma controller_step_total: "\<exists>c'. controller_step call c = Some c'"
  using apply_batch_never_panics by (cases call) (auto simp: controller_step_def)

lemma controller_run_total: "\<exists>c'. controller_run calls c = Some c'"
  by (induction calls arbitrary: c) (simp, metis controller_step_total controller_run.simps(2) bind.bind_lunit)

definition addressed :: "RuntimeUpdateTarget \<Rightarrow> string \<Rightarrow> string \<Rightarrow> bool" where
  "addressed tgt ns ca \<longleftrightarrow> target_namespace tgt = ns \<and> target_cache tgt = ca"

definition genuine :: "(nat \<Rightarrow> value_map) \<Rightarrow> RuntimeUpdateTarget \<Rightarrow> controller_call \<Rightarrow> bool" where
  "genuine B tgt call =
     (case call of
        SnapshotCall ns ca revision es \<Rightarrow> addressed tgt ns ca \<longrightarrow> es = B (unat revision)
      | BatchCall b \<Rightarrow> addressed tgt (batch_namespace b) (batch_cache b) \<longrightarrow> batch_revision b \<noteq> 0
          \<longrightarrow> batch_operation b \<noteq> Resync
          \<longrightarrow> B (unat (batch_revision b)) = backend_effect b (B (unat (batch_revision b) - 1))
      | PatchCall us \<Rightarrow> True)"

definition patched_keys :: "controller_call list \<Rightarrow> string set" where
  "patched_keys calls = (\<Union>call\<in>set calls. case call of PatchCall us \<Rightarrow> update_key ` set us | _ \<Rightarrow> {})"

text \<open>The controller mirrors revision \<open>inner_revision\<close> of the backend on all keys outside \<open>D\<close>.\<close>

definition mirrors :: "(nat \<Rightarrow> value_map) \<Rightarrow> string set \<Rightarrow> RuntimeUpdateController \<Rightarrow> bool" where
  "mirrors B D c \<longleftrightarrow> values_ok (ctl_values c)
     \<and> backend_keys (ctl_state c) = fmdom (B (unat (inner_revision (ctl_state c))))
     \<and> (\<forall>k. k \<notin> D \<longrightarrow>
          fmlookup (overrides (ctl_values c)) k = fmlookup (B (unat (inner_revision (ctl_state c)))) k)"

lemma validate_target_Ok_iff:
  "ctl_target c = Some tgt \<Longrightarrow> validate_target c ns ca = Ok () \<longleftrightarrow> addressed tgt ns ca"
  by (auto simp: validate_target_def addressed_def)

lemma validate_batch_shape_revision: "validate_batch_shape b = Ok () \<Longrightarrow> batch_revision b \<noteq> 0"
  by (auto simp: validate_batch_shape_def)

lemma snapshot_mirrors:
  assumes "apply_snapshot c ns ca revision es = Ok (out, c')" and "mirrors B D c"
    and "ctl_target c = Some tgt" and "genuine B tgt (SnapshotCall ns ca revision es)"
  shows "mirrors B D c'"
  using assms(1)
proof (cases rule: apply_snapshot_OkE)
  case (installed v)
  then show ?thesis
    using assms(2-4) replace_overrides_ok[of "ctl_values c" es v]
    by (auto simp: mirrors_def advanced_def genuine_def validate_target_Ok_iff replace_overrides_Ok_iff)
qed (use assms(2) in simp)

lemma batch_mirrors:
  assumes "apply_batch c b = Some (Ok (out, c'))" and "mirrors B D c"
    and "ctl_target c = Some tgt" and "genuine B tgt (BatchCall b)"
  shows "mirrors B D c'"
  using assms(1)
proof (cases rule: apply_batch_OkE)
  case (rejected s)
  then show ?thesis
    using assms(2) admit_RejectedD[of "ctl_state c" b s out] by (auto simp: mirrors_def marked_stale_def)
next
  case (admitted v ks)
  define m where "m = B (unat (inner_revision (ctl_state c)))"
  have next_map: "B (unat (batch_revision b)) = backend_effect b m"
    using admitted(6,7) assms(3,4) admitted_next[OF admitted(1)] admitted(1)[unfolded admit_Admitted_iff]
      validate_batch_shape_revision[OF admitted(7)]
    by (simp add: genuine_def m_def validate_target_Ok_iff)
  have "fmlookup (overrides v) k = fmlookup (backend_effect b m) k" if "k \<notin> D" for k
    using that assms(2) apply_values_lookup[OF admitted(2), of k]
      effect_lookup_cong[of "overrides (ctl_values c)" k m b]
    by (simp add: mirrors_def m_def)
  moreover have "ks = fmdom (backend_effect b m)"
    using fmdom_effect[OF admitted(3), of m] assms(2) by (simp add: mirrors_def m_def)
  ultimately show ?thesis
    using admitted assms(2) apply_values_ok[OF admitted(2)]
    by (simp add: mirrors_def advanced_def next_map)
qed

lemma patch_mirrors:
  assumes "apply_patch (ctl_values c) us = Ok v" and "mirrors B D c" and "update_key ` set us \<subseteq> D"
  shows "mirrors B D (c\<lparr>ctl_values := v\<rparr>)"
proof -
  have "update_of us k = None" if "k \<notin> D" for k
    using that assms(3) by (auto simp: update_of_None_iff)
  then show ?thesis
    using assms(1,2) apply_patch_ok[OF assms(1)]
    by (auto simp: mirrors_def apply_patch_Ok_iff validate_patch_Ok_iff lookup_patched)
qed

text \<open>One call never panics, keeps the mirror and never goes back in revision.\<close>

definition follows :: "RuntimeUpdateController \<Rightarrow> RuntimeUpdateController \<Rightarrow> bool" where
  "follows c c' \<longleftrightarrow> inner_revision (ctl_state c) \<le> inner_revision (ctl_state c') \<and> ctl_target c' = ctl_target c
     \<and> mutable (ctl_values c') = mutable (ctl_values c) \<and> baseline (ctl_values c') = baseline (ctl_values c)
     \<and> overrides_poisoned (ctl_values c') = overrides_poisoned (ctl_values c) \<and> ctl_poisoned c' = ctl_poisoned c"

lemma follows_refl [simp]: "follows c c"
  by (simp add: follows_def)

lemma follows_trans: "\<lbrakk>follows a b; follows b c\<rbrakk> \<Longrightarrow> follows a c"
  by (auto simp: follows_def)

lemma snapshot_follows: "apply_snapshot c ns ca revision es = Ok (out, c') \<Longrightarrow> follows c c'"
  by (erule apply_snapshot_OkE) (auto simp: follows_def advanced_def replace_overrides_Ok_iff)

lemma batch_follows: "apply_batch c b = Some (Ok (out, c')) \<Longrightarrow> follows c c'"
  by (erule apply_batch_OkE)
    (auto simp: follows_def advanced_def marked_stale_def admit_Admitted_iff dest: admit_RejectedD apply_values_frame)

lemma patch_follows: "apply_patch (ctl_values c) us = Ok v \<Longrightarrow> follows c (c\<lparr>ctl_values := v\<rparr>)"
  by (auto simp: follows_def apply_patch_Ok_iff)

lemma controller_step_mirrors:
  assumes "mirrors B D c" and "ctl_target c = Some tgt" and "genuine B tgt call" and "patched_keys [call] \<subseteq> D"
  shows "\<exists>c'. controller_step call c = Some c' \<and> mirrors B D c' \<and> follows c c'"
proof (cases call)
  case (SnapshotCall ns ca revision es)
  then show ?thesis
    using assms snapshot_mirrors[of c ns ca revision es _ _ B D tgt] snapshot_follows[of c ns ca revision es]
    by (auto simp: controller_step_def split: sum.splits)
next
  case (BatchCall b)
  obtain r where r: "apply_batch c b = Some r"
    using apply_batch_never_panics[of c b] by blast
  then show ?thesis
    using BatchCall assms batch_mirrors[of c b _ _ B D tgt] batch_follows[of c b]
    by (cases r) (auto simp: controller_step_def)
next
  case (PatchCall us)
  then show ?thesis
    using assms patch_mirrors[of c us _ B D] patch_follows[of c us]
    by (auto simp: controller_step_def patched_keys_def split: sum.splits)
qed

lemma controller_run_mirrors:
  assumes "mirrors B D c" and "ctl_target c = Some tgt" and "list_all (genuine B tgt) calls"
    and "patched_keys calls \<subseteq> D"
  shows "\<exists>c'. controller_run calls c = Some c' \<and> mirrors B D c' \<and> follows c c'"
  using assms
proof (induction calls arbitrary: c)
  case (Cons call calls)
  have "patched_keys [call] \<subseteq> D" and D: "patched_keys calls \<subseteq> D"
    using Cons.prems(4) by (auto simp: patched_keys_def)
  with Cons.prems obtain c1 where c1: "controller_step call c = Some c1" "mirrors B D c1" "follows c c1"
    using controller_step_mirrors[of B D c tgt call] by auto
  then obtain c2 where "controller_run calls c1 = Some c2" "mirrors B D c2" "follows c1 c2"
    using Cons.IH[of c1] Cons.prems(2,3) D by (auto simp: follows_def)
  with c1 show ?case
    by (auto intro: follows_trans)
qed simp

text \<open>
  C12: The controller is a faithful replica of its backend. Take any history of the backend that starts empty, a new
  controller for a target, and any sequence of calls in which the messages for that target are genuine,
  with messages lost, repeated or out of order, messages of other targets in between, and patches of the
  application. No call panics; the revision never goes back; the recorded backend keys are those of the backend at
  the controller's revision; and every key that the application has not patched itself reads as the backend
  had it at exactly that revision, or else as the configured baseline.
\<close>

theorem controller_mirrors_backend:
  assumes "RuntimeValues_new ks kvs = Ok v" and "for_target v ns ca = Ok c" and "B 0 = fmempty"
    and "list_all (genuine B \<lparr>target_namespace = ns, target_cache = ca\<rparr>) calls"
  shows "\<exists>c'. controller_run calls c = Some c'
    \<and> (let r = inner_revision (ctl_state c') in
       inner_revision (ctl_state c) \<le> r \<and> values_ok (ctl_values c')
       \<and> backend_keys (ctl_state c') = fmdom (B (unat r))
       \<and> (\<forall>k. k \<notin> patched_keys calls \<longrightarrow>
            values_get (ctl_values c') k
              = Ok (case fmlookup (B (unat r)) k of Some s \<Rightarrow> Some s | None \<Rightarrow> fmlookup (baseline v) k)))"
proof -
  have "ctl_target c = Some \<lparr>target_namespace = ns, target_cache = ca\<rparr>" and "ctl_values c = v"
    and "ctl_state c = RuntimeUpdateInner_default"
    using assms(2) by (auto simp: for_target_def bindR_Ok_iff RuntimeUpdateTarget_new_def Let_def split: if_splits)
  moreover from this have "mirrors B (patched_keys calls) c"
    using new_values_ok[OF assms(1)] assms(3) by (simp add: mirrors_def RuntimeUpdateInner_default_def)
  ultimately obtain c' where "controller_run calls c = Some c'" and "mirrors B (patched_keys calls) c'"
    and "follows c c'" and "ctl_values c = v" and "\<not> overrides_poisoned v"
    using new_values_ok[OF assms(1)] controller_run_mirrors[of B "patched_keys calls" c _ calls] assms(4) by auto
  then show ?thesis
    by (auto simp: mirrors_def follows_def values_get_def Let_def split: option.splits)
qed

text \<open>
  C14: A stale controller is repaired by a snapshot and only by a snapshot. While it is stale no event changes a
  value, the revision or the stale mark, whatever the event says; a snapshot for the target that passes the
  shape checks, is not older than the controller and only holds declared keys and bounded values is applied:
  the controller is at that revision, no longer stale, and every lookup, also of keys that were patched
  locally, is the one of the snapshot over the baseline.
\<close>

theorem snapshot_repairs_stale_controller:
  assumes "values_ok (ctl_values c)" and "inner_stale (ctl_state c)"
  shows "(\<forall>b out c'. apply_batch c b = Some (Ok (out, c')) \<longrightarrow> c' = c \<and> out \<noteq> Applied (batch_revision b))
    \<and> (validate_target c ns ca = Ok () \<and> validate_snapshot revision es = Ok () \<and> \<not> ctl_poisoned c
         \<and> \<not> overrides_poisoned (ctl_values c) \<and> inner_revision (ctl_state c) \<le> revision
         \<and> admissible (mutable (ctl_values c)) es \<longrightarrow>
       (\<exists>c'. apply_snapshot c ns ca revision es = Ok (Applied revision, c')
          \<and> controller_state c' = Ok \<lparr>state_revision = revision, state_stale = False, backend_key_count = fcard (fmdom es)\<rparr>
          \<and> (\<forall>k. values_get (ctl_values c') k
               = Ok (case fmlookup es k of Some s \<Rightarrow> Some s | None \<Rightarrow> fmlookup (baseline (ctl_values c)) k))))"
proof (intro conjI allI impI)
  fix b out c' assume "apply_batch c b = Some (Ok (out, c'))"
  then show "c' = c" and "out \<noteq> Applied (batch_revision b)"
    using assms(2) by (cases rule: apply_batch_OkE; auto simp: admit_def Let_def split: if_splits)+
qed (use assms(1) in \<open>auto simp: apply_snapshot_def replace_overrides_Ok_declared[THEN iffD2] controller_state_def
    advanced_def values_get_def not_less split: option.splits\<close>)

text \<open>An event that the controller can apply: for its target, well formed, within the declared keys and bounds.\<close>

definition deliverable :: "RuntimeUpdateController \<Rightarrow> RuntimeUpdateBatch \<Rightarrow> bool" where
  "deliverable c b \<longleftrightarrow> validate_target c (batch_namespace b) (batch_cache b) = Ok () \<and> validate_batch_shape b = Ok ()
     \<and> batch_operation b \<noteq> Resync \<and> admissible (mutable (ctl_values c)) (batch_entries b)
     \<and> fset_of_list (batch_keys b) |\<subseteq>| mutable (ctl_values c)"

definition live :: "RuntimeUpdateController \<Rightarrow> bool" where
  "live c \<longleftrightarrow> \<not> inner_stale (ctl_state c) \<and> \<not> ctl_poisoned c \<and> \<not> overrides_poisoned (ctl_values c)"

lemma deliverable_follows: "\<lbrakk>deliverable c b; follows c c'\<rbrakk> \<Longrightarrow> deliverable c' b"
  by (simp add: deliverable_def follows_def validate_target_def)

lemma validate_batch_shapeD:
  assumes "validate_batch_shape b = Ok ()"
  shows "fcard (fmdom (batch_entries b)) \<le> MAX_RUNTIME_KEYS" and "length (batch_keys b) \<le> MAX_RUNTIME_KEYS"
    and "distinct (batch_keys b)"
  using assms by (auto simp: validate_batch_shape_def Let_def fcard.rep_eq fset_of_list.rep_eq card_distinct split: if_splits)

lemma deliverable_values:
  assumes "deliverable c b" and "values_ok (ctl_values c)" and "\<not> overrides_poisoned (ctl_values c)"
  shows "\<exists>v. apply_values (ctl_values c) b = Some (Ok v)"
proof -
  let ?v = "ctl_values c"
  have key: "validate_runtime_key k = Ok ()" if "k |\<in>| mutable ?v" for k
    using that assms(2) by (auto simp: values_ok_def dest: declaredD)
  have shape: "validate_batch_shape b = Ok ()" and adm: "admissible (mutable ?v) (batch_entries b)"
    and keys: "fset_of_list (batch_keys b) |\<subseteq>| mutable ?v"
    using assms(1) by (auto simp: deliverable_def)
  have "validate_patch ?v (map (\<lambda>(k, s). update_set k s) (sorted_list_of_fmap (batch_entries b))) = Ok ()"
    using validate_batch_shapeD[OF shape] adm
    by (auto simp: validate_patch_Ok_iff validate_update_Ok_iff set_sorted_list_of_fmap admissible_def key comp_def
        case_prod_unfold sorted_list_of_fset.rep_eq dest: fmdomI)
  moreover have "validate_patch ?v (map update_remove (batch_keys b)) = Ok ()"
    using validate_batch_shapeD[OF shape] keys
    by (auto simp: validate_patch_Ok_iff validate_update_Ok_iff key comp_def fset_of_list_elem dest!: fsubsetD)
  ultimately show ?thesis
    using assms adm
    by (auto simp: apply_values_def deliverable_def apply_patch_Ok_iff replace_overrides_Ok_declared
        split: RuntimeUpdateOperation.splits)
qed

lemma next_event_applies:
  assumes "deliverable c b" and "values_ok (ctl_values c)" and "live c"
    and "unat (batch_revision b) = Suc (unat (inner_revision (ctl_state c)))"
  shows "\<exists>c'. apply_batch c b = Some (Ok (Applied (batch_revision b), c')) \<and> live c'
    \<and> inner_revision (ctl_state c') = batch_revision b"
proof -
  have "unat (batch_revision b) < 2 ^ 64"
    by (rule order_less_le_trans[OF unsigned_less]) simp
  then have "batch_revision b = saturating_add (inner_revision (ctl_state c)) 1"
    using assms(4)
    by (intro word_unat_eq_iff[THEN iffD2]) (simp add: unat_saturating_add)
  then have "admit (ctl_state c) b = Admitted"
    using assms by (auto simp: admit_Admitted_iff live_def deliverable_def word_less_nat_alt)
  moreover obtain v where v: "apply_values (ctl_values c) b = Some (Ok v)"
    using deliverable_values[of c b] assms by (auto simp: live_def)
  moreover obtain ks where "backend_keys_after (ctl_state c) b = Some ks"
    using backend_keys_after_defined[of b "ctl_state c"] assms(1) by (auto simp: deliverable_def)
  ultimately show ?thesis
    using assms(1,3) apply_values_frame[OF v]
    by (auto simp: apply_batch_def deliverable_def live_def advanced_def)
qed

text \<open>
  C13: Events in order are applied to the end. From a controller that is live and mirrors its backend, the genuine
  events of the next revisions, in order, for its target, well formed and within the declared keys and bounds, all
  take effect: the controller is at the last revision, not stale, and mirrors the backend there.
\<close>

theorem in_order_events_apply:
  assumes "mirrors B D c" and "live c" and "ctl_target c = Some tgt" and "\<forall>b\<in>set bs. deliverable c b"
    and "list_all (genuine B tgt) (map BatchCall bs)"
    and "map (\<lambda>b. unat (batch_revision b)) bs
      = [Suc (unat (inner_revision (ctl_state c))) ..< Suc (unat (inner_revision (ctl_state c))) + length bs]"
  shows "\<exists>c'. controller_run (map BatchCall bs) c = Some c' \<and> mirrors B D c' \<and> live c'
    \<and> unat (inner_revision (ctl_state c')) = unat (inner_revision (ctl_state c)) + length bs"
  using assms
proof (induction bs arbitrary: c)
  case (Cons b bs)
  let ?r = "unat (inner_revision (ctl_state c))"
  have "[Suc ?r ..< Suc ?r + length (b # bs)] = Suc ?r # [Suc (Suc ?r) ..< Suc (Suc ?r) + length bs]"
    by (simp add: upt_rec)
  with Cons.prems(6) have revs: "unat (batch_revision b) = Suc ?r"
      "map (\<lambda>b. unat (batch_revision b)) bs = [Suc (Suc ?r) ..< Suc (Suc ?r) + length bs]"
    by auto
  then obtain c1 where c1: "apply_batch c b = Some (Ok (Applied (batch_revision b), c1))" "live c1"
      "inner_revision (ctl_state c1) = batch_revision b"
    using next_event_applies[of c b] Cons.prems by (auto simp: mirrors_def)
  then have "mirrors B D c1" and "follows c c1"
    using batch_mirrors[OF c1(1), of B D tgt] batch_follows[OF c1(1)] Cons.prems by auto
  with Cons.IH[of c1] Cons.prems c1 revs show ?case
    by (auto simp: controller_step_def follows_def intro: deliverable_follows[OF _ \<open>follows c c1\<close>])
qed simp

subsection \<open>A sample run\<close>

definition sample_batch :: "u64 \<Rightarrow> RuntimeUpdateBatch" where
  "sample_batch revision = (RuntimeUpdateBatch_new ''sidecar'' ''runtime-env'' revision Upsert)
     \<lparr>batch_entries := fmap_of_list [(''REQUEST_TIMEOUT_MS'', ''5000'')]\<rparr>"

definition sample_backend :: "nat \<Rightarrow> value_map" where
  "sample_backend n = (if n < 2 then fmempty else fmap_of_list [(''REQUEST_TIMEOUT_MS'', ''5000'')])"

definition sample_controller :: RuntimeUpdateController where
  "sample_controller = \<lparr>ctl_values = sample_runtime_values,
     ctl_target = Some \<lparr>target_namespace = ''sidecar'', target_cache = ''runtime-env''\<rparr>,
     ctl_state = RuntimeUpdateInner_default, ctl_poisoned = False\<rparr>"

lemma sample_controller_for_target: "for_target sample_runtime_values ''sidecar'' ''runtime-env'' = Ok sample_controller"
  by (simp add: for_target_def RuntimeUpdateTarget_new_def valid_keyspace_segment_def sample_controller_def
      MAX_RUNTIME_KEYSPACE_SEGMENT_BYTES_def is_ascii_alphanumeric_def is_ascii_lowercase_def is_ascii_uppercase_def
      is_ascii_digit_def byte_in_def)

lemma sample_batch_genuine: "unat revision \<ge> 2 \<Longrightarrow> genuine sample_backend tgt (BatchCall (sample_batch revision))"
  by (auto simp: genuine_def sample_backend_def sample_batch_def RuntimeUpdateBatch_new_def backend_effect_def
      intro!: fmap_ext)

theorem controller_mirrors_backend_witness:
  "\<exists>c'. controller_run [SnapshotCall ''sidecar'' ''runtime-env'' 1 fmempty, BatchCall (sample_batch 2),
       PatchCall [update_set ''LOG_FILTER'' ''trace''], BatchCall (sample_batch 4), BatchCall (sample_batch 3)]
       sample_controller = Some c' \<and> values_ok (ctl_values c')"
  using controller_mirrors_backend[OF sample_runtime_values_new sample_controller_for_target,
      where B = sample_backend and calls = "[SnapshotCall ''sidecar'' ''runtime-env'' 1 fmempty,
        BatchCall (sample_batch 2), PatchCall [update_set ''LOG_FILTER'' ''trace''], BatchCall (sample_batch 4),
        BatchCall (sample_batch 3)]"]
  by (auto simp: Let_def sample_batch_genuine genuine_def[of _ _ "SnapshotCall _ _ _ _"]
      genuine_def[of _ _ "PatchCall _"] sample_backend_def)

lemma sample_values_ok: "values_ok sample_runtime_values"
  using new_values_ok[OF sample_runtime_values_new] by simp

theorem snapshot_repairs_stale_controller_witness:
  "\<exists>c'. apply_snapshot (sample_controller\<lparr>ctl_state := marked_stale (ctl_state sample_controller)\<rparr>)
       ''sidecar'' ''runtime-env'' 4 (sample_backend 4) = Ok (Applied 4, c')
     \<and> values_get (ctl_values c') ''REQUEST_TIMEOUT_MS'' = Ok (Some ''5000'')"
  using snapshot_repairs_stale_controller
    [of "sample_controller\<lparr>ctl_state := marked_stale (ctl_state sample_controller)\<rparr>" "''sidecar''" "''runtime-env''" 4
      "sample_backend 4"] sample_values_ok
  by (auto simp: sample_controller_def marked_stale_def RuntimeUpdateInner_default_def validate_target_def
      validate_snapshot_def sample_backend_def MAX_SAFE_RUNTIME_REVISION_def MAX_RUNTIME_KEYS_def fcard_finsert_if
      fcard_fempty sample_runtime_values_def admissible_def MAX_RUNTIME_VALUE_BYTES_def fmap_of_list.rep_eq
      split: if_splits)

lemma sample_controller_live: "live sample_controller" "mirrors sample_backend {} sample_controller"
  using sample_values_ok
  by (simp_all add: live_def mirrors_def sample_controller_def RuntimeUpdateInner_default_def sample_backend_def
      sample_runtime_values_def)

lemma sample_events_deliverable:
  "deliverable sample_controller (RuntimeUpdateBatch_new ''sidecar'' ''runtime-env'' 1 Invalidate)"
  "deliverable sample_controller (sample_batch 2)"
  by (simp_all add: sample_controller_def sample_batch_def RuntimeUpdateBatch_new_def deliverable_def validate_target_def
      validate_batch_shape_def MAX_SAFE_RUNTIME_REVISION_def MAX_RUNTIME_KEYS_def fcard_finsert_if fcard_fempty
      sample_runtime_values_def admissible_def MAX_RUNTIME_VALUE_BYTES_def Let_def)

theorem in_order_events_apply_witness:
  "\<exists>c'. controller_run (map BatchCall [RuntimeUpdateBatch_new ''sidecar'' ''runtime-env'' 1 Invalidate, sample_batch 2])
       sample_controller = Some c' \<and> unat (inner_revision (ctl_state c')) = 2 \<and> live c'"
proof -
  define first where "first = RuntimeUpdateBatch_new ''sidecar'' ''runtime-env'' 1 Invalidate"
  define tgt where "tgt = \<lparr>target_namespace = ''sidecar'', target_cache = ''runtime-env''\<rparr>"
  have revs: "batch_revision first = 1" "batch_revision (sample_batch 2) = 2"
      "inner_revision (ctl_state sample_controller) = 0" "ctl_target sample_controller = Some tgt"
    by (simp_all add: first_def tgt_def sample_batch_def RuntimeUpdateBatch_new_def sample_controller_def
        RuntimeUpdateInner_default_def)
  have "genuine sample_backend tgt (BatchCall first)" "genuine sample_backend tgt (BatchCall (sample_batch 2))"
    using sample_batch_genuine[of 2 tgt]
    by (simp_all add: first_def genuine_def sample_backend_def RuntimeUpdateBatch_new_def backend_effect_def)
  then have "\<exists>c'. controller_run (map BatchCall [first, sample_batch 2]) sample_controller = Some c'
      \<and> mirrors sample_backend {} c' \<and> live c'
      \<and> unat (inner_revision (ctl_state c')) = unat (inner_revision (ctl_state sample_controller)) + length [first, sample_batch 2]"
    using sample_events_deliverable[folded first_def]
    by (intro in_order_events_apply[OF sample_controller_live(2,1) revs(4)]) (simp_all add: revs upt_rec)
  then show ?thesis
    by (auto simp: revs first_def)
qed

end
