(* ===== verification/Sidecar_Bind.thy ===== *)
theory Sidecar_Bind
  imports Runtime_Values Sidecar_Http
begin

section \<open>The bind address\<close>

text \<open>
  \<open>src/src/bind.rs\<close>, on the address parser of \<open>core::net\<close>: a number is a run of digits, with at most so many
  digits and without a leading zero where the parser demands it; an IPv6 address is a head and a tail of groups
  around \<open>::\<close>, the last two groups possibly written as an IPv4 address; a socket address is followed by the end of
  the string. The name resolver of the system behind \<open>to_socket_addrs\<close> is a parameter.

  The theorems give the policy on all textual IPv4 addresses and on every answer of the resolver: no
  unspecified address is accepted, and none outside loopback without the override.
\<close>

datatype IpAddr = IpV4 u8 u8 u8 u8 | IpV6 "u16 list"

record SocketAddr =
  addr_ip :: IpAddr
  addr_port :: u16
  addr_scope :: u32

fun is_loopback :: "IpAddr \<Rightarrow> bool" where
  "is_loopback (IpV4 a b c d) = (a = 127)"
| "is_loopback (IpV6 gs) = (gs = [0, 0, 0, 0, 0, 0, 0, 1])"

fun is_unspecified :: "IpAddr \<Rightarrow> bool" where
  "is_unspecified (IpV4 a b c d) = (a = 0 \<and> b = 0 \<and> c = 0 \<and> d = 0)"
| "is_unspecified (IpV6 gs) = (gs = replicate 8 0)"

fun is_ipv6 :: "IpAddr \<Rightarrow> bool" where
  "is_ipv6 (IpV4 a b c d) = False"
| "is_ipv6 (IpV6 gs) = True"

subsection \<open>The address parser\<close>

definition to_digit :: "nat \<Rightarrow> char \<Rightarrow> nat option" where
  "to_digit radix c =
     (let n = of_char c :: nat;
          d = (if 48 \<le> n \<and> n \<le> 57 then n - 48
               else if 97 \<le> n \<and> n \<le> 122 then n - 87
               else if 65 \<le> n \<and> n \<le> 90 then n - 55
               else radix) in
      if d < radix then Some d else None)"

definition read_number :: "nat \<Rightarrow> nat option \<Rightarrow> bool \<Rightarrow> nat \<Rightarrow> string \<Rightarrow> (nat \<times> string) option" where
  "read_number radix max_digits allow_zero_prefix bound s =
     (let ds = takeWhile (\<lambda>c. to_digit radix c \<noteq> None) s;
          result = foldl (\<lambda>n c. radix * n + the (to_digit radix c)) 0 ds in
      if (case max_digits of None \<Rightarrow> False | Some m \<Rightarrow> length ds > m) then None
      else if ds = [] then None
      else if \<not> allow_zero_prefix \<and> hd ds = CHR ''0'' \<and> length ds > 1 then None
      else if result < bound then Some (result, drop (length ds) s)
      else None)"

definition given_char :: "char \<Rightarrow> string \<Rightarrow> string option" where
  "given_char c s = (case s of [] \<Rightarrow> None | d # ds \<Rightarrow> if d = c then Some ds else None)"

definition read_separator :: "char \<Rightarrow> nat \<Rightarrow> (string \<Rightarrow> ('a \<times> string) option) \<Rightarrow> string \<Rightarrow> ('a \<times> string) option" where
  "read_separator sep index inner s = (if index > 0 then Option.bind (given_char sep s) inner else inner s)"

definition read_octet :: "nat \<Rightarrow> string \<Rightarrow> (nat \<times> string) option" where
  "read_octet index = read_separator (CHR ''.'') index (read_number 10 (Some 3) False 256)"

definition read_ipv4_addr :: "string \<Rightarrow> ((nat \<times> nat \<times> nat \<times> nat) \<times> string) option" where
  "read_ipv4_addr s =
     Option.bind (read_octet 0 s) (\<lambda>(a, s).
     Option.bind (read_octet 1 s) (\<lambda>(b, s).
     Option.bind (read_octet 2 s) (\<lambda>(c, s).
     Option.bind (read_octet 3 s) (\<lambda>(d, s).
     Some ((a, b, c, d), s)))))"

text \<open>\<open>read_groups\<close> with so many slots left and the groups read so far; the flag says that an IPv4 address ended the groups.\<close>

fun read_groups :: "nat \<Rightarrow> nat list \<Rightarrow> string \<Rightarrow> nat list \<times> bool \<times> string" where
  "read_groups 0 gs s = (gs, False, s)"
| "read_groups (Suc n) gs s =
     (case (if n > 0 then read_separator (CHR '':'') (length gs) read_ipv4_addr s else None) of
        Some ((a, b, c, d), s') \<Rightarrow> (gs @ [256 * a + b, 256 * c + d], True, s')
      | None \<Rightarrow>
          (case read_separator (CHR '':'') (length gs) (read_number 16 (Some 4) True 65536) s of
             Some (g, s') \<Rightarrow> read_groups n (gs @ [g]) s'
           | None \<Rightarrow> (gs, False, s)))"

definition read_ipv6_addr :: "string \<Rightarrow> (nat list \<times> string) option" where
  "read_ipv6_addr s =
     (let (head, head_ipv4, s) = read_groups 8 [] s in
      if length head = 8 then Some (head, s)
      else if head_ipv4 then None
      else
        Option.bind (given_char (CHR '':'') s) (\<lambda>s.
        Option.bind (given_char (CHR '':'') s) (\<lambda>s.
        let limit = 8 - (length head + 1); (tail, _, s) = read_groups limit [] s in
        Some (head @ replicate (8 - length head - length tail) 0 @ tail, s))))"

definition read_port :: "string \<Rightarrow> (nat \<times> string) option" where
  "read_port s = Option.bind (given_char (CHR '':'') s) (read_number 10 None True 65536)"

definition read_scope_id :: "string \<Rightarrow> (nat \<times> string) option" where
  "read_scope_id s = Option.bind (given_char (CHR ''%'') s) (read_number 10 None True (2 ^ 32))"

definition read_socket_addr_v4 :: "string \<Rightarrow> (SocketAddr \<times> string) option" where
  "read_socket_addr_v4 s =
     Option.bind (read_ipv4_addr s) (\<lambda>((a, b, c, d), s).
     Option.bind (read_port s) (\<lambda>(port, s).
     Some (\<lparr>addr_ip = IpV4 (of_nat a) (of_nat b) (of_nat c) (of_nat d), addr_port = of_nat port, addr_scope = 0\<rparr>, s)))"

definition read_socket_addr_v6 :: "string \<Rightarrow> (SocketAddr \<times> string) option" where
  "read_socket_addr_v6 s =
     Option.bind (given_char (CHR ''['') s) (\<lambda>s.
     Option.bind (read_ipv6_addr s) (\<lambda>(gs, s).
     let (scope, s) = (case read_scope_id s of Some (n, s') \<Rightarrow> (n, s') | None \<Rightarrow> (0, s)) in
     Option.bind (given_char (CHR '']'') s) (\<lambda>s.
     Option.bind (read_port s) (\<lambda>(port, s).
     Some (\<lparr>addr_ip = IpV6 (map of_nat gs), addr_port = of_nat port, addr_scope = of_nat scope\<rparr>, s)))))"

definition parse_socket_addr :: "string \<Rightarrow> SocketAddr option" where
  "parse_socket_addr s =
     (case (case read_socket_addr_v4 s of Some r \<Rightarrow> Some r | None \<Rightarrow> read_socket_addr_v6 s) of
        Some (a, []) \<Rightarrow> Some a
      | _ \<Rightarrow> None)"

subsection \<open>Operations\<close>

type_synonym resolver = "string \<Rightarrow> io_kind + SocketAddr list"

definition parse_socket :: "resolver \<Rightarrow> string \<Rightarrow> SidecarError + SocketAddr" where
  "parse_socket to_socket_addrs raw =
     (let trimmed = trim raw in
      if trimmed = [] then Err (UnresolvedBind raw)
      else (case parse_socket_addr trimmed of
              Some a \<Rightarrow> Ok a
            | None \<Rightarrow>
                (case to_socket_addrs trimmed of
                   Err _ \<Rightarrow> Err (InvalidBind trimmed)
                 | Ok [] \<Rightarrow> Err (UnresolvedBind trimmed)
                 | Ok (a # _) \<Rightarrow> Ok a)))"

definition parse_bind :: "resolver \<Rightarrow> string \<Rightarrow> bool \<Rightarrow> SidecarError + SocketAddr" where
  "parse_bind to_socket_addrs raw allow_non_loopback =
     (let trimmed = trim raw in
      bindR (parse_socket to_socket_addrs trimmed) (\<lambda>addr.
      if is_unspecified (addr_ip addr) \<or> \<not> is_loopback (addr_ip addr) \<and> \<not> allow_non_loopback
      then Err (NonLoopbackBind trimmed)
      else Ok addr))"

text \<open>
  \<open>loopback_probe_addr\<close> is exported, and its comment calls its result the address that probes use. No code of the
  repository calls it: the probe commands dial the configured listen address, \<open>exit_probe\<close> of \<open>Sidecar_Runtime\<close>.
\<close>

definition loopback_probe_addr :: "resolver \<Rightarrow> string \<Rightarrow> SidecarError + SocketAddr" where
  "loopback_probe_addr to_socket_addrs raw =
     bindR (parse_socket to_socket_addrs raw) (\<lambda>addr.
     let ip = (if is_ipv6 (addr_ip addr) then IpV6 [0, 0, 0, 0, 0, 0, 0, 1] else IpV4 127 0 0 1) in
     Ok \<lparr>addr_ip = ip, addr_port = addr_port addr, addr_scope = 0\<rparr>)"

definition allow_non_loopback_from_env :: "(string \<rightharpoonup> string) \<Rightarrow> bool" where
  "allow_non_loopback_from_env env =
     (case map_option trim (env ALLOW_NON_LOOPBACK) of
        None \<Rightarrow> False
      | Some v \<Rightarrow> v \<in> {''1'', ''true'', ''TRUE'', ''yes'', ''YES''})"

subsection \<open>The policy\<close>

lemma to_digit_decimal:
  "to_digit 10 c = (if is_ascii_digit c then Some (digit_value c) else None)"
  by (auto simp: to_digit_def is_ascii_digit_def byte_in_def digit_value_def Let_def)

lemma foldl_decimal:
  "list_all is_ascii_digit ds \<Longrightarrow> foldl (\<lambda>n c. 10 * n + the (to_digit 10 c)) k ds = foldl (\<lambda>n c. 10 * n + digit_value c) k ds"
  by (induction ds arbitrary: k) (simp_all add: to_digit_decimal)

lemma show_nat_leading: "length (show_nat n) > 1 \<Longrightarrow> hd (show_nat n) \<noteq> CHR ''0''"
proof (induction n rule: show_nat.induct)
  case (1 n)
  show ?case
  proof (cases "n < 10")
    case True
    then show ?thesis
      using 1(2) show_nat.simps[of n] by simp
  next
    case big: False
    show ?thesis
    proof (cases "n div 10 < 10")
      case True
      then have "of_char (digit_char (n div 10)) = 48 + n div 10" and "n div 10 > 0"
        using big by (simp_all add: of_char_digit_char)
      then show ?thesis
        using show_nat.simps[of n] show_nat.simps[of "n div 10"] True big by auto
    next
      case False
      then have "length (show_nat (n div 10)) > 1"
        using show_nat.simps[of "n div 10"] by (simp add: Suc_lessI)
      then show ?thesis
        using 1(1) big show_nat.simps[of n] by simp
    qed
  qed
qed

lemma length_show_nat: "n < 10 ^ k \<Longrightarrow> 0 < k \<Longrightarrow> length (show_nat n) \<le> k"
proof (induction k arbitrary: n)
  case (Suc k)
  show ?case
  proof (cases "n < 10")
    case True
    then show ?thesis
      by (simp add: show_nat.simps[of n])
  next
    case False
    then have "n div 10 < 10 ^ k" "0 < k"
      using Suc.prems by (auto simp: less_mult_imp_div_less mult.commute intro: gr0I)
    with Suc.IH[of "n div 10"] False show ?thesis
      by (simp add: show_nat.simps[of n])
  qed
qed simp

lemma read_number_show:
  assumes "n < bound" and "s = [] \<or> \<not> is_ascii_digit (hd s)" and "\<And>m. max_digits = Some m \<Longrightarrow> n < 10 ^ m \<and> 0 < m"
  shows "read_number 10 max_digits z bound (show_nat n @ s) = Some (n, s)"
proof -
  have digits: "takeWhile (\<lambda>c. to_digit 10 c \<noteq> None) (show_nat n @ s) = show_nat n"
    using show_nat_digits[of n] assms(2)
    by (cases s) (auto simp: takeWhile_append takeWhile_tail to_digit_decimal list_all_iff)
  have val: "foldl (\<lambda>n c. 10 * n + the (to_digit 10 c)) 0 (show_nat n) = n"
    using foldl_decimal[OF show_nat_digits, of 0 n] digits_value_show_nat[of n] by (simp add: digits_value_def)
  have "\<not> length (show_nat n) > m" if "max_digits = Some m" for m
    using assms(3)[OF that] length_show_nat[of n m] by simp
  then show ?thesis
    using assms(1) show_nat_leading[of n]
    unfolding read_number_def digits val Let_def by (auto split: option.splits)
qed

definition ipv4_text :: "u8 \<Rightarrow> u8 \<Rightarrow> u8 \<Rightarrow> u8 \<Rightarrow> u16 \<Rightarrow> string" where
  "ipv4_text a b c d port =
     show_nat (unat a) @ ''.'' @ show_nat (unat b) @ ''.'' @ show_nat (unat c) @ ''.'' @ show_nat (unat d)
       @ '':'' @ show_nat (unat port)"

lemma unat_u8: "unat (a :: u8) < 256"
  by (rule order_less_le_trans[OF unsigned_less]) simp

lemma unat_u16: "unat (a :: u16) < 65536"
  by (rule order_less_le_trans[OF unsigned_less]) simp

lemma separators_no_digit: "\<not> is_ascii_digit (CHR ''.'')" "\<not> is_ascii_digit (CHR '':'')"
  by (simp_all add: is_ascii_digit_def byte_in_def)

lemma read_octet_show:
  assumes "s = [] \<or> \<not> is_ascii_digit (hd s)"
  shows "read_octet 0 (show_nat (unat (a :: u8)) @ s) = Some (unat a, s)"
    and "0 < i \<Longrightarrow> read_octet i (CHR ''.'' # show_nat (unat a) @ s) = Some (unat a, s)"
  using read_number_show[of "unat a" 256 s "Some 3" False] assms unat_u8[of a]
  by (simp_all add: read_octet_def read_separator_def given_char_def)

lemma parse_ipv4_text:
  "parse_socket_addr (ipv4_text a b c d port) = Some \<lparr>addr_ip = IpV4 a b c d, addr_port = port, addr_scope = 0\<rparr>"
proof -
  have "read_port (CHR '':'' # show_nat (unat port) @ []) = Some (unat port, [])"
    using read_number_show[of "unat port" 65536 "[]" None True] unat_u16[of port] by (simp add: read_port_def given_char_def)
  then have "read_socket_addr_v4 (ipv4_text a b c d port)
      = Some (\<lparr>addr_ip = IpV4 a b c d, addr_port = port, addr_scope = 0\<rparr>, [])"
    by (simp add: read_socket_addr_v4_def read_ipv4_addr_def ipv4_text_def read_octet_show separators_no_digit)
  then show ?thesis
    by (simp add: parse_socket_addr_def)
qed

lemma trim_ipv4_text: "trim (ipv4_text a b c d port) = ipv4_text a b c d port"
proof (rule trim_word)
  have "list_all is_ascii_graphic (show_nat n)" for n
    using show_nat_digits[of n] is_ascii_digit_graphic by (auto simp: list_all_iff)
  then show "list_all is_ascii_graphic (ipv4_text a b c d port)"
    by (simp add: ipv4_text_def is_ascii_graphic_def byte_in_def)
qed

lemma parse_bind_policy:
  "parse_bind res raw allow = Ok a \<Longrightarrow> \<not> is_unspecified (addr_ip a) \<and> (is_loopback (addr_ip a) \<or> allow)"
  by (auto simp: parse_bind_def bindR_Ok_iff Let_def split: if_splits)

lemma parse_bind_ipv4:
  "parse_bind res (ipv4_text a b c d port) allow =
     (if a = 0 \<and> b = 0 \<and> c = 0 \<and> d = 0 \<or> a \<noteq> 127 \<and> \<not> allow then Err (NonLoopbackBind (ipv4_text a b c d port))
      else Ok \<lparr>addr_ip = IpV4 a b c d, addr_port = port, addr_scope = 0\<rparr>)"
proof -
  have "ipv4_text a b c d port \<noteq> []"
    by (simp add: ipv4_text_def)
  then show ?thesis
    by (simp add: parse_bind_def parse_socket_def trim_ipv4_text parse_ipv4_text Let_def)
qed

text \<open>
  C18: The bind policy on every IPv4 address and on every answer of the resolver. A textual IPv4 address with any
  octets and any port is accepted as exactly that address when it is not \<open>0.0.0.0\<close> and is in \<open>127.0.0.0/8\<close> or the
  override is set, and refused otherwise; and whatever a name resolves to, no accepted address is unspecified
  or outside loopback without the override.
\<close>

theorem bind_policy:
  "parse_bind res (ipv4_text a b c d port) allow =
     (if a = 0 \<and> b = 0 \<and> c = 0 \<and> d = 0 \<or> a \<noteq> 127 \<and> \<not> allow then Err (NonLoopbackBind (ipv4_text a b c d port))
      else Ok \<lparr>addr_ip = IpV4 a b c d, addr_port = port, addr_scope = 0\<rparr>)
   \<and> (case parse_bind res raw allow of
        Err _ \<Rightarrow> True
      | Ok x \<Rightarrow> \<not> is_unspecified (addr_ip x) \<and> (is_loopback (addr_ip x) \<or> allow))"
  by (auto simp: parse_bind_ipv4 split: sum.splits dest: parse_bind_policy)

subsection \<open>An unspecified address behind a mapped one\<close>

text \<open>
  The IPv4-mapped form of \<open>0.0.0.0\<close> is not the unspecified address for \<open>is_unspecified\<close>, so that the override
  lets it through, although \<open>README.md\<close> says that \<open>0.0.0.0\<close> stays rejected.
\<close>

lemma given_char_simps [simp]: "given_char c [] = None" "given_char c (d # ds) = (if d = c then Some ds else None)"
  by (simp_all add: given_char_def)

lemma read_groups_step:
  assumes "0 < n"
  shows "read_groups n gs s =
     (case (if n > 1 then read_separator (CHR '':'') (length gs) read_ipv4_addr s else None) of
        Some ((a, b, c, d), s') \<Rightarrow> (gs @ [256 * a + b, 256 * c + d], True, s')
      | None \<Rightarrow>
          (case read_separator (CHR '':'') (length gs) (read_number 16 (Some 4) True 65536) s of
             Some (g, s') \<Rightarrow> read_groups (n - 1) (gs @ [g]) s'
           | None \<Rightarrow> (gs, False, s)))"
proof -
  obtain k where "n = Suc k"
    using assms gr0_implies_Suc by blast
  then show ?thesis
    unfolding \<open>n = Suc k\<close> diff_Suc_1 by simp
qed

lemma parse_mapped_unspecified:
  "parse_socket_addr ''[::ffff:0.0.0.0]:9090''
     = Some \<lparr>addr_ip = IpV6 [0, 0, 0, 0, 0, 0xFFFF, 0, 0], addr_port = 9090, addr_scope = 0\<rparr>"
proof -
  note parse = read_number_def to_digit_def read_separator_def read_ipv4_addr_def read_octet_def 
  have hex: "read_number 16 (Some 4) True 65536 ''ffff:0.0.0.0]:9090'' = Some (65535, '':0.0.0.0]:9090'')"
    "read_number 10 (Some 3) False 256 ''ffff:0.0.0.0]:9090'' = None"
    by (simp_all add: parse Let_def)
  have dot: "read_number 10 (Some 3) False 256 ''0.0.0.0]:9090'' = Some (0, ''.0.0.0]:9090'')"
   "read_number 10 (Some 3) False 256 ''0.0.0]:9090'' = Some (0, ''.0.0]:9090'')"
   "read_number 10 (Some 3) False 256 ''0.0]:9090'' = Some (0, ''.0]:9090'')"
   "read_number 10 (Some 3) False 256 ''0]:9090'' = Some (0, '']:9090'')"
   "read_number 10 None True 65536 ''9090'' = Some (9090, [])"
    by (simp_all add: parse Let_def)
  have none: "read_number 10 (Some 3) False 256 (CHR '':'' # s) = None" "read_number 16 (Some 4) True 65536 (CHR '':'' # s) = None" 
    "read_number 10 (Some 3) False 256 (CHR ''['' # s) = None" for s
    by (simp_all add: parse Let_def)
  have v4: "read_ipv4_addr ''0.0.0.0]:9090'' = Some ((0,0,0,0), '']:9090'')" "read_ipv4_addr ''ffff:0.0.0.0]:9090'' = None"
    "read_ipv4_addr (CHR '':'' # s) = None" for s
    using hex dot none by (simp_all add: read_ipv4_addr_def read_octet_def read_separator_def)
  have sep: "read_separator c 0 f s = f s" "read_separator c (Suc i) f (c # s) = f s" for c i s and f :: "string \<Rightarrow> ('a \<times> string) option"
    by (simp_all add: read_separator_def)
  have "read_groups 7 [] ''ffff:0.0.0.0]:9090'' = read_groups 6 [65535] '':0.0.0.0]:9090''"
    by (subst read_groups_step) (simp_all only: sep hex v4 list.size, simp_all)
  also have "\<dots> = ([65535, 0, 0], True, '']:9090'')"
    by (subst read_groups_step) (simp_all only: sep hex v4 list.size, simp_all add: sep v4)
  finally have tail: "read_groups 7 [] ''ffff:0.0.0.0]:9090'' = ([65535, 0, 0], True, '']:9090'')" .
  have head: "read_groups 8 [] ''::ffff:0.0.0.0]:9090'' = ([], False, ''::ffff:0.0.0.0]:9090'')"
    by (subst read_groups_step) (simp_all only: sep none v4 list.size, simp_all)
  have zeros: "replicate 5 (0 :: nat) = [0, 0, 0, 0, 0]"
    by (simp add: eval_nat_numeral)
  have "read_ipv6_addr ''::ffff:0.0.0.0]:9090'' = Some ([0, 0, 0, 0, 0, 65535, 0, 0], '']:9090'')"
    unfolding read_ipv6_addr_def head using tail zeros by simp
  moreover have "read_ipv4_addr ''[::ffff:0.0.0.0]:9090'' = None"
    using none by (simp add: read_ipv4_addr_def read_octet_def sep)
  ultimately show ?thesis
    using dot(5) by (simp add: parse_socket_addr_def read_socket_addr_v4_def read_socket_addr_v6_def read_scope_id_def read_port_def Let_def)
qed
lemma mapped_unspecified_address_is_accepted:
  "parse_bind res ''[::ffff:0.0.0.0]:9090'' True
     = Ok \<lparr>addr_ip = IpV6 [0, 0, 0, 0, 0, 0xFFFF, 0, 0], addr_port = 9090, addr_scope = 0\<rparr>"
proof -
  have "trim ''[::ffff:0.0.0.0]:9090'' = ''[::ffff:0.0.0.0]:9090''"
    by (rule trim_word) (simp add: is_ascii_graphic_def byte_in_def)
  moreover have "replicate 8 (0 :: u16) = [0, 0, 0, 0, 0, 0, 0, 0]"
    by (simp add: eval_nat_numeral)
  ultimately show ?thesis
    using parse_mapped_unspecified by (simp add: parse_bind_def parse_socket_def Let_def)
qed

end
