(* ===== verification/Sidecar_Config.thy ===== *)
theory Sidecar_Config
  imports Runtime_Updates Sidecar_Bind Env_Flags
begin

section \<open>Configuration of the sidecar\<close>

text \<open>
  \<open>src/src/hooks.rs\<close>, \<open>cli.rs\<close>, \<open>startup_env.rs\<close>, \<open>file_config.rs\<close> and \<open>config.rs\<close>. The TOML parser, the parser and the
  typed bindings of \<open>flags2env\<close>, the name resolver and the reading of a file are parameters. The runtime values and the
  controller of a configuration share one state in the source; the model keeps it in the controller.

  The theorems say that a sidecar file that passes validation can always be loaded for each of its sidecars,
  with values and a controller that respect their invariants, and that the precedence of the sources is
  as documented.
\<close>

subsection \<open>Overrides\<close>

record SidecarOverrides =
  ov_bind_raw :: "string \<Rightarrow> string"
  ov_allow_non_loopback :: "bool \<Rightarrow> bool"
  ov_probe :: ProductProbe

definition DefaultOverrides :: SidecarOverrides where
  "DefaultOverrides = \<lparr>ov_bind_raw = (\<lambda>raw. raw), ov_allow_non_loopback = (\<lambda>b. b), ov_probe = NoopProbe\<rparr>"

record SidecarHooks =
  hook_bind_raw :: "(string \<Rightarrow> string) option"
  hook_allow_non_loopback :: "(bool \<Rightarrow> bool) option"
  hook_extra_health :: "json_value option option"
  hook_ready :: "bool option"

definition SidecarHooks_new :: SidecarHooks where
  "SidecarHooks_new = \<lparr>hook_bind_raw = None, hook_allow_non_loopback = None, hook_extra_health = None, hook_ready = None\<rparr>"

definition with_bind_raw :: "(string \<Rightarrow> string) \<Rightarrow> SidecarHooks \<Rightarrow> SidecarHooks" where
  "with_bind_raw f h = h\<lparr>hook_bind_raw := Some f\<rparr>"

definition with_allow_non_loopback :: "(bool \<Rightarrow> bool) \<Rightarrow> SidecarHooks \<Rightarrow> SidecarHooks" where
  "with_allow_non_loopback f h = h\<lparr>hook_allow_non_loopback := Some f\<rparr>"

definition with_extra_health :: "json_value option \<Rightarrow> SidecarHooks \<Rightarrow> SidecarHooks" where
  "with_extra_health v h = h\<lparr>hook_extra_health := Some v\<rparr>"

definition with_ready :: "bool \<Rightarrow> SidecarHooks \<Rightarrow> SidecarHooks" where
  "with_ready b h = h\<lparr>hook_ready := Some b\<rparr>"

definition hooks_probe :: "SidecarHooks \<Rightarrow> ProductProbe" where
  "hooks_probe h =
     \<lparr>extra_health = Option.bind (hook_extra_health h) (\<lambda>v. v),
      ready = (case hook_ready h of None \<Rightarrow> True | Some b \<Rightarrow> b)\<rparr>"

definition hooks_overrides :: "SidecarHooks \<Rightarrow> SidecarOverrides" where
  "hooks_overrides h =
     \<lparr>ov_bind_raw = (\<lambda>raw. case hook_bind_raw h of Some f \<Rightarrow> f raw | None \<Rightarrow> raw),
      ov_allow_non_loopback = (\<lambda>b. case hook_allow_non_loopback h of Some f \<Rightarrow> f b | None \<Rightarrow> b),
      ov_probe = hooks_probe h\<rparr>"

subsection \<open>Command line\<close>

datatype SidecarCommand = ServeCommand | PreflightCommand | ProbeHealthzCommand | ProbeReadyzCommand

record CliResolution =
  cli_command :: SidecarCommand
  cli_values :: env_values

datatype CliError = CliInvalidConfiguration | CliInvalidArguments | CliParserUnavailable

fun CliError_message :: "CliError \<Rightarrow> string" where
  "CliError_message CliInvalidConfiguration = ''sidecar CLI configuration is invalid''"
| "CliError_message CliInvalidArguments = ''sidecar CLI arguments are invalid''"
| "CliError_message CliParserUnavailable = ''sidecar CLI parser is unavailable''"

text \<open>The checks of \<open>resolve\<close>, which come before the environment is read.\<close>

definition cli_arguments :: "flags2env \<Rightarrow> string list \<Rightarrow> string \<Rightarrow> CliError + SidecarCommand \<times> parsed_flags" where
  "cli_arguments F argv config_path =
     (if \<not> audit_config F config_path then Err CliInvalidConfiguration
      else
        bindR (ok_or CliParserUnavailable (parse_structured F argv config_path)) (\<lambda>parsed.
        if pf_errors parsed \<noteq> [] \<or> pf_unknown_options parsed \<noteq> [] \<or> pf_extras parsed \<noteq> []
        then Err CliInvalidArguments
        else if pf_command parsed = [] then Ok (ServeCommand, parsed)
        else if pf_command parsed = ''preflight'' then Ok (PreflightCommand, parsed)
        else if pf_command parsed = ''probe'' then Ok (ProbeHealthzCommand, parsed)
        else if pf_command parsed = ''probe-readyz'' then Ok (ProbeReadyzCommand, parsed)
        else Err CliInvalidArguments))"

definition cli_resolve :: "flags2env \<Rightarrow> string list \<Rightarrow> bindings \<Rightarrow> string \<Rightarrow> CliError + CliResolution" where
  "cli_resolve F argv process_env config_path =
     bindR (cli_arguments F argv config_path) (\<lambda>(command, parsed).
     Ok \<lparr>cli_command = command,
         cli_values = collect_map (pf_flags parsed @ pf_dotenv parsed @ process_env
           @ pf_dotenv_overrides parsed @ pf_provided_flags parsed)\<rparr>)"

subsection \<open>Startup environment\<close>

datatype env_value_kind = StringKind | BoolKind

datatype typed_value = TypedString string | TypedBool bool

record binding_spec =
  spec_field :: string
  spec_env :: string
  spec_kind :: env_value_kind

record EnvDiagnostic =
  diag_code :: string
  diag_name :: string
  diag_expected :: string
  diag_secret :: bool

text \<open>The crate's \<open>resolve_typed_bindings\<close> and its diagnostic code \<open>ENV_CONTRACT\<close>.\<close>

record typed_bindings =
  resolve_typed :: "env_values \<Rightarrow> binding_spec list \<Rightarrow> EnvDiagnostic list + (string \<rightharpoonup> typed_value)"
  env_contract_code :: string

record StartupEnv =
  startup_bind :: string
  startup_allow_non_loopback :: bool

definition contract_diagnostic :: "typed_bindings \<Rightarrow> string \<Rightarrow> string \<Rightarrow> EnvDiagnostic" where
  "contract_diagnostic T name expected_kind =
     \<lparr>diag_code = env_contract_code T, diag_name = name, diag_expected = expected_kind, diag_secret = False\<rparr>"

fun typed_as_str :: "typed_value \<Rightarrow> string option" where
  "typed_as_str (TypedString s) = Some s"
| "typed_as_str (TypedBool b) = None"

fun typed_as_bool :: "typed_value \<Rightarrow> bool option" where
  "typed_as_bool (TypedBool b) = Some b"
| "typed_as_bool (TypedString s) = None"

definition preflight_startup_with_keys ::
  "typed_bindings \<Rightarrow> env_values \<Rightarrow> string \<Rightarrow> string \<Rightarrow> EnvDiagnostic list + StartupEnv" where
  "preflight_startup_with_keys T vs bind_key allow_key =
     bindR (resolve_typed T vs
        [\<lparr>spec_field = ''bind'', spec_env = bind_key, spec_kind = StringKind\<rparr>,
         \<lparr>spec_field = ''allow_non_loopback'', spec_env = allow_key, spec_kind = BoolKind\<rparr>]) (\<lambda>resolved.
     case Option.bind (resolved ''bind'') typed_as_str of
       None \<Rightarrow> Err [contract_diagnostic T bind_key ''string'']
     | Some bind \<Rightarrow>
         (case Option.bind (resolved ''allow_non_loopback'') typed_as_bool of
            None \<Rightarrow> Err [contract_diagnostic T allow_key ''bool'']
          | Some allow \<Rightarrow> Ok \<lparr>startup_bind = bind, startup_allow_non_loopback = allow\<rparr>))"

definition preflight_startup :: "typed_bindings \<Rightarrow> env_values \<Rightarrow> EnvDiagnostic list + StartupEnv" where
  "preflight_startup T vs = preflight_startup_with_keys T vs BIND ALLOW_NON_LOOPBACK"

definition preflight_loopback_only_with_key ::
  "typed_bindings \<Rightarrow> env_values \<Rightarrow> string \<Rightarrow> EnvDiagnostic list + StartupEnv" where
  "preflight_loopback_only_with_key T vs bind_key =
     bindR (resolve_typed T vs [\<lparr>spec_field = ''bind'', spec_env = bind_key, spec_kind = StringKind\<rparr>]) (\<lambda>resolved.
     case Option.bind (resolved ''bind'') typed_as_str of
       None \<Rightarrow> Err [contract_diagnostic T bind_key ''string'']
     | Some bind \<Rightarrow> Ok \<lparr>startup_bind = bind, startup_allow_non_loopback = False\<rparr>)"

subsection \<open>The sidecar file\<close>

definition DEFAULT_SIDECAR_CONFIG_PATH :: string where
  "DEFAULT_SIDECAR_CONFIG_PATH = ''.ores-sidecar.toml''"

definition CONFIG_PROTOCOL :: string where
  "CONFIG_PROTOCOL = ''ores.sidecar/config/v1''"

definition DEFAULT_STARTUP_CONFIG :: string where
  "DEFAULT_STARTUP_CONFIG = ''.cli-flags.toml''"

definition MAX_CONFIG_FILE_BYTES :: nat where
  "MAX_CONFIG_FILE_BYTES = 256 * 1024"

definition MAX_SIDECARS :: nat where
  "MAX_SIDECARS = 64"

definition MAX_SIDECAR_RECONCILE_SECONDS :: u32 where
  "MAX_SIDECAR_RECONCILE_SECONDS = 180"

datatype RuntimeUpdateProvider = DisabledProvider | OresRedisLruCache

datatype RuntimeUpdateMode = DisabledMode | ReceiveOnly

record RuntimeUpdatePolicy =
  provider :: RuntimeUpdateProvider
  update_mode :: RuntimeUpdateMode
  poll_seconds :: u32
  policy_namespace :: string
  policy_cache :: string

definition accepts_keyspace :: "RuntimeUpdatePolicy \<Rightarrow> string \<Rightarrow> string \<Rightarrow> bool" where
  "accepts_keyspace p ns ca \<longleftrightarrow> policy_namespace p = ns \<and> policy_cache p = ca"

definition is_enabled :: "RuntimeUpdatePolicy \<Rightarrow> bool" where
  "is_enabled p \<longleftrightarrow> provider p = OresRedisLruCache \<and> update_mode p = ReceiveOnly"

record RuntimeValueDefinition =
  def_key :: string
  def_value :: string

record SidecarDefinition =
  sidecar_id :: string
  sidecar_path :: "string option"
  startup_config_field :: "string option"
  runtime_updates :: RuntimeUpdatePolicy
  runtime_mutable :: "string list"
  sidecar_values :: "RuntimeValueDefinition list"

definition startup_config :: "SidecarDefinition \<Rightarrow> string" where
  "startup_config d = (case startup_config_field d of Some s \<Rightarrow> s | None \<Rightarrow> DEFAULT_STARTUP_CONFIG)"

record OresSidecarFile =
  file_schema :: string
  sidecars :: "SidecarDefinition list"

record ResolvedSidecarFile =
  definition_of :: SidecarDefinition
  resolved_values :: RuntimeValues

definition validate_sidecar_identity :: "string \<Rightarrow> SidecarError + unit" where
  "validate_sidecar_identity i =
     (if i \<noteq> [] \<and> length i \<le> 128
        \<and> list_all (\<lambda>b. is_ascii_alphanumeric b \<or> b \<in> {CHR ''-'', CHR ''_'', CHR ''.''}) i
      then Ok ()
      else Err (InvalidConfig ''sidecar identity has an invalid shape''))"

definition validate_runtime_policy :: "RuntimeUpdatePolicy \<Rightarrow> SidecarError + unit" where
  "validate_runtime_policy p =
     (if \<not> (60 \<le> poll_seconds p \<and> poll_seconds p \<le> MAX_SIDECAR_RECONCILE_SECONDS)
        \<or> \<not> valid_keyspace_segment (policy_namespace p) \<or> \<not> valid_keyspace_segment (policy_cache p)
      then Err (InvalidConfig ''runtime update policy is outside Redis-LRU-compatible bounds'')
      else if \<not> (provider p = DisabledProvider \<and> update_mode p = DisabledMode
                 \<or> provider p = OresRedisLruCache \<and> update_mode p = ReceiveOnly)
      then Err (InvalidConfig ''runtime update provider and mode are incompatible'')
      else Ok ())"

definition definition_values :: "SidecarDefinition \<Rightarrow> SidecarError + RuntimeValues" where
  "definition_values d = RuntimeValues_new (runtime_mutable d) (map (\<lambda>e. (def_key e, def_value e)) (sidecar_values d))"

definition validate_sidecar_shape :: "SidecarDefinition \<Rightarrow> SidecarError + unit" where
  "validate_sidecar_shape d =
     (if sidecar_path d = Some [] \<or> startup_config_field d = Some []
      then Err (InvalidConfig ''sidecar path fields cannot be empty'')
      else
        bindR (validate_runtime_policy (runtime_updates d)) (\<lambda>_.
        bindR (definition_values d) (\<lambda>_. Ok ())))"

definition admit_sidecar :: "string fset \<Rightarrow> SidecarDefinition \<Rightarrow> SidecarError + string fset" where
  "admit_sidecar ids d =
     bindR (validate_sidecar_identity (sidecar_id d)) (\<lambda>_.
     if sidecar_id d |\<in>| ids then Err (InvalidConfig ''sidecar identities must be unique'')
     else bindR (validate_sidecar_shape d) (\<lambda>_. Ok (finsert (sidecar_id d) ids)))"

definition validate_sidecar_file :: "OresSidecarFile \<Rightarrow> SidecarError + unit" where
  "validate_sidecar_file f =
     (if file_schema f \<noteq> CONFIG_PROTOCOL then Err (InvalidConfig ''unsupported sidecar config schema'')
      else if sidecars f = [] \<or> length (sidecars f) > MAX_SIDECARS
      then Err (InvalidConfig ''sidecar list must be non-empty and bounded'')
      else bindR (try_fold admit_sidecar {||} (sidecars f)) (\<lambda>_. Ok ()))"

text \<open>The TOML parser and the file system.\<close>

record sidecar_env =
  toml_from_str :: "string \<Rightarrow> OresSidecarFile option"
  fs_read :: "string \<Rightarrow> io_kind + bytes"
  io_message :: "io_kind \<Rightarrow> string"
  to_socket_addrs :: resolver

definition OresSidecarFile_parse :: "sidecar_env \<Rightarrow> string \<Rightarrow> SidecarError + OresSidecarFile" where
  "OresSidecarFile_parse E input =
     (if length input > MAX_CONFIG_FILE_BYTES then Err (InvalidConfig ''sidecar config exceeds the size limit'')
      else
        bindR (ok_or (InvalidConfig ''sidecar config is not valid TOML'') (toml_from_str E input)) (\<lambda>parsed.
        bindR (validate_sidecar_file parsed) (\<lambda>_. Ok parsed)))"

definition parse_file_bytes :: "sidecar_env \<Rightarrow> bytes \<Rightarrow> SidecarError + OresSidecarFile" where
  "parse_file_bytes E b =
     (if length b > MAX_CONFIG_FILE_BYTES then Err (InvalidConfig ''sidecar config exceeds the size limit'')
      else if \<not> valid_utf8 b then Err (InvalidConfig ''sidecar config must be UTF-8'')
      else OresSidecarFile_parse E b)"

definition OresSidecarFile_load :: "sidecar_env \<Rightarrow> string \<Rightarrow> SidecarError + OresSidecarFile" where
  "OresSidecarFile_load E path =
     (case fs_read E path of
        Err k \<Rightarrow> Err (SidecarIo (io_message E k))
      | Ok b \<Rightarrow> parse_file_bytes E b)"

definition load_optional :: "sidecar_env \<Rightarrow> string \<Rightarrow> SidecarError + OresSidecarFile option" where
  "load_optional E path =
     (case fs_read E path of
        Ok b \<Rightarrow> bindR (parse_file_bytes E b) (\<lambda>f. Ok (Some f))
      | Err k \<Rightarrow> if k = NotFound then Ok None else Err (SidecarIo (io_message E k)))"

definition resolve_sidecar :: "OresSidecarFile \<Rightarrow> string \<Rightarrow> SidecarError + ResolvedSidecarFile" where
  "resolve_sidecar f svc =
     bindR (ok_or (MissingSidecar svc) (List.find (\<lambda>d. sidecar_id d = svc) (sidecars f))) (\<lambda>d.
     bindR (definition_values d) (\<lambda>vs.
     Ok \<lparr>definition_of = d, resolved_values = vs\<rparr>))"

subsection \<open>The configuration\<close>

text \<open>The handle \<open>runtime_values\<close> of the configuration shares its map with the controller, which holds it here.\<close>

record SidecarConfig =
  cfg_identity :: SidecarIdentity
  cfg_listen :: SocketAddr
  cfg_overrides :: SidecarOverrides
  cfg_controller :: RuntimeUpdateController
  cfg_runtime_updates :: "RuntimeUpdatePolicy option"

definition from_bind_with ::
  "sidecar_env \<Rightarrow> SidecarIdentity \<Rightarrow> string \<Rightarrow> bool \<Rightarrow> SidecarOverrides \<Rightarrow> SidecarError + SidecarConfig" where
  "from_bind_with E identity raw allow ov =
     bindR (parse_bind (to_socket_addrs E) raw allow) (\<lambda>listen.
     Ok \<lparr>cfg_identity = identity, cfg_listen = listen, cfg_overrides = ov,
         cfg_controller = RuntimeUpdateController_new RuntimeValues_default, cfg_runtime_updates = None\<rparr>)"

definition from_bind :: "sidecar_env \<Rightarrow> SidecarIdentity \<Rightarrow> string \<Rightarrow> bool \<Rightarrow> SidecarError + SidecarConfig" where
  "from_bind E identity raw allow = from_bind_with E identity raw allow DefaultOverrides"

definition try_from_env_with ::
  "sidecar_env \<Rightarrow> env_values \<Rightarrow> SidecarIdentity \<Rightarrow> SidecarOverrides \<Rightarrow> SidecarError + SidecarConfig" where
  "try_from_env_with E env identity ov =
     (let raw = (case env (bind_env identity) of Some s \<Rightarrow> s | None \<Rightarrow> default_bind identity);
          bind = ov_bind_raw ov raw;
          allow = ov_allow_non_loopback ov (allow_non_loopback_from_env env) in
      from_bind_with E identity bind allow ov)"

definition try_from_env :: "sidecar_env \<Rightarrow> env_values \<Rightarrow> SidecarIdentity \<Rightarrow> SidecarError + SidecarConfig" where
  "try_from_env E env identity = try_from_env_with E env identity DefaultOverrides"

definition with_loaded_sidecar_file :: "SidecarConfig \<Rightarrow> OresSidecarFile \<Rightarrow> SidecarError + SidecarConfig" where
  "with_loaded_sidecar_file c f =
     bindR (resolve_sidecar f (service (cfg_identity c))) (\<lambda>resolved.
     let policy = runtime_updates (definition_of resolved); vs = resolved_values resolved in
     bindR (if is_enabled policy then for_target vs (policy_namespace policy) (policy_cache policy)
            else Ok (RuntimeUpdateController_new vs)) (\<lambda>controller.
     Ok (c\<lparr>cfg_controller := controller, cfg_runtime_updates := Some policy\<rparr>)))"

definition with_sidecar_file :: "sidecar_env \<Rightarrow> SidecarConfig \<Rightarrow> string \<Rightarrow> SidecarError + SidecarConfig" where
  "with_sidecar_file E c path = bindR (OresSidecarFile_load E path) (with_loaded_sidecar_file c)"

definition with_optional_sidecar_file :: "sidecar_env \<Rightarrow> SidecarConfig \<Rightarrow> string \<Rightarrow> SidecarError + SidecarConfig" where
  "with_optional_sidecar_file E c path =
     bindR (load_optional E path) (\<lambda>r.
     case r of Some f \<Rightarrow> with_loaded_sidecar_file c f | None \<Rightarrow> Ok c)"

subsection \<open>A validated file can be loaded\<close>

definition sidecar_ok :: "SidecarDefinition \<Rightarrow> bool" where
  "sidecar_ok d \<longleftrightarrow> validate_sidecar_identity (sidecar_id d) = Ok () \<and> sidecar_path d \<noteq> Some [] \<and> startup_config_field d \<noteq> Some []
     \<and> validate_runtime_policy (runtime_updates d) = Ok () \<and> (\<exists>vs. definition_values d = Ok vs)"

lemma admit_sidecars_Ok:
  assumes "try_fold admit_sidecar ids ds = Ok ids'"
  shows "list_all sidecar_ok ds" and "distinct (map sidecar_id ds)" and "\<forall>d\<in>set ds. sidecar_id d |\<notin>| ids"
  using assms
  by (induction ds arbitrary: ids)
    (auto simp: bindR_Ok_iff admit_sidecar_def validate_sidecar_shape_def sidecar_ok_def image_iff split: if_splits,
      metis finsertI1)

lemma validate_sidecar_file_Ok:
  assumes "validate_sidecar_file f = Ok ()"
  shows "list_all sidecar_ok (sidecars f)" and "distinct (map sidecar_id (sidecars f))" and "file_schema f = CONFIG_PROTOCOL"
    and "length (sidecars f) \<le> MAX_SIDECARS"
  using assms admit_sidecars_Ok[of "{||}" "sidecars f"]
  by (auto simp: validate_sidecar_file_def bindR_Ok_iff split: if_splits)

lemma find_distinct:
  "distinct (map g xs) \<Longrightarrow> x \<in> set xs \<Longrightarrow> List.find (\<lambda>y. g y = g x) xs = Some x"
  by (induction xs) (auto simp: image_iff)

lemma policy_target:
  "validate_runtime_policy p = Ok () \<Longrightarrow>
     RuntimeUpdateTarget_new (policy_namespace p) (policy_cache p)
       = Ok \<lparr>target_namespace = policy_namespace p, target_cache = policy_cache p\<rparr>"
  by (auto simp: validate_runtime_policy_def RuntimeUpdateTarget_new_def Let_def split: if_splits)

definition fresh_controller :: "RuntimeUpdatePolicy \<Rightarrow> RuntimeValues \<Rightarrow> RuntimeUpdateController" where
  "fresh_controller p vs =
     \<lparr>ctl_values = vs,
      ctl_target = (if is_enabled p then Some \<lparr>target_namespace = policy_namespace p, target_cache = policy_cache p\<rparr> else None),
      ctl_state = RuntimeUpdateInner_default, ctl_poisoned = False\<rparr>"

text \<open>
  C29: A sidecar file that passes its validation loads. For each of its sidecars, loading the file into a
  configuration of that service succeeds: nothing that is checked again on the way (the runtime keys, the
  values, the keyspace of the update target) can fail. The controller starts at revision 0 with the declared values,
  which respect their invariant, and has a target exactly when the policy enables updates; the listen address is
  unchanged. Identities in the file are unique, so the sidecar that is found is the one with that name.
\<close>

theorem validated_file_loads:
  assumes "OresSidecarFile_parse E input = Ok f" and "d \<in> set (sidecars f)" and "service (cfg_identity c) = sidecar_id d"
  shows "\<exists>vs. definition_values d = Ok vs \<and> values_ok vs
    \<and> with_loaded_sidecar_file c f
        = Ok (c\<lparr>cfg_controller := fresh_controller (runtime_updates d) vs, cfg_runtime_updates := Some (runtime_updates d)\<rparr>)"
proof -
  have valid: "validate_sidecar_file f = Ok ()"
    using assms(1) by (auto simp: OresSidecarFile_parse_def bindR_Ok_iff split: if_splits)
  then have ok: "sidecar_ok d" and found: "List.find (\<lambda>y. sidecar_id y = sidecar_id d) (sidecars f) = Some d"
    using validate_sidecar_file_Ok[OF valid] assms(2) by (auto simp: list_all_iff intro: find_distinct)
  from ok obtain vs where vs: "definition_values d = Ok vs"
    by (auto simp: sidecar_ok_def)
  have "values_ok vs"
    using vs new_values_ok by (auto simp: definition_values_def)
  moreover have "resolve_sidecar f (service (cfg_identity c)) = Ok \<lparr>definition_of = d, resolved_values = vs\<rparr>"
    using found vs assms(3) by (simp add: resolve_sidecar_def ok_or_def)
  moreover have "(if is_enabled (runtime_updates d)
        then for_target vs (policy_namespace (runtime_updates d)) (policy_cache (runtime_updates d))
        else Ok (RuntimeUpdateController_new vs)) = Ok (fresh_controller (runtime_updates d) vs)"
    using policy_target[of "runtime_updates d"] ok
    by (simp add: sidecar_ok_def for_target_def fresh_controller_def RuntimeUpdateController_new_def)
  ultimately show ?thesis
    using vs by (simp add: with_loaded_sidecar_file_def Let_def split: if_splits)
qed

definition sample_definition :: SidecarDefinition where
  "sample_definition = \<lparr>sidecar_id = ''ores-otel-sidecar'', sidecar_path = None, startup_config_field = None,
     runtime_updates = \<lparr>provider = OresRedisLruCache, update_mode = ReceiveOnly, poll_seconds = 60,
       policy_namespace = ''sidecar'', policy_cache = ''runtime-env''\<rparr>,
     runtime_mutable = [''REQUEST_TIMEOUT_MS'', ''LOG_FILTER''],
     sidecar_values = [\<lparr>def_key = ''LOG_FILTER'', def_value = ''info''\<rparr>]\<rparr>"

definition sample_file :: OresSidecarFile where
  "sample_file = \<lparr>file_schema = CONFIG_PROTOCOL, sidecars = [sample_definition]\<rparr>"

definition sample_env :: sidecar_env where
  "sample_env = \<lparr>toml_from_str = (\<lambda>_. Some sample_file), fs_read = (\<lambda>_. Ok []), io_message = (\<lambda>_. []),
     to_socket_addrs = (\<lambda>_. Err OtherKind)\<rparr>"

lemma sample_definition_values: "definition_values sample_definition = Ok sample_runtime_values"
  using sample_runtime_values_new by (simp add: definition_values_def sample_definition_def)

lemma sample_policy: "validate_runtime_policy (runtime_updates sample_definition) = Ok ()"
  by (simp add: sample_definition_def validate_runtime_policy_def valid_keyspace_segment_def
      MAX_SIDECAR_RECONCILE_SECONDS_def MAX_RUNTIME_KEYSPACE_SEGMENT_BYTES_def is_ascii_alphanumeric_def
      is_ascii_lowercase_def is_ascii_uppercase_def is_ascii_digit_def byte_in_def)

lemma sample_file_parses: "OresSidecarFile_parse sample_env [] = Ok sample_file"
proof -
  have "validate_sidecar_shape sample_definition = Ok ()"
    using sample_definition_values sample_policy
    by (simp add: validate_sidecar_shape_def sample_definition_def)
  moreover have "validate_sidecar_identity (sidecar_id sample_definition) = Ok ()"
    by (simp add: validate_sidecar_identity_def sample_definition_def is_ascii_alphanumeric_def
        is_ascii_lowercase_def is_ascii_uppercase_def is_ascii_digit_def byte_in_def)
  ultimately show ?thesis
    by (simp add: OresSidecarFile_parse_def sample_env_def sample_file_def validate_sidecar_file_def ok_or_def
        admit_sidecar_def MAX_CONFIG_FILE_BYTES_def MAX_SIDECARS_def)
qed

theorem validated_file_loads_witness:
  "\<exists>c vs. from_bind sample_env ORES_OTEL (ipv4_text 127 0 0 1 9090) False = Ok c \<and> values_ok vs
     \<and> with_loaded_sidecar_file c sample_file = Ok (c\<lparr>cfg_controller := fresh_controller (runtime_updates sample_definition) vs,
         cfg_runtime_updates := Some (runtime_updates sample_definition)\<rparr>)"
proof -
  have "parse_bind (to_socket_addrs sample_env) (ipv4_text 127 0 0 1 9090) False
      = Ok \<lparr>addr_ip = IpV4 127 0 0 1, addr_port = 9090, addr_scope = 0\<rparr>"
    by (simp add: parse_bind_ipv4)
  then obtain c where c: "from_bind sample_env ORES_OTEL (ipv4_text 127 0 0 1 9090) False = Ok c" "cfg_identity c = ORES_OTEL"
    by (simp add: from_bind_def from_bind_with_def)
  have "service (cfg_identity c) = sidecar_id sample_definition"
    by (simp add: c(2) ORES_OTEL_def SidecarIdentity_new_def SERVICE_def sample_definition_def)
  then have "\<exists>vs. definition_values sample_definition = Ok vs \<and> values_ok vs
      \<and> with_loaded_sidecar_file c sample_file = Ok (c\<lparr>cfg_controller := fresh_controller (runtime_updates sample_definition) vs,
         cfg_runtime_updates := Some (runtime_updates sample_definition)\<rparr>)"
    by (intro validated_file_loads[OF sample_file_parses]) (simp_all add: sample_file_def)
  with c(1) show ?thesis
    by blast
qed

subsection \<open>Only declared values become visible\<close>

lemma loaded_values:
  assumes "OresSidecarFile_parse E input = Ok f" and "with_loaded_sidecar_file c f = Ok c'"
  obtains d where "d \<in> set (sidecars f)" and "sidecar_id d = service (cfg_identity c)"
    and "definition_values d = Ok (ctl_values (cfg_controller c'))"
proof -
  obtain d vs where d: "List.find (\<lambda>d. sidecar_id d = service (cfg_identity c)) (sidecars f) = Some d" "definition_values d = Ok vs"
    and v: "ctl_values (cfg_controller c') = vs"
    using assms(2)
    by (auto simp: with_loaded_sidecar_file_def resolve_sidecar_def bindR_Ok_iff Let_def for_target_def RuntimeUpdateController_new_def
        split: if_splits)
  from d(1) have "d \<in> set (sidecars f)" "sidecar_id d = service (cfg_identity c)"
    by (auto simp: find_Some_iff)
  then show ?thesis
    using that d(2) v by blast
qed

text \<open>
  C15: Configured values stay declared. After a sidecar file was loaded, whatever snapshots, events and local patches
  reach the controller, in any order and number, no call panics, and everything that a lookup returns belongs to a
  key that the file declares for this sidecar; it is never a key that looks like a secret, and keys and values stay
  within their bounds.
\<close>

theorem configured_values_stay_declared:
  assumes "OresSidecarFile_parse E input = Ok f" and "with_loaded_sidecar_file c f = Ok c'"
  shows "\<exists>d \<in> set (sidecars f). sidecar_id d = service (cfg_identity c) \<and>
    (\<exists>ctl. controller_run calls (cfg_controller c') = Some ctl
      \<and> (\<forall>k s. values_get (ctl_values ctl) k = Ok (Some s) \<longrightarrow>
           k \<in> set (runtime_mutable d) \<and> \<not> is_sensitive_runtime_key k
           \<and> length k \<le> MAX_RUNTIME_KEY_BYTES \<and> length s \<le> MAX_RUNTIME_VALUE_BYTES))"
proof -
  obtain d where d: "d \<in> set (sidecars f)" "sidecar_id d = service (cfg_identity c)"
      "definition_values d = Ok (ctl_values (cfg_controller c'))"
    using loaded_values [OF assms] .
  have keys: "values_ok (ctl_values (cfg_controller c'))" "fset (mutable (ctl_values (cfg_controller c'))) = set (runtime_mutable d)"
    using d(3) new_values_ok new_values_mutable by (auto simp: definition_values_def)
  obtain ctl where run: "controller_run calls (cfg_controller c') = Some ctl"
    using controller_run_total by blast
  have "k \<in> set (runtime_mutable d) \<and> \<not> is_sensitive_runtime_key k
      \<and> length k \<le> MAX_RUNTIME_KEY_BYTES \<and> length s \<le> MAX_RUNTIME_VALUE_BYTES"
    if "values_get (ctl_values ctl) k = Ok (Some s)" for k s
    using value_handle.steps_lookup [OF controller_run_values [OF run] keys(1) that] keys(2)
    by (auto simp: validate_runtime_key_def Let_def split: if_splits)
  then show ?thesis
    using d run by blast
qed

lemma sample_file_loads:
  "\<exists>c c'. cfg_identity c = ORES_OTEL \<and> with_loaded_sidecar_file c sample_file = Ok c'
     \<and> ctl_values (cfg_controller c') = sample_runtime_values"
proof -
  have "resolve_sidecar sample_file (service ORES_OTEL) = Ok \<lparr>definition_of = sample_definition, resolved_values = sample_runtime_values\<rparr>"
    using sample_definition_values
    by (simp add: resolve_sidecar_def sample_file_def ORES_OTEL_def SidecarIdentity_new_def SERVICE_def sample_definition_def)
  moreover obtain ctl where "for_target sample_runtime_values (policy_namespace (runtime_updates sample_definition))
      (policy_cache (runtime_updates sample_definition)) = Ok ctl" "ctl_values ctl = sample_runtime_values"
    using policy_target [OF sample_policy] by (simp add: for_target_def)
  moreover have "is_enabled (runtime_updates sample_definition)"
    by (simp add: is_enabled_def sample_definition_def)
  ultimately have "with_loaded_sidecar_file \<lparr>cfg_identity = ORES_OTEL, cfg_listen = l, cfg_overrides = ov, cfg_controller = old,
      cfg_runtime_updates = None\<rparr> sample_file = Ok \<lparr>cfg_identity = ORES_OTEL, cfg_listen = l, cfg_overrides = ov,
      cfg_controller = ctl, cfg_runtime_updates = Some (runtime_updates sample_definition)\<rparr>" for l ov old
    by (simp add: with_loaded_sidecar_file_def Let_def)
  then show ?thesis
    using \<open>ctl_values ctl = sample_runtime_values\<close>
    by (metis SidecarConfig.select_convs(1,4))
qed

theorem configured_values_stay_declared_witness:
  "\<exists>c c' ctl. with_loaded_sidecar_file c sample_file = Ok c'
     \<and> controller_run [PatchCall [update_set ''LOG_FILTER'' ''debug'', update_set ''API_TOKEN'' ''x'']] (cfg_controller c') = Some ctl
     \<and> values_get (ctl_values ctl) ''API_TOKEN'' \<noteq> Ok (Some ''x'')"
proof -
  let ?calls = "[PatchCall [update_set ''LOG_FILTER'' ''debug'', update_set ''API_TOKEN'' ''x'']]"
  obtain c c' where c': "with_loaded_sidecar_file c sample_file = Ok c'"
    using sample_file_loads by blast
  obtain d ctl where d: "d \<in> set (sidecars sample_file)" and run: "controller_run ?calls (cfg_controller c') = Some ctl"
    and vis: "values_get (ctl_values ctl) ''API_TOKEN'' = Ok (Some ''x'') \<longrightarrow> ''API_TOKEN'' \<in> set (runtime_mutable d)"
    using configured_values_stay_declared [OF sample_file_parses c', of ?calls] by blast
  have "''API_TOKEN'' \<notin> set (runtime_mutable d)"
    using d by (simp add: sample_file_def sample_definition_def)
  then show ?thesis
    using c' run vis by blast
qed

subsection \<open>The sample file of the documentation\<close>

text \<open>
  The sample in \<open>README.md\<close> has the namespace \<open>ores-otel-sidecar/runtime\<close>, which no policy can have: a slash is not a
  character of a keyspace segment. The file at the root of the repository has a namespace without it.
\<close>

lemma documented_namespace_is_refused:
  "policy_namespace p = ''ores-otel-sidecar/runtime'' \<Longrightarrow> is_Err (validate_runtime_policy p)"
proof -
  have "\<not> valid_keyspace_segment ''ores-otel-sidecar/runtime''"
    by (simp add: valid_keyspace_segment_def is_ascii_alphanumeric_def is_ascii_lowercase_def is_ascii_uppercase_def
        is_ascii_digit_def byte_in_def)
  then show "policy_namespace p = ''ores-otel-sidecar/runtime'' \<Longrightarrow> is_Err (validate_runtime_policy p)"
    by (simp add: validate_runtime_policy_def)
qed

end
