(* ===== verification/Sidecar_Runtime.thy ===== *)
theory Sidecar_Runtime
  imports Sidecar_Config
begin

section \<open>The sidecar process\<close>

text \<open>
  \<open>src/src/log.rs\<close>, \<open>runtime.rs\<close> and \<open>main.rs\<close>: diagnostics, the execution of a command and the boot
  sequence. The operating system gives the result of binding a listener, the connections that arrive (a finite
  prefix of the endless sequence) and the peer that a probe reaches; the clock gives the calendar fields of a
  diagnostic's time. A run ends with an exit code or is still serving.

  The theorems say that the process listens on nothing but the address that passed the bind policy, that
  diagnostics carry no payload, and which exit code each failure of the boot sequence has.
\<close>

subsection \<open>Diagnostics\<close>

definition SCHEMA :: string where
  "SCHEMA = ''ores.otel.log/internal-diagnostic/v1''"

definition FALLBACK_SERVICE :: string where
  "FALLBACK_SERVICE = ''ores-otel-sidecar''"

datatype Severity = Warn | SeverityError | Fatal

datatype Operation = SidecarConfigure | SidecarListen | SidecarProbe

datatype Outcome = OutcomeFailed | OutcomeRejected

record date_time =
  dt_year :: nat
  dt_month :: nat
  dt_day :: nat
  dt_hour :: nat
  dt_minute :: nat
  dt_second :: nat
  dt_millisecond :: nat

record InternalDiagnostic =
  d_schema :: string
  d_timestamp :: string
  d_service :: string
  d_severity :: Severity
  d_component :: string
  d_operation :: Operation
  d_outcome :: Outcome
  d_retryable :: bool
  d_attempt :: u8
  d_dropped :: u16
  d_suppressed :: u16
  d_suppression_saturated :: bool

definition valid_service :: "string \<Rightarrow> bool" where
  "valid_service s \<longleftrightarrow> s \<noteq> [] \<and> length s \<le> 128
     \<and> list_all (\<lambda>(index, byte). is_ascii_alphanumeric byte \<or> index > 0 \<and> byte \<in> set ''._-'') (enumerate 0 s)"

definition pad :: "nat \<Rightarrow> nat \<Rightarrow> string" where
  "pad width n = replicate (width - length (show_nat n)) (CHR ''0'') @ show_nat n"

definition timestamp :: "date_time \<Rightarrow> string" where
  "timestamp t =
     pad 4 (dt_year t) @ ''-'' @ pad 2 (dt_month t) @ ''-'' @ pad 2 (dt_day t) @ ''T'' @ pad 2 (dt_hour t) @ '':''
     @ pad 2 (dt_minute t) @ '':'' @ pad 2 (dt_second t) @ ''.'' @ pad 3 (dt_millisecond t) @ ''Z''"

definition diagnostic :: "string \<Rightarrow> Severity \<Rightarrow> Operation \<Rightarrow> Outcome \<Rightarrow> bool \<Rightarrow> date_time \<Rightarrow> InternalDiagnostic" where
  "diagnostic svc sev op out retry at_time =
     \<lparr>d_schema = SCHEMA, d_timestamp = timestamp at_time,
      d_service = (if valid_service svc then svc else FALLBACK_SERVICE), d_severity = sev, d_component = ''sidecar'',
      d_operation = op, d_outcome = out, d_retryable = retry, d_attempt = 0, d_dropped = 0, d_suppressed = 0,
      d_suppression_saturated = False\<rparr>"

text \<open>The writer gets the serialised diagnostic, a line feed and a flush; its failures are swallowed by the caller.\<close>

definition write_to_at ::
  "(InternalDiagnostic \<Rightarrow> string option) \<Rightarrow> string \<Rightarrow> Severity \<Rightarrow> Operation \<Rightarrow> Outcome \<Rightarrow> bool \<Rightarrow> date_time \<Rightarrow> string" where
  "write_to_at to_writer svc sev op out retry at_time =
     (case to_writer (diagnostic svc sev op out retry at_time) of None \<Rightarrow> [] | Some s \<Rightarrow> text_line s)"

text \<open>\<open>write_stderr\<close>: the bytes on stderr, at the time of the clock; a diagnostic that cannot be serialised leaves none.\<close>

definition write_stderr ::
  "(InternalDiagnostic \<Rightarrow> string option) \<Rightarrow> date_time \<Rightarrow> string \<Rightarrow> Severity \<Rightarrow> Operation \<Rightarrow> Outcome \<Rightarrow> bool \<Rightarrow> string" where
  "write_stderr to_writer now_utc svc sev op out retry = write_to_at to_writer svc sev op out retry now_utc"

subsection \<open>Commands\<close>

definition DEFAULT_CLI_CONFIG_PATH :: string where
  "DEFAULT_CLI_CONFIG_PATH = ''.cli-flags.toml''"

record sidecar_os =
  os_bind :: "SocketAddr \<Rightarrow> io_kind + (io_kind + stream) list"
  os_set_blocking :: "io_kind + unit"
  os_dial :: "SocketAddr \<Rightarrow> tcp_peer"
  os_now :: date_time
  os_json :: "json_value \<Rightarrow> string option"
  os_metrics :: "string \<Rightarrow> string"

text \<open>What a run leaves behind: its exit code (\<open>None\<close> while it serves), diagnostics, listeners and answers.\<close>

record sidecar_run =
  exit_code :: "int option"
  run_diagnostics :: "InternalDiagnostic list"
  listened :: "SocketAddr list"
  answered :: "string list"

definition exit_rejected :: "sidecar_os \<Rightarrow> SidecarIdentity \<Rightarrow> int \<Rightarrow> sidecar_run" where
  "exit_rejected S identity code =
     \<lparr>exit_code = Some code,
      run_diagnostics = [diagnostic (service identity) Fatal SidecarConfigure OutcomeRejected False (os_now S)],
      listened = [], answered = []\<rparr>"

definition exit_invalid_cli :: "sidecar_os \<Rightarrow> SidecarIdentity \<Rightarrow> sidecar_run" where
  "exit_invalid_cli S identity = exit_rejected S identity 2"

definition exit_invalid_config :: "sidecar_os \<Rightarrow> SidecarIdentity \<Rightarrow> sidecar_run" where
  "exit_invalid_config S identity = exit_rejected S identity 1"

definition exit_probe :: "sidecar_os \<Rightarrow> SidecarConfig \<Rightarrow> string \<Rightarrow> sidecar_run" where
  "exit_probe S c path =
     (let code = probe_exit (os_dial S (cfg_listen c)) path in
      \<lparr>exit_code = Some code,
       run_diagnostics =
         (if code \<noteq> 0
          then [diagnostic (service (cfg_identity c)) SeverityError SidecarProbe OutcomeFailed True (os_now S)]
          else []),
       listened = [], answered = []\<rparr>)"

text \<open>The error that ended the listener, if any, the addresses that were bound and the answers.\<close>

definition run_with_probe ::
  "sidecar_os \<Rightarrow> SidecarConfig \<Rightarrow> ProductProbe \<Rightarrow> io_kind option \<times> SocketAddr list \<times> string list" where
  "run_with_probe S c probe =
     (case os_bind S (cfg_listen c) of
        Err k \<Rightarrow> (Some k, [], [])
      | Ok arrivals \<Rightarrow>
          (case os_set_blocking S of
             Err k \<Rightarrow> (Some k, [cfg_listen c], [])
           | Ok _ \<Rightarrow>
               let (served, end) =
                 serve_listener (handle_connection (os_json S) (os_metrics S) (cfg_identity c) probe) arrivals in
               (end, [cfg_listen c], served)))"

definition run_command :: "sidecar_os \<Rightarrow> SidecarConfig \<Rightarrow> SidecarCommand \<Rightarrow> sidecar_run" where
  "run_command S c command =
     (case command of
        PreflightCommand \<Rightarrow> \<lparr>exit_code = Some 0, run_diagnostics = [], listened = [], answered = []\<rparr>
      | ProbeHealthzCommand \<Rightarrow> exit_probe S c ''/healthz''
      | ProbeReadyzCommand \<Rightarrow> exit_probe S c ''/readyz''
      | ServeCommand \<Rightarrow>
          (case run_with_probe S c (ov_probe (cfg_overrides c)) of
             (Some _, ls, served) \<Rightarrow>
               \<lparr>exit_code = Some 1,
                run_diagnostics = [diagnostic (service (cfg_identity c)) Fatal SidecarListen OutcomeFailed False (os_now S)],
                listened = ls, answered = served\<rparr>
           | (None, ls, served) \<Rightarrow> \<lparr>exit_code = None, run_diagnostics = [], listened = ls, answered = served\<rparr>))"

definition sidecar_main ::
  "flags2env \<Rightarrow> typed_bindings \<Rightarrow> sidecar_env \<Rightarrow> sidecar_os \<Rightarrow> string list \<Rightarrow> bindings \<Rightarrow> sidecar_run" where
  "sidecar_main F T E S argv process_env =
     (let identity = ORES_OTEL in
      case cli_resolve F argv process_env DEFAULT_CLI_CONFIG_PATH of
        Err _ \<Rightarrow> exit_invalid_cli S identity
      | Ok invocation \<Rightarrow>
          (case preflight_startup T (cli_values invocation) of
             Err _ \<Rightarrow> exit_invalid_config S identity
           | Ok startup \<Rightarrow>
               (case from_bind E identity (startup_bind startup) (startup_allow_non_loopback startup) of
                  Err _ \<Rightarrow> exit_invalid_config S identity
                | Ok cfg \<Rightarrow>
                    (case with_optional_sidecar_file E cfg DEFAULT_SIDECAR_CONFIG_PATH of
                       Err _ \<Rightarrow> exit_invalid_config S identity
                     | Ok cfg \<Rightarrow> run_command S cfg (cli_command invocation)))))"

text \<open>
  The entry points of product sidecars: a configuration from the environment, or the rejected run that ends the
  process, and the compatibility entry point that resolves the command line after the configuration was built.
\<close>

definition from_env_with ::
  "sidecar_os \<Rightarrow> sidecar_env \<Rightarrow> env_values \<Rightarrow> SidecarIdentity \<Rightarrow> SidecarOverrides \<Rightarrow> sidecar_run + SidecarConfig" where
  "from_env_with S E env identity ov =
     (case try_from_env_with E env identity ov of
        Ok config \<Rightarrow> Ok config
      | Err _ \<Rightarrow> Err (exit_rejected S identity 1))"

definition from_env :: "sidecar_os \<Rightarrow> sidecar_env \<Rightarrow> env_values \<Rightarrow> SidecarIdentity \<Rightarrow> sidecar_run + SidecarConfig" where
  "from_env S E env identity = from_env_with S E env identity DefaultOverrides"

definition product_run :: "flags2env \<Rightarrow> sidecar_os \<Rightarrow> string list \<Rightarrow> bindings \<Rightarrow> SidecarConfig \<Rightarrow> sidecar_run" where
  "product_run F S argv process_env c =
     (case cli_resolve F argv process_env DEFAULT_CLI_CONFIG_PATH of
        Ok invocation \<Rightarrow> run_command S c (cli_command invocation)
      | Err _ \<Rightarrow> exit_invalid_cli S (cfg_identity c))"

subsection \<open>What a run can do\<close>

text \<open>
  The probe commands dial the listen address. The comment of \<open>loopback_probe_addr\<close> says that they always dial loopback,
  but nothing calls that function: with the override, a probe of a sidecar on \<open>10.0.0.1:9090\<close> dials that address.
\<close>

lemma probes_dial_the_listen_address:
  "let a = \<lparr>addr_ip = IpV4 10 0 0 1, addr_port = 9090, addr_scope = 0\<rparr>
   in parse_bind res (ipv4_text 10 0 0 1 9090) True = Ok a
      \<and> exit_code (run_command S (c\<lparr>cfg_listen := a\<rparr>) ProbeReadyzCommand) = Some (probe_exit (os_dial S a) ''/readyz'')
      \<and> loopback_probe_addr res (ipv4_text 10 0 0 1 9090)
          = Ok \<lparr>addr_ip = IpV4 127 0 0 1, addr_port = 9090, addr_scope = 0\<rparr>"
proof -
  have "parse_socket res (ipv4_text 10 0 0 1 9090) = Ok \<lparr>addr_ip = IpV4 10 0 0 1, addr_port = 9090, addr_scope = 0\<rparr>"
    using parse_ipv4_text trim_ipv4_text by (simp add: parse_socket_def Let_def) (simp add: ipv4_text_def)
  then show ?thesis
    by (simp add: parse_bind_ipv4 Let_def run_command_def exit_probe_def loopback_probe_addr_def)
qed

lemma valid_service_ores_otel: "valid_service (service ORES_OTEL)"
  by (simp add: valid_service_def ORES_OTEL_def SidecarIdentity_new_def SERVICE_def is_ascii_alphanumeric_def
      is_ascii_lowercase_def is_ascii_uppercase_def is_ascii_digit_def byte_in_def)

lemma from_bind_Ok:
  "from_bind E identity raw allow = Ok c \<Longrightarrow>
     cfg_identity c = identity \<and> parse_bind (to_socket_addrs E) raw allow = Ok (cfg_listen c)"
  by (auto simp: from_bind_def from_bind_with_def bindR_Ok_iff)

lemma with_loaded_frame:
  "with_loaded_sidecar_file c f = Ok c' \<Longrightarrow> cfg_listen c' = cfg_listen c \<and> cfg_identity c' = cfg_identity c"
  by (auto simp: with_loaded_sidecar_file_def bindR_Ok_iff Let_def)

lemma with_optional_frame:
  "with_optional_sidecar_file E c path = Ok c' \<Longrightarrow> cfg_listen c' = cfg_listen c \<and> cfg_identity c' = cfg_identity c"
  by (auto simp: with_optional_sidecar_file_def bindR_Ok_iff dest: with_loaded_frame split: option.splits)

lemma listened_run_command: "set (listened (run_command S c command)) \<subseteq> {cfg_listen c}"
  by (auto simp: run_command_def exit_probe_def run_with_probe_def Let_def
      split: SidecarCommand.splits sum.splits prod.splits option.splits)

text \<open>Every run is a rejection before anything was listened to, or the command of an admitted configuration.\<close>

lemma sidecar_main_cases:
  obtains (rejected) code where "sidecar_main F T E S argv env = exit_rejected S ORES_OTEL code" and "code \<in> {1, 2}"
  | (admitted) invocation startup cfg where "sidecar_main F T E S argv env = run_command S cfg (cli_command invocation)"
      and "cli_resolve F argv env DEFAULT_CLI_CONFIG_PATH = Ok invocation"
      and "preflight_startup T (cli_values invocation) = Ok startup"
      and "parse_bind (to_socket_addrs E) (startup_bind startup) (startup_allow_non_loopback startup) = Ok (cfg_listen cfg)"
      and "cfg_identity cfg = ORES_OTEL"
proof (cases "\<exists>code \<in> {1, 2}. sidecar_main F T E S argv env = exit_rejected S ORES_OTEL code")
  case False
  then obtain i st c0 c where run: "cli_resolve F argv env DEFAULT_CLI_CONFIG_PATH = Ok i"
      "preflight_startup T (cli_values i) = Ok st"
      "from_bind E ORES_OTEL (startup_bind st) (startup_allow_non_loopback st) = Ok c0"
      "with_optional_sidecar_file E c0 DEFAULT_SIDECAR_CONFIG_PATH = Ok c"
    by (auto simp: sidecar_main_def exit_invalid_cli_def exit_invalid_config_def Let_def split: sum.splits)
  then show thesis
    using admitted[of c i st] from_bind_Ok[OF run(3)] with_optional_frame[OF run(4)]
    by (simp add: sidecar_main_def Let_def)
qed (use rejected in blast)

text \<open>
  C19: The sidecar listens only where the bind policy allows. Whatever the command line, the environment, the
  sidecar file, the resolver and the crates that parse them deliver: the process binds at most one address; it is
  never unspecified, and outside loopback only if the typed startup environment of the resolved command
  line has the override set.
\<close>

theorem sidecar_listens_only_as_admitted:
  "let r = sidecar_main F T E S argv env in
   length (listened r) \<le> 1
   \<and> list_all (\<lambda>a. \<not> is_unspecified (addr_ip a)
        \<and> (is_loopback (addr_ip a)
           \<or> (\<exists>invocation startup. cli_resolve F argv env DEFAULT_CLI_CONFIG_PATH = Ok invocation
                \<and> preflight_startup T (cli_values invocation) = Ok startup \<and> startup_allow_non_loopback startup)))
      (listened r)"
proof (cases rule: sidecar_main_cases[of F T E S argv env])
  case (rejected code)
  then show ?thesis
    by (simp add: exit_rejected_def Let_def)
next
  case (admitted invocation startup cfg)
  have "length (listened (run_command S cfg (cli_command invocation))) \<le> 1"
    by (auto simp: run_command_def exit_probe_def run_with_probe_def Let_def
        split: SidecarCommand.splits sum.splits prod.splits option.splits)
  then show ?thesis
    using admitted parse_bind_policy[OF admitted(4)] listened_run_command[of S cfg "cli_command invocation"]
    by (auto simp: Let_def list_all_iff)
qed

lemma run_command_diagnostics:
  assumes "cfg_identity c = ORES_OTEL"
  shows "set (run_diagnostics (run_command S c command)) \<subseteq>
     {diagnostic (service ORES_OTEL) SeverityError SidecarProbe OutcomeFailed True (os_now S),
      diagnostic (service ORES_OTEL) Fatal SidecarListen OutcomeFailed False (os_now S)}
     \<and> (run_diagnostics (run_command S c command) = [] \<longleftrightarrow> exit_code (run_command S c command) \<in> {None, Some 0})
     \<and> length (run_diagnostics (run_command S c command)) \<le> 1"
  using assms
  by (auto simp: run_command_def exit_probe_def Let_def
      split: SidecarCommand.splits sum.splits prod.splits option.splits)

text \<open>
  C20: Diagnostics carry no payload. Every run writes at most one diagnostic, and it writes one exactly when it
  ends with a nonzero exit code; the diagnostic is one of three closed messages about this service, the same
  whatever the arguments, the environment, the files and the peers contained. Its service name is valid.
\<close>

theorem diagnostics_carry_no_payload:
  "let r = sidecar_main F T E S argv env; svc = service ORES_OTEL in
   set (run_diagnostics r) \<subseteq>
     {diagnostic svc Fatal SidecarConfigure OutcomeRejected False (os_now S),
      diagnostic svc SeverityError SidecarProbe OutcomeFailed True (os_now S),
      diagnostic svc Fatal SidecarListen OutcomeFailed False (os_now S)}
   \<and> length (run_diagnostics r) \<le> 1 \<and> (run_diagnostics r = [] \<longleftrightarrow> exit_code r \<in> {None, Some 0})
   \<and> list_all (\<lambda>d. d_service d = svc \<and> d_component d = ''sidecar'' \<and> d_schema d = SCHEMA) (run_diagnostics r)"
proof (cases rule: sidecar_main_cases[of F T E S argv env])
  case (rejected code)
  then show ?thesis
    using valid_service_ores_otel by (auto simp: exit_rejected_def Let_def diagnostic_def)
next
  case (admitted invocation startup cfg)
  show ?thesis
    using run_command_diagnostics[OF admitted(5), of S "cli_command invocation"] valid_service_ores_otel
    unfolding admitted(1) Let_def by (auto simp: list_all_iff diagnostic_def)
qed

text \<open>The exit codes of the boot sequence: 2 for the command line, 1 for everything that is checked after it.\<close>

lemma boot_failure_exit_codes:
  "is_Err (cli_resolve F argv env DEFAULT_CLI_CONFIG_PATH) \<Longrightarrow> exit_code (sidecar_main F T E S argv env) = Some 2"
  "cli_resolve F argv env DEFAULT_CLI_CONFIG_PATH = Ok i \<Longrightarrow> is_Err (preflight_startup T (cli_values i)) \<Longrightarrow>
     exit_code (sidecar_main F T E S argv env) = Some 1"
  "cli_resolve F argv env DEFAULT_CLI_CONFIG_PATH = Ok i \<Longrightarrow> preflight_startup T (cli_values i) = Ok st \<Longrightarrow>
     is_Err (bindR (from_bind E ORES_OTEL (startup_bind st) (startup_allow_non_loopback st))
       (\<lambda>c. with_optional_sidecar_file E c DEFAULT_SIDECAR_CONFIG_PATH)) \<Longrightarrow>
     exit_code (sidecar_main F T E S argv env) = Some 1"
  by (auto simp: sidecar_main_def exit_invalid_cli_def exit_invalid_config_def exit_rejected_def is_Err_def
      split: sum.splits)

end
