(* ===== verification/Generated_Env.thy ===== *)
theory Generated_Env
  imports Sidecar_Bind Env_Flags
begin

section \<open>The generated environment loader\<close>

text \<open>
  \<open>generated/rust/runtime.rs\<close>: the values of the sidecar read from a lookup, the parser of \<open>.env\<close> texts, and the overlay
  of command-line flags, process environment and \<open>.env\<close> file. A \<open>BTreeMap\<close> is a map. The process environment is the list
  of its entries as bytes: \<open>std::env::var\<close> finds an entry only when its value is Unicode, and \<open>std::env::vars\<close> panics on an
  entry that is not, which is the value \<open>None\<close> of \<open>shell_env\<close>. The parser of \<open>f64\<close> is a parameter.
\<close>

type_synonym i64 = "64 word"
type_synonym os_entries = "(string \<times> string) list"

subsection \<open>Typed values\<close>

record SidecarEnvValues =
  allow_non_loopback_value :: bool
  bind_value :: string

definition runtime_allow_key :: string where
  "runtime_allow_key = ''ORES_OTEL_SIDECAR_ALLOW_NON_LOOPBACK''"

definition runtime_bind_key :: string where
  "runtime_bind_key = ''ORES_OTEL_SIDECAR_BIND''"

definition bind_default :: string where
  "bind_default = ''127.0.0.1:9090''"

text \<open>\<open>generated/rust/env.rs\<close>: the key names as one record, and the default of the override.\<close>

record SidecarEnv =
  allow_non_loopback_key :: string
  bind_key :: string

definition SidecarEnv_KEYS :: SidecarEnv where
  "SidecarEnv_KEYS = \<lparr>allow_non_loopback_key = ALLOW_NON_LOOPBACK, bind_key = BIND\<rparr>"

definition ALLOW_NON_LOOPBACK_DEFAULT :: string where
  "ALLOW_NON_LOOPBACK_DEFAULT = ''false''"

definition parse_bool_or :: "string option \<Rightarrow> bool \<Rightarrow> bool" where
  "parse_bool_or raw d =
     (case map_option trim raw of
        Some v \<Rightarrow>
          if v \<in> {''1'', ''true'', ''TRUE'', ''yes'', ''YES''} then True
          else if v \<in> {''0'', ''false'', ''FALSE'', ''no'', ''NO''} then False
          else d
      | None \<Rightarrow> d)"

text \<open>\<open>str::parse::<i64>\<close>: an optional sign, digits, and a value in range.\<close>

definition parse_i64 :: "string \<Rightarrow> i64 option" where
  "parse_i64 s =
     (if s \<noteq> [] \<and> hd s = CHR ''-''
      then (if tl s \<noteq> [] \<and> list_all is_ascii_digit (tl s) \<and> digits_value (tl s) \<le> 2 ^ 63
            then Some (word_of_int (- int (digits_value (tl s)))) else None)
      else map_option of_nat (parse_unsigned (2 ^ 63) s))"

definition parse_int_or :: "string option \<Rightarrow> i64 \<Rightarrow> i64" where
  "parse_int_or raw d = (case Option.bind raw parse_i64 of Some n \<Rightarrow> n | None \<Rightarrow> d)"

definition parse_float_or :: "(string \<Rightarrow> 'f option) \<Rightarrow> string option \<Rightarrow> 'f \<Rightarrow> 'f" where
  "parse_float_or parse_f64 raw d = (case Option.bind raw parse_f64 of Some x \<Rightarrow> x | None \<Rightarrow> d)"

definition load_from :: "(string \<Rightarrow> string option) \<Rightarrow> SidecarEnvValues" where
  "load_from lookup =
     \<lparr>allow_non_loopback_value = parse_bool_or (lookup runtime_allow_key) False,
      bind_value =
        (case lookup runtime_bind_key of
           Some v \<Rightarrow> if v \<noteq> [] then v else bind_default
         | None \<Rightarrow> bind_default)\<rparr>"

definition env_var :: "os_entries \<Rightarrow> string \<Rightarrow> string option" where
  "env_var es key =
     (case map_of es key of None \<Rightarrow> None | Some v \<Rightarrow> if valid_utf8 v then Some v else None)"

definition load_from_os :: "os_entries \<Rightarrow> SidecarEnvValues" where
  "load_from_os es = load_from (env_var es)"

subsection \<open>Missing variables\<close>

record MissingEnv =
  missing_name :: string
  missing_expected_type :: string
  missing_examples :: "string list"

fun join_str :: "string \<Rightarrow> string list \<Rightarrow> string" where
  "join_str sep [] = []"
| "join_str sep [p] = p"
| "join_str sep (p # q # ps) = p @ sep @ join_str sep (q # ps)"

definition missing_env_text :: "MissingEnv \<Rightarrow> string" where
  "missing_env_text m =
     ''missing required environment variable '' @ missing_name m
     @ [CHR 0x0A] @ ''  expected type: '' @ missing_expected_type m
     @ [CHR 0x0A] @ ''  examples: '' @ join_str '', '' (missing_examples m)"

definition nonempty :: "string option \<Rightarrow> string option" where
  "nonempty raw =
     (case map_option trim raw of
        Some v \<Rightarrow> if v = [] then None else Some v
      | None \<Rightarrow> None)"

definition require_env :: "string \<Rightarrow> string \<Rightarrow> string list \<Rightarrow> string option \<Rightarrow> MissingEnv + string" where
  "require_env name ty examples v =
     (case nonempty v of
        Some u \<Rightarrow> Ok u
      | None \<Rightarrow> Err \<lparr>missing_name = name, missing_expected_type = ty, missing_examples = examples\<rparr>)"

subsection \<open>Ranked sources\<close>

fun pick_key :: "env_values \<Rightarrow> string list \<Rightarrow> string option" where
  "pick_key m [] = None"
| "pick_key m (key # ks) = (case nonempty (m key) of Some v \<Rightarrow> Some v | None \<Rightarrow> pick_key m ks)"

fun pick ::
  "string list \<Rightarrow> string list \<Rightarrow> env_values \<Rightarrow> env_values \<Rightarrow> env_values \<Rightarrow> string option \<Rightarrow> string option" where
  "pick ks [] shell dotenv flags d = nonempty d"
| "pick ks (source # order) shell dotenv flags d =
     (let m = (if source = ''flags'' then flags else if source = ''env_file'' then dotenv else shell) in
      case pick_key m ks of
        Some v \<Rightarrow> Some v
      | None \<Rightarrow> pick ks order shell dotenv flags d)"

definition insert_some :: "string \<Rightarrow> string option \<Rightarrow> env_values \<Rightarrow> env_values" where
  "insert_some key v out = (case v of Some u \<Rightarrow> out(key \<mapsto> u) | None \<Rightarrow> out)"

definition load_env_map :: "env_values \<Rightarrow> env_values \<Rightarrow> env_values \<Rightarrow> MissingEnv + env_values" where
  "load_env_map shell dotenv flags =
     (let order = [''flags'', ''env_shell'', ''env_file''];
          out = insert_some runtime_allow_key (pick [runtime_allow_key] order shell dotenv flags (Some ''false'')) Map.empty;
          out = insert_some runtime_bind_key (pick [runtime_bind_key] order shell dotenv flags (Some bind_default)) out in
      Ok out)"

subsection \<open>The text of a \<open>.env\<close> file\<close>

definition unquote :: "string \<Rightarrow> string" where
  "unquote v =
     (let t = trim v in
      if length t \<ge> 2
         \<and> (hd t = CHR 0x22 \<and> last t = CHR 0x22 \<or> hd t = CHR 0x27 \<and> last t = CHR 0x27)
      then butlast (tl t) else t)"

definition is_ascii_alphabetic :: "char \<Rightarrow> bool" where
  "is_ascii_alphabetic c \<longleftrightarrow> is_ascii_uppercase c \<or> is_ascii_lowercase c"

definition dotenv_line :: "string \<Rightarrow> (string \<times> string) option" where
  "dotenv_line raw =
     (let line = trim raw in
      if line = [] \<or> starts_with ''#'' line then None
      else let line = (case strip_prefix ''export '' line of Some r \<Rightarrow> trim r | None \<Rightarrow> line) in
      case split_once (CHR ''='') line of
        None \<Rightarrow> None
      | Some (key, v) \<Rightarrow>
          (let key = trim key in
           if key = [] then None
           else if \<not> (is_ascii_alphabetic (hd key) \<or> hd key = CHR ''_'') then None
           else Some (key, unquote v)))"

definition insert_line :: "env_values \<Rightarrow> string \<Rightarrow> env_values" where
  "insert_line out raw = (case dotenv_line raw of None \<Rightarrow> out | Some (key, v) \<Rightarrow> out(key \<mapsto> v))"

definition parse_dotenv :: "string \<Rightarrow> env_values" where
  "parse_dotenv text = foldl insert_line Map.empty (lines text)"

definition dotenv_enabled :: "os_entries \<Rightarrow> bool" where
  "dotenv_enabled es =
     (case env_var es ''FLAGS2ENV_DOTENV'' of
        Some v \<Rightarrow> trim v \<notin> {''0'', ''false'', ''FALSE'', ''no'', ''NO''}
      | None \<Rightarrow> True)"

definition load_dotenv_files :: "os_entries \<Rightarrow> (string \<Rightarrow> string option) \<Rightarrow> string list \<Rightarrow> env_values" where
  "load_dotenv_files es read_text paths =
     (if \<not> dotenv_enabled es then Map.empty
      else foldl (\<lambda>acc path. case read_text path of
                    Some text \<Rightarrow> acc ++ parse_dotenv text
                  | None \<Rightarrow> acc) Map.empty paths)"

text \<open>
  \<open>std::env::args()\<close> and \<open>std::env::vars()\<close> collected: an argument or an entry that is not Unicode makes them panic.
\<close>

definition env_args :: "string list \<Rightarrow> string list option" where
  "env_args args = (if list_all valid_utf8 args then Some args else None)"

definition env_vars :: "os_entries \<Rightarrow> bindings option" where
  "env_vars es = (if list_all (\<lambda>(k, v). valid_utf8 k \<and> valid_utf8 v) es then Some es else None)"

definition shell_env :: "os_entries \<Rightarrow> env_values option" where
  "shell_env es = map_option collect_map (env_vars es)"

definition load_env_map_from_os :: "os_entries \<Rightarrow> (string \<Rightarrow> string option) \<Rightarrow> (MissingEnv + env_values) option" where
  "load_env_map_from_os es read_text =
     map_option (\<lambda>shell. load_env_map shell (load_dotenv_files es read_text [''.env'']) Map.empty) (shell_env es)"

subsection \<open>Trimmed values\<close>

lemma lead_match_append: "lead_match ws (s @ t) = 0 \<Longrightarrow> [] \<notin> set ws \<Longrightarrow> lead_match ws s = 0"
proof -
  assume a: "lead_match ws (s @ t) = 0" and ne: "[] \<notin> set ws"
  have "find (\<lambda>w. starts_with w (s @ t)) ws = None"
    using a ne by (auto simp: lead_match_def find_Some_iff split: option.splits) (metis nth_mem)
  then have "find (\<lambda>w. starts_with w s) ws = None"
    by (auto simp: find_None_iff starts_with_iff)
  then show ?thesis
    by (simp add: lead_match_def)
qed

lemma trim_idem [simp]: "trim (trim s) = trim s"
proof -
  let ?u = "trim_start s" and ?t = "trim s"
  obtain pre where "rev ?u = pre @ rev ?t"
    using drop_leading_suffix [of "rev ?u" "map rev white_space"] by (auto simp: trim_def trim_end_def)
  then have u: "?u = ?t @ rev pre"
    by (metis rev_append rev_rev_ident)
  have "?t = [] \<or> lead_match white_space ?t = 0"
  proof (cases "?u = []")
    case False
    then have "lead_match white_space ?u = 0"
      using drop_leading_stops [of ?u white_space s] by (simp add: trim_start_def)
    with u show ?thesis
      using lead_match_append [of white_space ?t "rev pre"] by (auto simp: white_space_def)
  qed (use u in simp)
  then have "trim_start ?t = ?t"
    by (auto simp: trim_start_def drop_leading.simps)
  then show ?thesis
    by (simp add: trim_def [of "trim s"]) (simp add: trim_def trim_end_def drop_leading_idem)
qed

lemma trim_graphic_ends:
  assumes "is_ascii_graphic c" and "is_ascii_graphic d"
  shows "trim (c # s @ [d]) = c # s @ [d]"
  using graphic_no_white_space(1) [OF assms(1)] graphic_no_white_space(2) [OF assms(2)]
  by (simp add: trim_def trim_start_def trim_end_def drop_leading.simps)

lemma nonempty_Some_iff: "nonempty raw = Some v \<longleftrightarrow> (\<exists>u. raw = Some u \<and> v = trim u \<and> v \<noteq> [])"
  by (auto simp: nonempty_def split: option.splits)

text \<open>The keys and the default address are those of \<open>generated/rust/env.rs\<close>, which the sidecar itself reads.\<close>

lemma generated_defaults:
  "SidecarEnv_KEYS = \<lparr>allow_non_loopback_key = runtime_allow_key, bind_key = runtime_bind_key\<rparr>"
  "bind_default = BIND_DEFAULT" "\<not> parse_bool_or (Some ALLOW_NON_LOOPBACK_DEFAULT) d"
proof -
  have "trim ''false'' = ''false''"
    by (rule trim_word) (simp add: is_ascii_graphic_def byte_in_def)
  then show "\<not> parse_bool_or (Some ALLOW_NON_LOOPBACK_DEFAULT) d"
    by (simp add: parse_bool_or_def ALLOW_NON_LOOPBACK_DEFAULT_def)
qed (simp_all add: SidecarEnv_KEYS_def runtime_allow_key_def runtime_bind_key_def ALLOW_NON_LOOPBACK_def BIND_def
    bind_default_def BIND_DEFAULT_def)

lemma generated_keys: "runtime_allow_key = ALLOW_NON_LOOPBACK" "runtime_bind_key = BIND" "runtime_allow_key \<noteq> runtime_bind_key"
  by (simp_all add: runtime_allow_key_def runtime_bind_key_def ALLOW_NON_LOOPBACK_def BIND_def)

lemma default_values: "nonempty (Some ''false'') = Some ''false''" "nonempty (Some bind_default) = Some bind_default"
proof -
  have "trim ''false'' = ''false''" "trim bind_default = bind_default"
    by (rule trim_word; simp add: bind_default_def is_ascii_graphic_def byte_in_def)+
  moreover have "bind_default \<noteq> []"
    by (simp add: bind_default_def)
  ultimately show "nonempty (Some ''false'') = Some ''false''" "nonempty (Some bind_default) = Some bind_default"
    by (auto simp: nonempty_Some_iff)
qed

subsection \<open>The overlay\<close>

text \<open>The reference: the first value that is not blank, in the order of the sources, without surrounding white space.\<close>

definition first_set :: "string option list \<Rightarrow> string \<Rightarrow> string" where
  "first_set sources d = hd (filter (\<lambda>v. v \<noteq> []) (map trim (List.map_filter id sources)) @ [d])"

lemma first_set_simps [simp]:
  "first_set [] d = d"
  "first_set (s # ss) d = (case nonempty s of Some v \<Rightarrow> v | None \<Rightarrow> first_set ss d)"
  by (auto simp: first_set_def nonempty_def List.map_filter_simps split: option.splits)

lemma pick_first_set:
  "nonempty (Some d) = Some d \<Longrightarrow>
   pick [key] [''flags'', ''env_shell'', ''env_file''] shell dotenv flags (Some d)
   = Some (first_set [flags key, shell key, dotenv key] d)"
  by (auto simp: Let_def split: option.splits)

lemma first_set_trimmed:
  "nonempty (Some d) = Some d \<Longrightarrow> trim (first_set ss d) = first_set ss d \<and> first_set ss d \<noteq> []"
  by (induction ss) (auto simp: nonempty_Some_iff split: option.splits)

lemma parse_bool_or_False: "parse_bool_or raw False = (case map_option trim raw of None \<Rightarrow> False
    | Some v \<Rightarrow> v \<in> {''1'', ''true'', ''TRUE'', ''yes'', ''YES''})"
  by (cases raw) (auto simp: parse_bool_or_def)

lemma load_env_map_ranked:
  "load_env_map shell dotenv flags =
     Ok [runtime_allow_key \<mapsto> first_set [flags runtime_allow_key, shell runtime_allow_key, dotenv runtime_allow_key] ''false'',
         runtime_bind_key \<mapsto> first_set [flags runtime_bind_key, shell runtime_bind_key, dotenv runtime_bind_key] bind_default]"
proof -
  define f where "f = ''false''"
  have d: "nonempty (Some f) = Some f"
    using default_values(1) by (simp add: f_def)
  show ?thesis
    unfolding load_env_map_def Let_def f_def [symmetric] pick_first_set [OF d] pick_first_set [OF default_values(2)]
    by (simp add: insert_some_def)
qed

text \<open>
  C39: The overlay of the sources is total and ranked. It never reports a missing variable; the result has exactly
  the two keys that the sidecar declares; each value is the first one that is not blank among flags, process
  environment and \<open>.env\<close> file, without surrounding white space, or the default, so no value is blank. Read back as
  typed values, a non-loopback bind is allowed only by one of the five words of consent, exactly as the bind policy
  of the sidecar reads the same map.
\<close>

theorem environment_is_ranked:
  "let a = first_set [flags ALLOW_NON_LOOPBACK, shell ALLOW_NON_LOOPBACK, dotenv ALLOW_NON_LOOPBACK] ''false'';
       b = first_set [flags BIND, shell BIND, dotenv BIND] bind_default;
       out = [ALLOW_NON_LOOPBACK \<mapsto> a, BIND \<mapsto> b]
   in load_env_map shell dotenv flags = Ok out
      \<and> trim a = a \<and> a \<noteq> [] \<and> trim b = b \<and> b \<noteq> []
      \<and> load_from out = \<lparr>allow_non_loopback_value = a \<in> {''1'', ''true'', ''TRUE'', ''yes'', ''YES''}, bind_value = b\<rparr>
      \<and> allow_non_loopback_value (load_from out) = allow_non_loopback_from_env out"
proof -
  define f where "f = ''false''"
  define a where "a = first_set [flags runtime_allow_key, shell runtime_allow_key, dotenv runtime_allow_key] f"
  define b where "b = first_set [flags runtime_bind_key, shell runtime_bind_key, dotenv runtime_bind_key] bind_default"
  have d: "nonempty (Some f) = Some f" "nonempty (Some bind_default) = Some bind_default"
    using default_values by (simp_all add: f_def)
  have tr: "trim a = a" "a \<noteq> []" "trim b = b" "b \<noteq> []"
    using first_set_trimmed [OF d(1)] first_set_trimmed [OF d(2)] unfolding a_def b_def by blast+
  have "load_env_map shell dotenv flags = Ok [runtime_allow_key \<mapsto> a, runtime_bind_key \<mapsto> b]"
    by (simp only: load_env_map_ranked a_def b_def f_def)
  moreover have "load_from [runtime_allow_key \<mapsto> a, runtime_bind_key \<mapsto> b]
      = \<lparr>allow_non_loopback_value = a \<in> {''1'', ''true'', ''TRUE'', ''yes'', ''YES''}, bind_value = b\<rparr>"
    using tr generated_keys(3) by (simp add: load_from_def parse_bool_or_False)
  moreover have "allow_non_loopback_value (load_from out) = allow_non_loopback_from_env out" for out
    by (simp add: load_from_def parse_bool_or_False allow_non_loopback_from_env_def generated_keys(1))
  ultimately show ?thesis
    using tr unfolding a_def b_def f_def generated_keys Let_def by blast
qed

text \<open>Where the two readers of the process differ: an entry that is not Unicode is invisible to one and ends the other.\<close>

lemma non_unicode_entry_panics:
  "(k, v) \<in> set es \<Longrightarrow> \<not> valid_utf8 v \<Longrightarrow> load_env_map_from_os es read_text = None"
  by (auto simp: load_env_map_from_os_def shell_env_def env_vars_def list_all_iff)

lemma unicode_environment_loads:
  assumes "list_all (\<lambda>(k, v). valid_utf8 k \<and> valid_utf8 v) es"
  shows "\<exists>out. load_env_map_from_os es read_text = Some (Ok out) \<and> dom out = {runtime_allow_key, runtime_bind_key}"
  using assms by (auto simp: load_env_map_from_os_def shell_env_def env_vars_def load_env_map_ranked)

subsection \<open>Entries written and read back\<close>

text \<open>An entry as a user writes it: exported or not, its value in single or double quotes, on a line of its own.\<close>

record dotenv_entry =
  entry_exported :: bool
  entry_quote :: char
  entry_key :: string
  entry_value :: string

definition entry_line :: "dotenv_entry \<Rightarrow> string" where
  "entry_line e = (if entry_exported e then ''export '' else [])
     @ entry_key e @ ''='' @ entry_quote e # entry_value e @ [entry_quote e]"

definition entries_text :: "dotenv_entry list \<Rightarrow> string" where
  "entries_text es = concat (map (\<lambda>e. entry_line e @ [CHR 0x0A]) es)"

definition entry_ok :: "dotenv_entry \<Rightarrow> bool" where
  "entry_ok e \<longleftrightarrow> entry_quote e \<in> {CHR 0x22, CHR 0x27}
     \<and> entry_key e \<noteq> [] \<and> (is_ascii_alphabetic (hd (entry_key e)) \<or> hd (entry_key e) = CHR ''_'')
     \<and> list_all (\<lambda>c. is_ascii_graphic c \<and> c \<noteq> CHR ''='') (entry_key e)
     \<and> CHR 0x0A \<notin> set (entry_value e)"

lemma lines_from_line: "CHR 0x0A \<notin> set l \<Longrightarrow> lines_from acc (l @ CHR 0x0A # s) = strip_cr (rev acc @ l) # lines_from [] s"
  by (induction l arbitrary: acc) auto

lemma lines_line: "CHR 0x0A \<notin> set l \<Longrightarrow> lines (l @ CHR 0x0A # s) = strip_cr l # lines s"
  using lines_from_line [of l "[]" s] by (simp add: lines_def)

lemma no_export_prefix:
  assumes "CHR '' '' \<notin> set k"
  shows "strip_prefix ''export '' (k @ CHR ''='' # r) = None"
proof -
  have "k @ CHR ''='' # r \<noteq> ''export '' @ t" for t
    using assms by (auto simp: append_eq_append_conv2 Cons_eq_append_conv append_eq_Cons_conv)
  then show ?thesis
    by (metis not_None_eq strip_prefix_Some_iff)
qed

lemma key_no_white_space:
  "list_all (\<lambda>c. is_ascii_graphic c \<and> c \<noteq> CHR ''='') k \<Longrightarrow> CHR '' '' \<notin> set k \<and> CHR 0x0A \<notin> set k"
  by (induction k) (auto simp: is_ascii_graphic_def byte_in_def)

lemma quote_graphic: "entry_ok e \<Longrightarrow> is_ascii_graphic (entry_quote e)"
  by (auto simp: entry_ok_def is_ascii_graphic_def byte_in_def)

lemma unquote_quoted: "q \<in> {CHR 0x22, CHR 0x27} \<Longrightarrow> unquote (q # v @ [q]) = v"
  using trim_graphic_ends [of q q v] by (auto simp: unquote_def is_ascii_graphic_def byte_in_def Let_def)

lemma dotenv_line_parts:
  assumes "trim l = l" and "l \<noteq> []" and "\<not> starts_with ''#'' l"
    and "(case strip_prefix ''export '' l of Some r \<Rightarrow> trim r | None \<Rightarrow> l) = body"
    and "split_once (CHR ''='') body = Some (k, v)" and "trim k = k" and "k \<noteq> []"
    and "is_ascii_alphabetic (hd k) \<or> hd k = CHR ''_''"
  shows "dotenv_line l = Some (k, unquote v)"
  unfolding dotenv_line_def Let_def assms(1) assms(4) assms(5) using assms(2,3,6,7,8) by simp

lemma dotenv_line_entry:
  assumes "entry_ok e"
  shows "dotenv_line (strip_cr (entry_line e)) = Some (entry_key e, entry_value e)"
proof -
  obtain c k where key: "entry_key e = c # k"
    using assms by (cases "entry_key e") (auto simp: entry_ok_def)
  define q v where "q = entry_quote e" and "v = entry_value e"
  define body where "body = entry_key e @ CHR ''='' # q # v @ [q]"
  note ok = assms [unfolded entry_ok_def]
  have body: "trim body = body"
    using trim_graphic_ends [of c q "k @ CHR ''='' # q # v"] ok quote_graphic [OF assms]
    by (simp add: body_def key q_def)
  have split: "split_once (CHR ''='') body = Some (entry_key e, q # v @ [q])"
    using ok by (auto simp: split_once_Some_iff body_def list_all_iff)
  have keyt: "trim (entry_key e) = entry_key e"
    using ok by (intro trim_word) (auto simp: list_all_iff)
  have line: "entry_line e = (if entry_exported e then ''export '' @ body else body)"
    by (simp add: entry_line_def body_def q_def v_def)
  have exported: "trim (''export '' @ body) = ''export '' @ body"
    using trim_graphic_ends [of "CHR ''e''" q "''xport '' @ entry_key e @ CHR ''='' # q # v"] quote_graphic [OF assms]
    by (simp add: body_def q_def is_ascii_graphic_def byte_in_def)
  have cr: "strip_cr (entry_line e) = entry_line e"
    using ok by (auto simp: strip_cr_def entry_line_def)
  have plain: "strip_prefix ''export '' body = None"
    unfolding body_def using ok by (intro no_export_prefix) (blast dest: key_no_white_space)
  have hash: "\<not> starts_with ''#'' body" "body \<noteq> []"
    using ok by (auto simp: body_def key starts_with_def is_ascii_alphabetic_def is_ascii_uppercase_def is_ascii_lowercase_def byte_in_def)
  have val: "unquote (q # v @ [q]) = v"
    using ok unquote_quoted by (simp add: q_def)
  have key_ok: "entry_key e \<noteq> []" "is_ascii_alphabetic (hd (entry_key e)) \<or> hd (entry_key e) = CHR ''_''"
    using ok by blast+
  note parts = dotenv_line_parts [OF _ _ _ _ split keyt key_ok, unfolded val]
  have "dotenv_line (entry_line e) = Some (entry_key e, v)"
  proof (cases "entry_exported e")
    case True
    have "strip_prefix ''export '' (''export '' @ body) = Some body"
      by (simp only: strip_prefix_Some_iff)
    then have "(case strip_prefix ''export '' (''export '' @ body) of Some r \<Rightarrow> trim r | None \<Rightarrow> ''export '' @ body) = body"
      by (simp only: option.case body)
    moreover have "\<not> starts_with ''#'' (''export '' @ body)" "''export '' @ body \<noteq> []"
      by (simp_all add: starts_with_def)
    ultimately show ?thesis
      using parts [OF exported] True by (simp only: line if_True not_False_eq_True simp_thms)
  next
    case False
    show ?thesis
      using parts [OF body hash(2) hash(1)] False plain by (simp only: line if_False option.case)
  qed
  then show ?thesis
    by (simp only: cr v_def)
qed

lemma entry_line_no_newline: "entry_ok e \<Longrightarrow> CHR 0x0A \<notin> set (entry_line e)"
  using key_no_white_space [of "entry_key e"] by (auto simp: entry_ok_def entry_line_def)

lemma parse_entries:
  "list_all entry_ok es \<Longrightarrow>
   foldl insert_line m (lines (entries_text es)) = m ++ collect_map (map (\<lambda>e. (entry_key e, entry_value e)) es)"
proof (induction es arbitrary: m)
  case Nil
  then show ?case
    by (simp add: entries_text_def lines_def collect_map_def)
next
  case (Cons e es)
  have "lines (entries_text (e # es)) = strip_cr (entry_line e) # lines (entries_text es)"
    using Cons.prems entry_line_no_newline [of e] by (simp add: entries_text_def lines_line)
  moreover have "insert_line m (strip_cr (entry_line e)) = m(entry_key e \<mapsto> entry_value e)"
    using Cons.prems by (simp add: insert_line_def dotenv_line_entry)
  ultimately show ?case
    using Cons by (simp add: collect_map_def map_add_def fun_eq_iff split: option.splits)
qed

text \<open>
  Entries written to a \<open>.env\<close> text are read back. For names of graphic characters that start with a letter or
  an underscore, and any values without a line feed, quotes and other scripts included, exported or not and in
  either kind of quotes, the parsed text has exactly the written names, each with its last written value.
\<close>

theorem dotenv_round_trip:
  "list_all entry_ok es \<Longrightarrow> parse_dotenv (entries_text es) = collect_map (map (\<lambda>e. (entry_key e, entry_value e)) es)"
  using parse_entries [of es Map.empty] by (simp add: parse_dotenv_def)

definition sample_entries :: "dotenv_entry list" where
  "sample_entries =
     [\<lparr>entry_exported = True, entry_quote = CHR 0x22, entry_key = ''A'', entry_value = '' x=1 ''\<rparr>,
      \<lparr>entry_exported = False, entry_quote = CHR 0x27, entry_key = ''_b'', entry_value = [CHR 0x27, CHR 0xC3, CHR 0xA9]\<rparr>]"

theorem dotenv_round_trip_witness:
  "list_all entry_ok sample_entries \<and> parse_dotenv (entries_text sample_entries) ''A'' = Some '' x=1 ''
   \<and> parse_dotenv (entries_text sample_entries) ''_b'' = Some [CHR 0x27, CHR 0xC3, CHR 0xA9]"
proof -
  have "list_all entry_ok sample_entries"
    by (simp add: sample_entries_def entry_ok_def is_ascii_alphabetic_def is_ascii_uppercase_def is_ascii_lowercase_def
        is_ascii_graphic_def byte_in_def)
  with dotenv_round_trip [OF this] show ?thesis
    by (simp add: sample_entries_def collect_map_def)
qed

text \<open>The text of an \<open>i64\<close> is parsed back, over the whole range.\<close>

definition show_i64 :: "i64 \<Rightarrow> string" where
  "show_i64 n = (if sint n < 0 then CHR ''-'' # show_nat (nat (- sint n)) else show_nat (nat (sint n)))"

lemma parse_int_show: "parse_int_or (Some (show_i64 n)) d = n"
proof -
  have lo: "- (2 ^ 63) \<le> sint n" and hi: "sint n < 2 ^ 63"
    using sint_ge [of n] sint_lt [of n] by simp_all
  show ?thesis
  proof (cases "sint n < 0")
    case True
    have "nat (- sint n) \<le> 2 ^ 63"
      using lo by (simp add: nat_le_iff)
    then show ?thesis
      using True by (simp add: parse_int_or_def parse_i64_def show_i64_def show_nat_digits digits_value_show_nat)
  next
    case False
    have "nat (sint n) < 2 ^ 63"
      using hi False by (simp add: nat_less_iff)
    then have "parse_unsigned (2 ^ 63) (show_nat (nat (sint n))) = Some (nat (sint n))"
      by (rule parse_show_nat)
    moreover have "hd (show_nat (nat (sint n))) \<noteq> CHR ''-''"
      using show_nat_digits [of "nat (sint n)"]
      by (cases "show_nat (nat (sint n))") (auto simp: is_ascii_digit_def byte_in_def)
    ultimately show ?thesis
      using False by (simp add: parse_int_or_def parse_i64_def show_i64_def)
  qed
qed

end
