(* ===== verification/Process_Entry.thy ===== *)
theory Process_Entry
  imports Agent_Runtime Sidecar_Runtime Generated_Env
begin

section \<open>From the operating system into the executables\<close>

text \<open>
  \<open>resolve_process\<close> of \<open>cli.rs\<close> and of \<open>process_lifecycle_runtime.rs\<close>: the arguments and the environment as the
  operating system gives them, as bytes. The arguments are collected first; the environment is an iterator that is read only
  when the command line has passed its checks. A panic is the value \<open>None\<close>.
\<close>

definition DEFAULT_LIFECYCLE_CLI_CONFIG_PATH :: string where
  "DEFAULT_LIFECYCLE_CLI_CONFIG_PATH = ''.process-lifecycle-cli-flags.toml''"

definition cli_resolve_process ::
  "flags2env \<Rightarrow> string list \<Rightarrow> os_entries \<Rightarrow> string \<Rightarrow> (CliError + CliResolution) option" where
  "cli_resolve_process F args vars config_path =
     (case env_args args of
        None \<Rightarrow> None
      | Some argv \<Rightarrow>
          (case cli_arguments F argv config_path of
             Err e \<Rightarrow> Some (Err e)
           | Ok _ \<Rightarrow> map_option (\<lambda>process_env. cli_resolve F argv process_env config_path) (env_vars vars)))"

definition resolve_process ::
  "flags2env \<Rightarrow> string list \<Rightarrow> os_entries \<Rightarrow> string \<Rightarrow> (LifecycleRuntimeError + LifecycleAgentInvocation) option" where
  "resolve_process F args vars config_path =
     (case env_args args of
        None \<Rightarrow> None
      | Some argv \<Rightarrow>
          (case agent_arguments F argv config_path of
             Err e \<Rightarrow> Some (Err e)
           | Ok _ \<Rightarrow> map_option (\<lambda>process_env. resolve F argv process_env config_path) (env_vars vars)))"

text \<open>The executables: a panic ends the process with code 101 and no diagnostic of the program.\<close>

definition sidecar_process ::
  "flags2env \<Rightarrow> typed_bindings \<Rightarrow> sidecar_env \<Rightarrow> sidecar_os \<Rightarrow> string list \<Rightarrow> os_entries \<Rightarrow> sidecar_run" where
  "sidecar_process F T E S args vars =
     (case cli_resolve_process F args vars DEFAULT_CLI_CONFIG_PATH of
        None \<Rightarrow> \<lparr>exit_code = Some 101, run_diagnostics = [], listened = [], answered = []\<rparr>
      | Some _ \<Rightarrow> sidecar_main F T E S args vars)"

definition agent_process ::
  "nat \<Rightarrow> bool \<Rightarrow> host_json \<Rightarrow> flags2env \<Rightarrow> string list \<Rightarrow> os_entries \<Rightarrow> 'x host_scheme \<Rightarrow> nat option \<times> 'x host_scheme" where
  "agent_process n target_linux J F args vars w =
     (case resolve_process F args vars DEFAULT_LIFECYCLE_CLI_CONFIG_PATH of
        None \<Rightarrow> (Some 101, w)
      | Some _ \<Rightarrow> agent_main n target_linux J F args vars DEFAULT_LIFECYCLE_CLI_CONFIG_PATH w)"

subsection \<open>The checks decide before the environment\<close>

lemma resolve_checks:
  "cli_arguments F argv path = Err e \<Longrightarrow> cli_resolve F argv env path = Err e"
  "agent_arguments F argv path = Err e' \<Longrightarrow> resolve F argv env path = Err e'"
  by (simp_all add: cli_resolve_def resolve_def)

lemma resolve_process_Some:
  "cli_resolve_process F args vars path = Some r \<Longrightarrow> cli_resolve F args vars path = r"
  "resolve_process F args vars path = Some r' \<Longrightarrow> resolve F args vars path = r'"
  by (auto simp: cli_resolve_process_def resolve_process_def env_args_def env_vars_def resolve_checks
      split: if_splits sum.splits option.splits)

lemma resolve_process_None:
  "cli_resolve_process F args vars path = None \<longleftrightarrow>
     \<not> (list_all valid_utf8 args
        \<and> (is_Err (cli_arguments F args path) \<or> list_all (\<lambda>(k, v). valid_utf8 k \<and> valid_utf8 v) vars))"
  "resolve_process F args vars path = None \<longleftrightarrow>
     \<not> (list_all valid_utf8 args
        \<and> (is_Err (agent_arguments F args path) \<or> list_all (\<lambda>(k, v). valid_utf8 k \<and> valid_utf8 v) vars))"
  by (auto simp: cli_resolve_process_def resolve_process_def env_args_def env_vars_def split: sum.splits option.splits if_splits)

text \<open>
  The sidecar leaves its boot sequence without a diagnostic exactly when an argument is not Unicode, or when
  the command line is accepted and an entry of the environment is not Unicode, whether the sidecar reads that entry or not;
  otherwise the process is \<open>sidecar_main\<close>. The agent's process panics under the same conditions.
\<close>

lemma non_unicode_input_panics:
  "let unicode = list_all (\<lambda>(k, v). valid_utf8 k \<and> valid_utf8 v) vars;
       fine = list_all valid_utf8 args \<and> (is_Err (cli_arguments F args DEFAULT_CLI_CONFIG_PATH) \<or> unicode);
       fine' = list_all valid_utf8 args \<and> (is_Err (agent_arguments F args DEFAULT_LIFECYCLE_CLI_CONFIG_PATH) \<or> unicode)
   in sidecar_process F T E S args vars =
        (if fine then sidecar_main F T E S args vars
         else \<lparr>exit_code = Some 101, run_diagnostics = [], listened = [], answered = []\<rparr>)
      \<and> agent_process n lin J F args vars w =
        (if fine' then agent_main n lin J F args vars DEFAULT_LIFECYCLE_CLI_CONFIG_PATH w else (Some 101, w))"
  unfolding Let_def sidecar_process_def agent_process_def
  using resolve_process_None(1) [of F args vars DEFAULT_CLI_CONFIG_PATH]
    resolve_process_None(2) [of F args vars DEFAULT_LIFECYCLE_CLI_CONFIG_PATH]
  by (cases "cli_resolve_process F args vars DEFAULT_CLI_CONFIG_PATH";
      cases "resolve_process F args vars DEFAULT_LIFECYCLE_CLI_CONFIG_PATH") auto

end
