(* ===== verification/Spec2Isabelle.thy ===== *)
theory Spec2Isabelle
  imports Reconcile_Progress Deployment Cloudflare_Lease Criu Sidecar_Answers Process_Entry
begin

text \<open>
  \<^bold>\<open>The program.\<close> The crate \<open>ores-otel-sidecar\<close> (Rust, \<open>src/src/\<close>) has two executables. \<open>ores-otel-sidecar\<close> serves health,
  readiness and metrics over HTTP and gives product code runtime values that a cache backend updates.
  \<open>ores-process-lifecycle-agent\<close> and its library suspend idle workloads of a host and bring them back: a controller that
  holds a fenced lease reads a durable record, decides by a policy, asks the product to drain, freezes or thaws a cgroup, and
  publishes each step in the record before it acts. This development models both, as shallow definitions of the Rust
  functions, and proves what makes them correct.

  \<^bold>\<open>Conventions.\<close> Theory \<open>Prelude\<close>: a \<open>Result<T, E>\<close> is \<open>'e + 'a\<close>; a function that talks to the outside is a program on a
  world that returns a result and the next world, also when it fails, and \<open>?\<close> is \<open>bindE\<close>; machine integers are words.
  \<open>wpE\<close>, \<open>hoareE\<close> and the frames \<open>within\<close> of the locale \<open>frame_relation\<close> carry the proofs about programs. A Rust trait is a
  record of its methods, an enum a datatype, a struct a record. \<open>Rust_Str\<close>, \<open>Rust_Path\<close>, \<open>Posix_Fs\<close>, \<open>Host_World\<close> and
  \<open>Byte_Stream\<close> model what the code uses of the standard library: UTF-8 strings as bytes, paths, a file system with faults
  and crashes of the process and of the machine, the kernel files and sockets of a host, and buffered streams that arrive in any chunks. Code of other
  crates is a parameter: JSON and TOML codecs, the URL parser, the TLS client, the lease crate, \<open>flags2env\<close>, \<open>sysinfo\<close>,
  floating-point operations, the name resolver, the clock.

  \<^bold>\<open>The lifecycle controller.\<close>

  \<^item> \<open>Process_Lifecycle\<close> (\<open>process_lifecycle.rs\<close>): the policy \<open>decide\<close> with its per-state functions; the step relation
    \<open>lifecycle_step\<close>, its reachable states and their invariant; demand leads back to running.
  \<^item> \<open>Lifecycle_Record\<close> (\<open>process_lifecycle_record.rs\<close>): the record, \<open>validate\<close>, \<open>validate_record_update\<close>, the histories
    \<open>record_history\<close> of accepted updates; exact characterisations, and that a replaced runtime is never authorised again.
  \<^item> \<open>Lifecycle_Agent\<close> (\<open>process_lifecycle_agent.rs\<close>): \<open>reconcile_once\<close> and everything below it over the four traits.
    \<open>Lifecycle_Trace\<close> runs it against traits that log every call and shows the order of the calls: effects follow the
    published intent, suspension follows trusted idleness, running follows admission. \<open>Reconcile_Progress\<close> gives its exact
    outcome and its exact calls when all calls succeed. \<open>Lifecycle_Store\<close> states what a record store promises (locale
    \<open>lifecycle_record_store\<close>) and what follows for a managed workload (\<open>managed_workload\<close>).
  \<^item> \<open>File_Store\<close> and \<open>File_Store_Contract\<close> (\<open>adapters/process_lifecycle_file_store.rs\<close>, \<open>adapters/stream.rs\<close>): the store on
    the file system, its refinement of an atomic compare-and-set, crash atomicity, durability of what it published,
    progress, and the interpretation of the store contract.
  \<^item> \<open>Process_Identity\<close>, \<open>Cgroup_Freeze\<close> (\<open>adapters/process_lifecycle_identity.rs\<close>, \<open>adapters/linux_process_lifecycle.rs\<close>,
    \<open>adapters/process_lifecycle_freeze.rs\<close>, \<open>adapters/process_lifecycle_attested_freeze.rs\<close>): attestation of the process
    behind a cgroup, the polling loop with its bound, and effects that touch one cgroup only. \<open>Criu\<close> models the CRIU
    commands of \<open>adapters/linux_process_lifecycle.rs\<close> as scripts of system calls.
  \<^item> \<open>Lifecycle_Recovery\<close> (\<open>adapters/state_machine/process_lifecycle_recovery.rs\<close>): recovery after a crash in the middle of
    a freeze or thaw; it publishes confirmed states only, and when the host answers it completes with exactly the calls of a script.
  \<^item> \<open>Agent_Config\<close>, \<open>Product_Control\<close>, \<open>Host_Control\<close>, \<open>Agent_Runtime\<close> (\<open>process_lifecycle_runtime.rs\<close> and its directory,
    \<open>adapters/process_lifecycle_product_control.rs\<close>, \<open>adapters/process_lifecycle_host_control.rs\<close>,
    \<open>bin/ores-process-lifecycle-agent.rs\<close>): the configuration, the two socket clients and their adapters, the command line
    and the observe-only loop. The reading loops of both clients are interpretations of the locale \<open>bounded_reader\<close>.
  \<^item> \<open>Lifecycle_Lease\<close>, \<open>Cloudflare_Lease\<close> (\<open>adapters/process_lifecycle_lease.rs\<close>, \<open>adapters/process_lifecycle_controller.rs\<close>,
    \<open>adapters/process_lifecycle_cloudflare_do.rs\<close>): lock keys, grants and renewals, and the HTTP transport to the lease
    authority, with what an acquired grant means and where the credential goes.
  \<^item> \<open>Managed_Host\<close> puts the real parts together: the file store, the pinned host control, the product socket and the attested
    effects satisfy the contracts that the agent and recovery rely on (\<open>recovering_workload\<close>, \<open>framed_workload\<close>). The
    properties of this theory are about that composition.
  \<^item> \<open>Deployment\<close> lets many such controllers share the record directory: the step relation \<open>deployment_step\<close> has whole runs, runs
    that a crash of the process or of the machine stops anywhere, single store calls of others, restarts and changes outside the records in any order, and
    \<open>interfered\<close> lets all of this happen between any two calls of a run. Records survive, move only along their histories, no
    update is lost, a reported outcome names the stored state (locale \<open>contended_store\<close>), an acknowledged record survives a
    crash of the machine, and an old grant stays locked out.

  \<^bold>\<open>The sidecar.\<close>

  \<^item> \<open>Runtime_Values\<close>, \<open>Runtime_Updates\<close> (\<open>runtime_values.rs\<close>, \<open>runtime_updates.rs\<close>, \<open>error.rs\<close>): the allowlisted value map and
    the controller that applies revisioned snapshots and events. The abstract specification is the backend's own map at
    each revision; a controller that is not stale mirrors it, events in order are applied, and a gap is repaired by a
    snapshot. The locale \<open>guarded_handle\<close> is the contract of the shared handle: only declared keys are ever readable.
  \<^item> \<open>Receiver\<close> (\<open>receiver.rs\<close>): framed metadata and data; what is received depends on the bytes and not on the chunks, framed
    streams reach the sink, chunks are bounded and rejected metadata consumes no data.
  \<^item> \<open>Sidecar_Apm\<close> (\<open>apm.rs\<close>): resource samples and their text form. \<open>Sidecar_Http\<close> (\<open>http.rs\<close>, \<open>http_api.rs\<close>, \<open>identity.rs\<close>,
    \<open>health.rs\<close>, \<open>probe.rs\<close>): the listener and the probe client, exactly which requests are served, and that the exit code
    of a probe is the readiness of the product; in \<open>Sidecar_Answers\<close>, that every answer is framed for a reference reader.
    \<open>Sidecar_Bind\<close> (\<open>bind.rs\<close>): the parser of socket addresses and the bind
    policy.
  \<^item> \<open>Env_Flags\<close>, \<open>Sidecar_Config\<close>, \<open>Sidecar_Runtime\<close> (\<open>hooks.rs\<close>, \<open>cli.rs\<close>, \<open>startup_env.rs\<close>, \<open>file_config.rs\<close>, \<open>config.rs\<close>,
    \<open>log.rs\<close>, \<open>runtime.rs\<close>, \<open>main.rs\<close>): configuration, commands, diagnostics and the boot sequence; a validated file can be
    loaded, the process listens only as the policy admits, and diagnostics carry no payload.
  \<^item> \<open>Generated_Env\<close> (\<open>generated/rust/env.rs\<close>, \<open>generated/rust/runtime.rs\<close>): the generated loader of the environment with its parser of
    \<open>.env\<close> texts; the overlay of its sources is total and ranked, entries are read back, and it reads the override as the
    bind policy does. \<open>Process_Entry\<close> (\<open>resolve_process\<close> of \<open>cli.rs\<close> and \<open>process_lifecycle_runtime.rs\<close>): how both executables take their
    arguments and environment from the operating system; a lemma says when that panics.

  \<^bold>\<open>Loops.\<close> Loops that end are total functions with termination proofs: the reading loops by the bytes that a stream can still
  deliver, the polling loop of the cgroup by the time to its deadline. The endless loops are cut by the input: the agent
  runs any number \<open>n\<close> of rounds, the listener serves any finite prefix of its connections, and the properties hold for
  every \<open>n\<close> and every prefix. A stream or a list of faults is finite but arbitrary.

  \<^bold>\<open>Crashes.\<close> The end of a process leaves the files as they are. A crash of the machine loses contents that were not synced
  and any suffix of the changes since the last sync of the directory; changes of names are taken to reach the disk in their
  order, as a journal writes them (\<open>Posix_Fs\<close>). What such a crash can undo is a record that was renamed but whose directory
  was not synced yet, so the statements about it start from \<open>settled\<close> records, those that a completed call left. That the
  directory \<open>records\<close> itself is durable once it was created is part of that assumption: \<open>ensure_records_directory\<close> creates
  it and does not sync its parent.

  \<^bold>\<open>Not modelled.\<close> Threads and locks: the advisory locks of the record store are one step with the
  operation they guard; the mutexes and read-write locks of the runtime values are parameters that say whether a lock is
  poisoned, and an operation under its lock is one step. Timeouts of sockets are results of the system, and the overflow
  of an \<open>Instant\<close> is not modelled. The settings of the HTTP client (no redirects, HTTPS only, timeouts) are
  taken as what their documentation says: one request, one answer or an error. The text of \<open>SidecarError\<close>
  rests on the escaping of \<open>{:?}\<close> for strings, whose Unicode tables are not modelled; plain accessors,
  \<open>lib.rs\<close> and the module files have no content to verify. The \<open>probe_get\<close> of
  \<open>http.rs\<close> is shadowed by that of \<open>http_api.rs\<close> and never called. Contracts, deployment files,
  tools and tests are not code of the program.

  \<^bold>\<open>What the model showed.\<close> The lemmas \<open>mapped_unspecified_address_is_accepted\<close>
  (\<open>Sidecar_Bind\<close>), \<open>documented_namespace_is_refused\<close> (\<open>Sidecar_Config\<close>),
  \<open>endpoint_with_path_is_admitted_then_refused\<close> (\<open>Cloudflare_Lease\<close>),
  \<open>probes_dial_the_listen_address\<close> (\<open>Sidecar_Runtime\<close>), \<open>absolute_no_CurDir\<close>
  (\<open>Rust_Path\<close>) and \<open>non_unicode_input_panics\<close> (\<open>Process_Entry\<close>) record where the
  code and its documentation, or two parts of the code, differ.
\<close>

section \<open>Properties of the composed controller\<close>

text \<open>
  C6: A reconciliation of a real workload stores what it reports. For the agent on the file store, the pinned host
  control, the product socket and the attested effects, whatever calls fail on the way: an \<open>Ok\<close> outcome
  leaves the record of this workload in the state that the outcome names (unchanged for \<open>NoChange\<close>, frozen
  or hibernated for \<open>Suspended\<close>, running otherwise); an error leaves the old record or a later record of the
  same history; the records of all other workloads are untouched.
\<close>

theorem reconciliation_stores_what_it_reports:
  assumes "json_roundtrip J" and "managed_reconcile J st K k e pc T x g scope p w = (res, w')"
  shows "let i = scope_workload_id scope in
    (\<forall>j. j \<noteq> i \<longrightarrow> stored J st w' j = stored J st w j)
    \<and> (case res of
         Err _ \<Rightarrow> stored J st w' i = stored J st w i
           \<or> (\<exists>r n. stored J st w i = Some r \<and> stored J st w' i = Some n \<and> record_history r n)
       | Ok out \<Rightarrow> (\<exists>r n. stored J st w i = Some r \<and> stored J st w' i = Some n \<and> record_history r n
           \<and> (case out of
                NoChange \<Rightarrow> n = r
              | Suspended \<Rightarrow> state n = (case strategy r of PFreeze \<Rightarrow> PFrozen | PHibernate \<Rightarrow> PHibernated)
              | _ \<Rightarrow> state n = PRunning)))"
proof -
  have "managed_workload (file_store J st) (stored J st) (\<lambda>_. True) (host_control (pinned_control K k e (grant_token g)))
      (product_control pc) (attested_effects T x)"
    using recovering_workload.axioms(1) [OF managed_host_contract [OF assms(1)]] .
  from managed_workload.reconcile_once_stored [OF this TrueI] assms(2) show ?thesis
    unfolding reconcile_with_fenced_grant_def Let_def by blast
qed

text \<open>
  A recovery of a real workload stores what it reports. For the same composition: recovery reports frozen or
  running only with the record of this workload in that state, a later record of its history; an error
  leaves the old record or a later one; the records of all other workloads are untouched.
\<close>

theorem recovery_stores_what_it_reports:
  assumes "json_roundtrip J" and "managed_recovery J st K k e pc T x g scope p w = (res, w')"
  shows "let i = scope_workload_id scope in
    (\<forall>j. j \<noteq> i \<longrightarrow> stored J st w' j = stored J st w j)
    \<and> (case res of
         Err _ \<Rightarrow> stored J st w' i = stored J st w i
           \<or> (\<exists>r n. stored J st w i = Some r \<and> stored J st w' i = Some n \<and> record_history r n)
       | Ok out \<Rightarrow> (\<exists>r n. stored J st w i = Some r \<and> stored J st w' i = Some n \<and> record_history r n
           \<and> state n = (case out of RecoveredFrozen \<Rightarrow> PFrozen | RecoveredRunning \<Rightarrow> PRunning)))"
  using recovering_workload.recovery_stored [OF managed_host_contract [OF assms(1)] TrueI] assms(2)
  unfolding recover_freeze_transition_with_fenced_grant_def Let_def by blast

text \<open>
  C7: The controller is confined to its workload. Whatever the host, the product, the kernel and the file system
  answer, a reconciliation and a recovery write no kernel file but \<open>cgroup.freeze\<close> of the cgroup of the
  attested process and send requests to no socket but those of the product and of the host controller.
\<close>

theorem controller_is_confined:
  "let x = with_attestor_and_timing identity a timeout poll; ss = {product_socket_path pc, host_socket_path k};
       d = expected_cgroup identity
   in confined ss d w (snd (managed_reconcile J st K k e pc T x g scope p w))
      \<and> confined ss d w (snd (managed_recovery J st K k e pc T x g scope p w))"
proof -
  let ?x = "with_attestor_and_timing identity a timeout poll"
  have "cgroup_dir (controller (effects ?x)) = expected_cgroup identity"
    by (simp add: with_attestor_and_timing_def)
  from this [symmetric] show ?thesis
    unfolding Let_def by (simp only:) (intro conjI managed_confined)
qed

text \<open>
  C1: A superseded controller is locked out. Once a record was stored under a newer fencing token, then after any
  deployment from there, with other controllers, crashes and restarts, a controller with an older grant, reconciling or
  recovering, gets an error, and it changes no record, writes no kernel file and sends no request.
\<close>

theorem superseded_controller_is_locked_out:
  assumes "json_roundtrip J" and "fencing_token r > grant_token g"
    and "stored J st w0 (scope_workload_id scope) = Some r" and "deployment J st w0 w"
  shows "let a = managed_reconcile J st K k e pc T x g scope p w; b = managed_recovery J st K k e pc T x g scope p w in
    is_Err (fst a) \<and> stored J st (snd a) = stored J st w \<and> writes (snd a) = writes w \<and> sent (snd a) = sent w
    \<and> is_Err (fst b) \<and> stored J st (snd b) = stored J st w \<and> writes (snd b) = writes w \<and> sent (snd b) = sent w"
proof -
  obtain n where n: "stored J st w (scope_workload_id scope) = Some n" "record_history r n"
    using deployment_kept [OF assms(1,4)] assms(3) unfolding kept_def by blast
  have newer: "fencing_token n > grant_token g"
    using assms(2) history_later [OF n(2)] by (auto simp: later_record_def)
  obtain l w1 where ld: "load (file_store J st) (scope_workload_id scope) w = (l, w1)"
    by fastforce
  note after = load_from_file_store [OF n(1) ld]
  have "fs.more w1 = fs.more w"
    using after by (simp add: same_outside_def)
  then have w1: "writes w1 = writes w" "sent w1 = sent w"
    by (cases w; cases w1; simp)+
  have l: "l = Ok n \<or> is_Err l"
    using after by blast
  have "snd (managed_reconcile J st K k e pc T x g scope p w) = w1 \<and> is_Err (fst (managed_reconcile J st K k e pc T x g scope p w))"
    unfolding reconcile_with_fenced_grant_def by (rule stale_fence_stops(1) [OF newer ld l])
  moreover have "snd (managed_recovery J st K k e pc T x g scope p w) = w1 \<and> is_Err (fst (managed_recovery J st K k e pc T x g scope p w))"
    unfolding recover_freeze_transition_with_fenced_grant_def by (rule stale_fence_stops(2) [OF newer ld l])
  ultimately show ?thesis
    using w1 after by (simp add: Let_def)
qed

subsection \<open>Instances\<close>

theorem reconciliation_stores_what_it_reports_witness:
  "stored plain_codec sample_store (snd (sample_reconcile sample_world)) ''other''
     = stored plain_codec sample_store sample_world ''other''"
proof -
  obtain res w' where run: "sample_reconcile sample_world = (res, w')"
    by fastforce
  from reconciliation_stores_what_it_reports [OF plain_codec_roundtrip run] show ?thesis
    using run by (simp add: Let_def sample_scope_def)
qed

theorem recovery_stores_what_it_reports_witness:
  "stored plain_codec sample_store (snd (sample_recovery sample_world)) ''other''
     = stored plain_codec sample_store sample_world ''other''"
proof -
  obtain res w' where run: "sample_recovery sample_world = (res, w')"
    by fastforce
  from recovery_stores_what_it_reports [OF plain_codec_roundtrip run] show ?thesis
    using run by (simp add: Let_def sample_scope_def)
qed

theorem superseded_controller_is_locked_out_witness:
  "fencing_token frozen_sample > grant_token sample_grant
   \<and> is_Err (fst (sample_reconcile (sample_rival sample_world))) \<and> is_Err (fst (sample_recovery (sample_rival sample_world)))"
proof -
  have f: "fencing_token frozen_sample > grant_token sample_grant"
    by (simp add: sample_record_def grant_token_def sample_grant_def)
  have "stored plain_codec sample_store sample_world (scope_workload_id (sample_scope 13)) = Some frozen_sample"
    using sample_world_stored by (simp add: sample_scope_def)
  from superseded_controller_is_locked_out [OF plain_codec_roundtrip f this sample_rival_deployment] show ?thesis
    using f by (simp add: Let_def)
qed

end
